theory Spec2Isabelle
  imports Main "HOL-Library.Word"
begin

section \<open>The CDCSDK producer (cdcsdk\_producer.cc)\<close>

text \<open>
  A shallow embedding of \<^verbatim>\<open>src/ent/src/yb/cdc/cdcsdk_producer.cc\<close>. Every function of
  that file is a HOL function of the same name. Out-parameters and the response that the
  C++ mutates in place are passed in and returned. The classes the file only calls
  (tablet, schema, DocDB decoders, catalog client, log reader, snapshot iterator) are not
  part of the file; their methods are fields of the records \<open>Schema\<close>, \<open>Tablet\<close> and \<open>Env\<close>,
  so every result below holds for whatever those methods compute.
  Memory accounting (\<^verbatim>\<open>ScopedTrackedConsumption\<close>) and logging do not touch the response and
  are left out; \<^verbatim>\<open>LOG(DFATAL)\<close> is taken as in a release build, where it only logs.
  The runtime flags are read once per call.
\<close>

subsection \<open>Statuses\<close>

datatype StatusCode =
  InternalError | Corruption | ServiceUnavailable | TabletSplit | InvalidArgument
  | NotFound | IllegalState | TimedOut | NotSupported

text \<open>A status returned by a callee outside the file: a code and a message.\<close>

datatype ExtStatus = ExtStatus StatusCode string

text \<open>
  \<open>STATUS c m\<close> is a status this file creates (\<^verbatim>\<open>STATUS_FORMAT\<close>, \<^verbatim>\<open>STATUS_SUBSTITUTE\<close>,
  \<^verbatim>\<open>SCHECK\<close>); \<open>Propagated e\<close> is a callee's status handed up unchanged by
  \<^verbatim>\<open>RETURN_NOT_OK\<close> or \<^verbatim>\<open>VERIFY_RESULT\<close>; \<open>Aborted m\<close> is a failed \<^verbatim>\<open>CHECK_OK\<close>, which ends the
  process.
\<close>

datatype Status = STATUS StatusCode string | Propagated ExtStatus | Aborted string

fun status_code :: "Status \<Rightarrow> StatusCode option" where
  "status_code (STATUS c m) = Some c"
| "status_code (Propagated (ExtStatus c m)) = Some c"
| "status_code (Aborted m) = None"

definition VERIFY_RESULT :: "(Status + 'a) \<Rightarrow> ('a \<Rightarrow> Status + 'b) \<Rightarrow> Status + 'b" where
  "VERIFY_RESULT r f = (case r of Inl e \<Rightarrow> Inl e | Inr x \<Rightarrow> f x)"

definition ext :: "(ExtStatus + 'a) \<Rightarrow> (Status + 'a)" where
  "ext r = (case r of Inl e \<Rightarrow> Inl (Propagated e) | Inr x \<Rightarrow> Inr x)"

subsection \<open>Identifiers, keys and values\<close>

type_synonym HybridTime = nat
type_synonym MicrosTime = nat
type_synonym IntraTxnWriteId = "32 word"
type_synonym ColumnId = int
type_synonym SchemaVersion = nat
type_synonym TransactionId = string
type_synonym TableId = string
type_synonym TabletId = string

record OpId =
  opid_term :: int
  opid_index :: int

text \<open>
  Modelled from the spec: the file uses \<^verbatim>\<open>OpId::Invalid()\<close>, \<^verbatim>\<open>operator<=\<close> and
  \<^verbatim>\<open>operator!=\<close> of \<^verbatim>\<open>OpId\<close>, which are declared elsewhere. The spec (section 3) has OpId
  as the pair (term, index), totally ordered lexicographically. The invalid OpId is a field
  of \<open>Env\<close>.
\<close>

definition OpId_le :: "OpId \<Rightarrow> OpId \<Rightarrow> bool" where
  "OpId_le a b =
     (opid_term a < opid_term b \<or> (opid_term a = opid_term b \<and> opid_index a \<le> opid_index b))"

datatype KeyEntryType = kColumnId | kSystemColumnId | kOtherKeyEntryType

record KeyEntryValue =
  ke_type :: KeyEntryType
  GetColumnId :: ColumnId
  ke_bytes :: string

record DocKey =
  hashed_group :: "KeyEntryValue list"
  range_group :: "KeyEntryValue list"

record SubDocKey =
  doc_key :: DocKey
  subkeys :: "KeyEntryValue list"

definition num_subkeys :: "SubDocKey \<Rightarrow> nat" where
  "num_subkeys k = length (subkeys k)"

datatype ValueEntryType = kTombstone | kNullLow | kPackedRow | kOtherValueEntryType

record Value =
  value_type :: ValueEntryType
  primitive_value :: KeyEntryValue

type_synonym QLValuePB = "string option"

definition IsNull :: "QLValuePB \<Rightarrow> bool" where
  "IsNull v = (v = None)"

record ColumnSchema =
  col_name :: string
  col_type :: nat
  pg_type_oid :: nat

text \<open>The methods of \<^verbatim>\<open>Schema\<close> that the file calls.\<close>

record Schema =
  initialized :: bool
  SchemaName :: string
  num_columns :: nat
  num_key_columns :: nat
  column :: "nat \<Rightarrow> ColumnSchema"
  column_id :: "nat \<Rightarrow> ColumnId"
  column_by_id :: "ColumnId \<Rightarrow> ExtStatus + ColumnSchema"
  is_key_column :: "ColumnId \<Rightarrow> bool"

record IntentKeyValueForCDC =
  key_buf :: string
  value_buf :: string
  reverse_index_key :: string
  write_id :: IntraTxnWriteId
  intent_ht :: HybridTime

text \<open>The default-constructed intent that \<open>prev_intent\<close> starts as.\<close>

definition IntentKeyValueForCDC_default :: IntentKeyValueForCDC where
  "IntentKeyValueForCDC_default =
     \<lparr>key_buf = [], value_buf = [], reverse_index_key = [], write_id = 0, intent_ht = 0\<rparr>"

record ApplyTransactionState =
  ats_key :: string
  ats_write_id :: IntraTxnWriteId

subsection \<open>The protobuf messages of the response\<close>

datatype Op =
  Op_UNKNOWN | Op_INSERT | Op_UPDATE | Op_DELETE | Op_BEGIN | Op_COMMIT | Op_DDL
  | Op_TRUNCATE | Op_READ

record DatumMessagePB =
  column_name :: string
  column_type :: nat
  datum :: "string option"

definition DatumMessagePB_default :: DatumMessagePB where
  "DatumMessagePB_default = \<lparr>column_name = [], column_type = 0, datum = None\<rparr>"

record CDCSDKColumnInfoPB =
  ci_name :: string
  ci_type :: nat
  ci_is_key :: bool
  ci_is_hash_key :: bool
  ci_is_nullable :: bool
  ci_oid :: nat

record TablePropertiesPB =
  default_time_to_live :: nat
  num_tablets :: nat
  is_ysql_catalog_table :: bool

record CDCSDKSchemaPB =
  column_info :: "CDCSDKColumnInfoPB list"
  tab_info :: TablePropertiesPB

text \<open>
  A cleared \<^verbatim>\<open>RowMessage\<close>: no field set. \<open>Op_UNKNOWN\<close> is what \<^verbatim>\<open>op()\<close> reads on a
  message whose op was never set.
\<close>

record RowMessage =
  op :: Op
  transaction_id :: string
  commit_time :: HybridTime
  table :: string
  pgschema_name :: string
  new_tuple :: "DatumMessagePB list"
  old_tuple :: "DatumMessagePB list"
  rm_schema :: CDCSDKSchemaPB
  schema_version :: SchemaVersion
  new_table_name :: string

definition RowMessage_Clear :: RowMessage where
  "RowMessage_Clear =
     \<lparr>op = Op_UNKNOWN, transaction_id = [], commit_time = 0, table = [], pgschema_name = [],
      new_tuple = [], old_tuple = [],
      rm_schema = \<lparr>column_info = [],
        tab_info = \<lparr>default_time_to_live = 0, num_tablets = 0, is_ysql_catalog_table = False\<rparr>\<rparr>,
      schema_version = 0, new_table_name = []\<rparr>"

record CDCSDKOpIdPB =
  rec_term :: int
  rec_index :: int
  rec_write_id :: IntraTxnWriteId
  write_id_key :: string

record CDCSDKProtoRecordPB =
  row_message :: RowMessage
  cdc_sdk_op_id :: CDCSDKOpIdPB

definition CDCSDKProtoRecordPB_Clear :: CDCSDKProtoRecordPB where
  "CDCSDKProtoRecordPB_Clear =
     \<lparr>row_message = RowMessage_Clear,
      cdc_sdk_op_id = \<lparr>rec_term = 0, rec_index = 0, rec_write_id = 0, write_id_key = []\<rparr>\<rparr>"

text \<open>
  The checkpoint's \<open>write_id\<close> is an \<^verbatim>\<open>int32\<close>; the intents' write ids are \<^verbatim>\<open>uint32\<close>. Both
  are 32-bit words here, so that the conversions between them keep the bits, as in C++;
  \<open>- 1\<close> is the word of all ones.
\<close>

record CDCSDKCheckpointPB =
  cp_term :: int
  cp_index :: int
  cp_write_id :: "32 word"
  cp_key :: string
  cp_snapshot_time :: nat

definition CDCSDKCheckpointPB_default :: CDCSDKCheckpointPB where
  "CDCSDKCheckpointPB_default =
     \<lparr>cp_term = 0, cp_index = 0, cp_write_id = 0, cp_key = [], cp_snapshot_time = 0\<rparr>"

subsection \<open>The environment: what the file calls and does not define\<close>

datatype TableType = PGSQL_TABLE_TYPE | OTHER_TABLE_TYPE

record TransactionParticipant =
  has_context :: bool

record Tablet =
  table_type :: TableType
  table_name :: string
  table_id :: TableId
  schema_of_tablet :: Schema
  metadata_schema_version :: SchemaVersion
  transaction_participant :: "TransactionParticipant option"
  table_name_of :: "TableId \<Rightarrow> string"

record Flags =
  cdc_snapshot_batch_size :: int
  stream_truncate_record :: bool
  enable_single_record_update :: bool
  TEST_cdc_snapshot_failure :: bool
  cdc_intent_retention_ms :: int

text \<open>The messages of the consensus log, as far as the file reads them.\<close>

record ColumnSchemaPB =
  pb_name :: string
  pb_type :: nat
  pb_is_key :: bool
  pb_is_hash_key :: bool
  pb_is_nullable :: bool
  pb_pg_type_oid :: nat

record SchemaPB =
  pb_columns :: "ColumnSchemaPB list"
  pb_table_properties :: TablePropertiesPB
  pb_pgschema_name :: string

record ChangeMetadataRequestPB =
  cmr_schema :: SchemaPB
  cmr_schema_version :: SchemaVersion
  cmr_new_table_name :: string

text \<open>What the accessor \<^verbatim>\<open>change_metadata_request()\<close> gives on a message that has none.\<close>

definition ChangeMetadataRequestPB_default :: ChangeMetadataRequestPB where
  "ChangeMetadataRequestPB_default =
     \<lparr>cmr_schema = \<lparr>pb_columns = [],
        pb_table_properties =
          \<lparr>default_time_to_live = 0, num_tablets = 0, is_ysql_catalog_table = False\<rparr>,
        pb_pgschema_name = []\<rparr>,
      cmr_schema_version = 0, cmr_new_table_name = []\<rparr>"

datatype OperationType =
  UPDATE_TRANSACTION_OP | WRITE_OP | CHANGE_METADATA_OP | TRUNCATE_OP | SPLIT_OP | NO_OP
  | OTHER_OP

datatype TransactionStatus = APPLYING | OTHER_TRANSACTION_STATUS

record TransactionStatePB =
  ts_status :: TransactionStatus
  ts_transaction_id :: string
  ts_commit_hybrid_time :: HybridTime

record WriteBatchPB =
  has_transaction :: bool
  write_pairs :: "(string \<times> string) list"

record ReplicateMsg =
  msg_id :: OpId
  hybrid_time :: HybridTime
  op_type :: OperationType
  transaction_state :: TransactionStatePB
  write_batch :: WriteBatchPB
  change_metadata_request_opt :: "ChangeMetadataRequestPB option"
  has_truncate :: bool
  ShortDebugString :: string

definition has_change_metadata_request :: "ReplicateMsg \<Rightarrow> bool" where
  "has_change_metadata_request msg = (change_metadata_request_opt msg \<noteq> None)"

definition change_metadata_request :: "ReplicateMsg \<Rightarrow> ChangeMetadataRequestPB" where
  "change_metadata_request msg =
     (case change_metadata_request_opt msg of None \<Rightarrow> ChangeMetadataRequestPB_default
      | Some r \<Rightarrow> r)"

record RemoveIntentsData =
  rid_op_id :: OpId
  rid_log_ht :: HybridTime

record TabletLocationsPB =
  split_parent_tablet_id :: "TabletId option"

text \<open>A row of the snapshot scan: \<open>GetColumn\<close> gives no value, or a value that may be unset.\<close>

type_synonym QLTableRow = "ColumnId \<Rightarrow> QLValuePB option"

text \<open>The state of the snapshot iterator; its methods are fields of \<open>Env\<close>.\<close>

type_synonym SnapshotIterator = nat

text \<open>The calls that change something outside the response, in the order they are made.\<close>

datatype Effect = UpdateCDCConsumerOpId OpId | SetIntentRetainOpIdAndTime OpId int

record Env =
  FLAGS :: Flags
  shared_tablet_safe :: "ExtStatus + Tablet"
  ToQLValuePB :: "KeyEntryValue \<Rightarrow> nat \<Rightarrow> QLValuePB"
  SetValueFromQLBinaryWrapper ::
    "QLValuePB \<Rightarrow> nat \<Rightarrow> DatumMessagePB \<Rightarrow> ExtStatus + DatumMessagePB"
  EncodedSize :: "string \<Rightarrow> ExtStatus + nat"
  DecodeKey :: "string \<Rightarrow> ExtStatus + KeyEntryValue"
  DecodeFrom :: "string \<Rightarrow> ExtStatus + SubDocKey"
  Decode :: "string \<Rightarrow> ExtStatus + Value"
  GetPhysicalValueMicros :: "HybridTime \<Rightarrow> MicrosTime"
  FullyDecodeFrom :: "string \<Rightarrow> ExtStatus + SubDocKey"
  ValueControlFields_Decode :: "string \<Rightarrow> ExtStatus + string"
  DecodeValueEntryType :: "string \<Rightarrow> ValueEntryType"
  GetIntents ::
    "TransactionId \<Rightarrow> ApplyTransactionState
       \<Rightarrow> ExtStatus + (IntentKeyValueForCDC list \<times> ApplyTransactionState)"
  GetLatestCheckPoint :: OpId
  GetTableSchemaFromSysCatalog :: "TableId \<Rightarrow> HybridTime \<Rightarrow> ExtStatus + (Schema \<times> SchemaVersion)"
  GetAllColocatedTables :: "TableId list"
  SchemaToPB :: "Schema \<Rightarrow> SchemaPB"
  SchemaFromPB :: "SchemaPB \<Rightarrow> ExtStatus + Schema"
  Schema_default :: Schema
  Schema_moved_from :: "Schema \<Rightarrow> Schema"
  CopyWithoutColumnIds :: "Schema \<Rightarrow> Schema"
  OpId_Invalid :: OpId
  GetLastReplicatedData :: "nat \<Rightarrow> ExtStatus + RemoveIntentsData"
  CreateCDCSnapshotIterator :: "Schema \<Rightarrow> HybridTime \<Rightarrow> string \<Rightarrow> ExtStatus + SnapshotIterator"
  HasNext :: "SnapshotIterator \<Rightarrow> ExtStatus + bool"
  NextRow :: "SnapshotIterator \<Rightarrow> QLTableRow \<Rightarrow> ExtStatus + (QLTableRow \<times> SnapshotIterator)"
  GetNextReadSubDocKey :: "SnapshotIterator \<Rightarrow> ExtStatus + SubDocKey"
  DocKey_empty :: "DocKey \<Rightarrow> bool"
  SubDocKey_Encode :: "SubDocKey \<Rightarrow> string"
  QLTableRow_default :: QLTableRow
  consume_byte_kTransactionId :: "string \<Rightarrow> ExtStatus + string"
  DecodeTransactionId :: "string \<Rightarrow> ExtStatus + TransactionId"
  FullyDecodeTransactionId :: "string \<Rightarrow> ExtStatus + TransactionId"
  ReadReplicatedMessagesForCDC :: "OpId \<Rightarrow> int option \<Rightarrow> ExtStatus + (ReplicateMsg list \<times> int)"
  RequestScope_Create :: "ExtStatus + unit"
  GetTablets :: "TableId \<Rightarrow> ExtStatus + TabletLocationsPB list"

subsection \<open>Building tuples\<close>

fun SetOperation :: "RowMessage \<Rightarrow> Op \<Rightarrow> Schema \<Rightarrow> RowMessage" where
  "SetOperation rm t schema = rm\<lparr>op := t, pgschema_name := SchemaName schema\<rparr>"

definition AddColumnToMap ::
  "Env \<Rightarrow> ColumnSchema \<Rightarrow> KeyEntryValue \<Rightarrow> DatumMessagePB \<Rightarrow> Status + DatumMessagePB" where
  "AddColumnToMap env col_schema col cdc_datum_message =
     VERIFY_RESULT (ext (shared_tablet_safe env)) (\<lambda>tablet.
       let d = cdc_datum_message\<lparr>column_name := col_name col_schema\<rparr> in
       if table_type tablet = PGSQL_TABLE_TYPE then
         (let ql_value = ToQLValuePB env col (col_type col_schema) in
          if \<not> IsNull ql_value \<and> pg_type_oid col_schema \<noteq> 0
          then ext (SetValueFromQLBinaryWrapper env ql_value (pg_type_oid col_schema) d)
          else Inr (d\<lparr>column_type := pg_type_oid col_schema\<rparr>))
       else Inr d)"

text \<open>
  \<open>AddTuple\<close> appends one entry to each of the two tuple lists and returns a pointer to
  the one that will carry the value: the old tuple's for a DELETE, the new tuple's
  otherwise. The pointer is modelled by the datatype \<open>TupleSlot\<close>; \<open>fill_slot\<close> writes
  through it. (The callers never pass a null row message.)
\<close>

datatype TupleSlot = OldTupleSlot | NewTupleSlot

definition AddTuple :: "RowMessage \<Rightarrow> RowMessage \<times> TupleSlot" where
  "AddTuple rm =
     (if op rm = Op_DELETE
      then (rm\<lparr>old_tuple := old_tuple rm @ [DatumMessagePB_default],
               new_tuple := new_tuple rm @ [DatumMessagePB_default]\<rparr>, OldTupleSlot)
      else (rm\<lparr>new_tuple := new_tuple rm @ [DatumMessagePB_default],
               old_tuple := old_tuple rm @ [DatumMessagePB_default]\<rparr>, NewTupleSlot))"

definition slot_value :: "RowMessage \<Rightarrow> TupleSlot \<Rightarrow> DatumMessagePB" where
  "slot_value rm s = (case s of OldTupleSlot \<Rightarrow> last (old_tuple rm) | NewTupleSlot \<Rightarrow> last (new_tuple rm))"

definition fill_slot :: "RowMessage \<Rightarrow> TupleSlot \<Rightarrow> DatumMessagePB \<Rightarrow> RowMessage" where
  "fill_slot rm s d =
     (case s of
        OldTupleSlot \<Rightarrow> rm\<lparr>old_tuple := (old_tuple rm)[length (old_tuple rm) - 1 := d]\<rparr>
      | NewTupleSlot \<Rightarrow> rm\<lparr>new_tuple := (new_tuple rm)[length (new_tuple rm) - 1 := d]\<rparr>)"

text \<open>
  The two loops of \<open>AddPrimaryKey\<close> share the counter \<open>i\<close>; \<open>AddPrimaryKey_loop\<close> is one
  of them, started at the counter's current value.
\<close>

fun AddPrimaryKey_loop ::
  "Env \<Rightarrow> Schema \<Rightarrow> KeyEntryValue list \<Rightarrow> nat \<Rightarrow> RowMessage \<Rightarrow> Status + RowMessage" where
  "AddPrimaryKey_loop env tablet_schema [] i rm = Inr rm"
| "AddPrimaryKey_loop env tablet_schema (col # cols) i rm =
     (case AddTuple rm of (rm1, slot) \<Rightarrow>
        VERIFY_RESULT (AddColumnToMap env (column tablet_schema i) col (slot_value rm1 slot))
          (\<lambda>d. AddPrimaryKey_loop env tablet_schema cols (i + 1) (fill_slot rm1 slot d)))"

definition AddPrimaryKey ::
  "Env \<Rightarrow> SubDocKey \<Rightarrow> Schema \<Rightarrow> RowMessage \<Rightarrow> Status + RowMessage" where
  "AddPrimaryKey env decoded_key tablet_schema rm =
     VERIFY_RESULT
       (AddPrimaryKey_loop env tablet_schema (hashed_group (doc_key decoded_key)) 0 rm)
       (\<lambda>rm1. AddPrimaryKey_loop env tablet_schema (range_group (doc_key decoded_key))
                 (length (hashed_group (doc_key decoded_key))) rm1)"

definition SetCDCSDKOpId :: "int \<Rightarrow> int \<Rightarrow> IntraTxnWriteId \<Rightarrow> string \<Rightarrow> CDCSDKOpIdPB" where
  "SetCDCSDKOpId term index wid key =
     \<lparr>rec_term = term, rec_index = index, rec_write_id = wid, write_id_key = key\<rparr>"

definition IsInsertOperation :: "RowMessage \<Rightarrow> bool" where
  "IsInsertOperation rm = (op rm = Op_INSERT)"

text \<open>
  \<^verbatim>\<open>RowMessage\<close> and \<^verbatim>\<open>CDCSDKProtoRecordPB\<close> declare no required field, so
  \<^verbatim>\<open>IsInitialized()\<close> holds of every message.
\<close>

definition IsInitialized :: "'a \<Rightarrow> bool" where
  "IsInitialized m = True"

definition IsInsertOrUpdate :: "RowMessage \<Rightarrow> bool" where
  "IsInsertOrUpdate rm = (IsInitialized rm \<and> (op rm = Op_INSERT \<or> op rm = Op_UPDATE))"

subsection \<open>PopulateCDCSDKIntentRecord\<close>

text \<open>
  The locals of \<open>PopulateCDCSDKIntentRecord\<close> that live across iterations of its loop,
  with the three things it writes for its caller: the records of the response and the
  out-parameters \<open>write_id\<close> and \<open>reverse_index_key\<close>. \<open>row_message\<close> points into
  \<open>proto_record\<close>, so it is the field \<open>row_message\<close> of \<open>l_proto_record\<close>.
\<close>

record IntentLoop =
  l_prev_key :: string
  l_proto_record :: CDCSDKProtoRecordPB
  l_col_count :: nat
  l_prev_intent :: IntentKeyValueForCDC
  l_prev_intent_phy_time :: MicrosTime
  l_new_cdc_record_needed :: bool
  l_records :: "CDCSDKProtoRecordPB list"
  l_write_id :: IntraTxnWriteId
  l_reverse_index_key :: string

definition l_row_message :: "IntentLoop \<Rightarrow> RowMessage" where
  "l_row_message st = row_message (l_proto_record st)"

definition set_row_message :: "RowMessage \<Rightarrow> IntentLoop \<Rightarrow> IntentLoop" where
  "set_row_message rm st = st\<lparr>l_proto_record := (l_proto_record st)\<lparr>row_message := rm\<rparr>\<rparr>"

text \<open>\<open>size_t\<close> arithmetic wraps at \<open>2 ^ 64\<close>.\<close>

definition size_t_dec :: "nat \<Rightarrow> nat" where
  "size_t_dec n = (n + 2 ^ 64 - 1) mod 2 ^ 64"

definition size_t_inc :: "nat \<Rightarrow> nat" where
  "size_t_inc n = (n + 1) mod 2 ^ 64"

definition MakeNewProtoRecord :: "IntentKeyValueForCDC \<Rightarrow> OpId \<Rightarrow> IntentLoop \<Rightarrow> IntentLoop" where
  "MakeNewProtoRecord intent op_id st =
     (let pr = (l_proto_record st)\<lparr>cdc_sdk_op_id :=
                 SetCDCSDKOpId (opid_term op_id) (opid_index op_id) (write_id intent)
                   (reverse_index_key intent)\<rparr>
      in st\<lparr>l_proto_record := pr, l_records := l_records st @ [pr],
             l_write_id := write_id intent, l_reverse_index_key := reverse_index_key intent\<rparr>)"

text \<open>What the decoders give for one intent (lines 206 to 224).\<close>

record DecodedIntent =
  d_primary_key :: string
  d_column_id_opt :: "KeyEntryValue option"
  d_decoded_key :: SubDocKey
  d_decoded_value :: Value

definition decode_intent :: "Env \<Rightarrow> IntentKeyValueForCDC \<Rightarrow> Status + DecodedIntent" where
  "decode_intent env intent =
     VERIFY_RESULT (ext (EncodedSize env (key_buf intent))) (\<lambda>key_size.
     let key_column = drop key_size (key_buf intent) in
     VERIFY_RESULT
       (if key_column \<noteq> [] then VERIFY_RESULT (ext (DecodeKey env key_column)) (\<lambda>c. Inr (Some c))
        else Inr None) (\<lambda>column_id_opt.
     VERIFY_RESULT (ext (DecodeFrom env (key_buf intent))) (\<lambda>decoded_key.
     VERIFY_RESULT (ext (Decode env (value_buf intent))) (\<lambda>decoded_value.
       Inr \<lparr>d_primary_key = take key_size (key_buf intent), d_column_id_opt = column_id_opt,
            d_decoded_key = decoded_key, d_decoded_value = decoded_value\<rparr>))))"

definition is_key_column_intent :: "Schema \<Rightarrow> DecodedIntent \<Rightarrow> bool" where
  "is_key_column_intent schema d =
     (case d_column_id_opt d of None \<Rightarrow> False
      | Some c \<Rightarrow> ke_type c = kColumnId \<and> is_key_column schema (GetColumnId c))"

definition is_root_tombstone :: "DecodedIntent \<Rightarrow> bool" where
  "is_root_tombstone d =
     (value_type (d_decoded_value d) = kTombstone \<and> num_subkeys (d_decoded_key d) = 0)"

text \<open>Lines 240 to 248: whether this intent starts a new CDC record.\<close>

definition compute_new_cdc_record_needed ::
  "Env \<Rightarrow> Schema \<Rightarrow> IntentLoop \<Rightarrow> IntentKeyValueForCDC \<Rightarrow> DecodedIntent \<Rightarrow> bool" where
  "compute_new_cdc_record_needed env schema st intent d =
     (if enable_single_record_update (FLAGS env) then
        (l_prev_key st \<noteq> d_primary_key d) \<or> (l_col_count st \<ge> num_columns schema) \<or>
        is_root_tombstone d \<or>
        l_prev_intent_phy_time st \<noteq> GetPhysicalValueMicros env (intent_ht intent)
      else (l_prev_key st \<noteq> d_primary_key d) \<or> (l_col_count st \<ge> num_columns schema))"

text \<open>Lines 250 to 292: the body of \<^verbatim>\<open>if (new_cdc_record_needed)\<close>.\<close>

definition open_new_record ::
  "Env \<Rightarrow> OpId \<Rightarrow> TransactionId \<Rightarrow> Schema \<Rightarrow> IntentLoop \<Rightarrow> IntentKeyValueForCDC
     \<Rightarrow> DecodedIntent \<Rightarrow> Status + IntentLoop" where
  "open_new_record env op_id txn schema st intent d =
     (let single = enable_single_record_update (FLAGS env);
          st1 = (if single then
                   (let st0 = (if l_col_count st > 0 then st\<lparr>l_col_count := 0\<rparr> else st) in
                    if IsInitialized (l_proto_record st0) \<and> IsInitialized (l_row_message st0) \<and>
                       op (l_row_message st0) = Op_UPDATE
                    then MakeNewProtoRecord (l_prev_intent st0) op_id st0 else st0)
                 else st);
          st2 = st1\<lparr>l_proto_record := CDCSDKProtoRecordPB_Clear\<rparr>;
          st3 = (if is_root_tombstone d then
                   (let st' = (set_row_message (SetOperation (l_row_message st2) Op_DELETE schema) st2)
                                \<lparr>l_write_id := write_id intent\<rparr>
                    in if \<not> single then st'\<lparr>l_col_count := num_columns schema\<rparr> else st')
                 else if (case d_column_id_opt d of None \<Rightarrow> False
                          | Some c \<Rightarrow> ke_type c = kSystemColumnId) \<and>
                         value_type (d_decoded_value d) = kNullLow then
                   (set_row_message (SetOperation (l_row_message st2) Op_INSERT schema) st2)
                     \<lparr>l_col_count := size_t_dec (num_key_columns schema)\<rparr>
                 else
                   (let st' = (set_row_message (SetOperation (l_row_message st2) Op_UPDATE schema) st2)
                                \<lparr>l_write_id := write_id intent\<rparr>
                    in if \<not> single then st'\<lparr>l_col_count := num_columns schema\<rparr> else st'));
          rm = (l_row_message st3)\<lparr>transaction_id := txn\<rparr>
      in VERIFY_RESULT (AddPrimaryKey env (d_decoded_key d) schema rm)
           (\<lambda>rm'. Inr (set_row_message rm' st3)))"

text \<open>Lines 296 to 321: the body of \<^verbatim>\<open>if (IsInsertOrUpdate(*row_message))\<close>.\<close>

definition add_column_value ::
  "Env \<Rightarrow> Schema \<Rightarrow> IntentLoop \<Rightarrow> IntentKeyValueForCDC \<Rightarrow> DecodedIntent \<Rightarrow> Status + IntentLoop" where
  "add_column_value env schema st intent d =
     (let st1 = (if enable_single_record_update (FLAGS env)
                 then st\<lparr>l_col_count := size_t_inc (l_col_count st)\<rparr>
                 else if IsInsertOperation (l_row_message st)
                      then st\<lparr>l_col_count := size_t_inc (l_col_count st)\<rparr> else st)
      in VERIFY_RESULT (ext (Decode env (value_buf intent))) (\<lambda>decoded_value.
           case d_column_id_opt d of
             None \<Rightarrow> Inr st1
           | Some c \<Rightarrow>
               if ke_type c = kColumnId then
                 VERIFY_RESULT (ext (column_by_id schema (GetColumnId c))) (\<lambda>col.
                 VERIFY_RESULT
                   (AddColumnToMap env col (primitive_value decoded_value) DatumMessagePB_default)
                   (\<lambda>dm. let rm = l_row_message st1 in
                      Inr (set_row_message
                             (rm\<lparr>new_tuple := new_tuple rm @ [dm],
                                 old_tuple := old_tuple rm @ [DatumMessagePB_default]\<rparr>) st1)))
               else Inr st1))"

text \<open>Lines 323 to 342: emit the record, or hold it back.\<close>

definition emit_or_hold ::
  "Env \<Rightarrow> OpId \<Rightarrow> Schema \<Rightarrow> string \<Rightarrow> IntentLoop \<Rightarrow> IntentKeyValueForCDC \<Rightarrow> IntentLoop" where
  "emit_or_hold env op_id schema tname st intent =
     (let st1 = set_row_message ((l_row_message st)\<lparr>table := tname\<rparr>) st;
          o1 = op (l_row_message st1)
      in if enable_single_record_update (FLAGS env) then
           (if (o1 = Op_INSERT \<and> l_col_count st1 = num_columns schema) \<or> o1 = Op_DELETE
            then (MakeNewProtoRecord intent op_id st1)\<lparr>l_col_count := num_columns schema\<rparr>
            else if o1 = Op_UPDATE then st1\<lparr>l_prev_intent := intent\<rparr> else st1)
         else
           (if (o1 = Op_INSERT \<and> l_col_count st1 = num_columns schema) \<or>
               (o1 = Op_UPDATE \<or> o1 = Op_DELETE)
            then MakeNewProtoRecord intent op_id st1 else st1))"

text \<open>One iteration of the loop over the intents (lines 205 to 343).\<close>

definition intent_step ::
  "Env \<Rightarrow> OpId \<Rightarrow> TransactionId \<Rightarrow> Schema \<Rightarrow> string \<Rightarrow> IntentLoop \<Rightarrow> IntentKeyValueForCDC
     \<Rightarrow> Status + IntentLoop" where
  "intent_step env op_id txn schema tname st intent =
     VERIFY_RESULT (decode_intent env intent) (\<lambda>d.
       if is_key_column_intent schema d
       then Inr (st\<lparr>l_write_id := write_id intent,
                     l_reverse_index_key := reverse_index_key intent\<rparr>)
       else
         (let needed = compute_new_cdc_record_needed env schema st intent d;
              st1 = st\<lparr>l_new_cdc_record_needed := needed\<rparr>
          in VERIFY_RESULT
               (if needed then open_new_record env op_id txn schema st1 intent d else Inr st1)
               (\<lambda>st2.
                  let st3 = st2\<lparr>l_prev_key := d_primary_key d,
                              l_prev_intent_phy_time :=
                                GetPhysicalValueMicros env (intent_ht intent)\<rparr>
                  in VERIFY_RESULT
                       (if IsInsertOrUpdate (l_row_message st3)
                        then add_column_value env schema st3 intent d else Inr st3)
                       (\<lambda>st4. Inr (emit_or_hold env op_id schema tname st4 intent)))))"

fun intent_loop ::
  "Env \<Rightarrow> OpId \<Rightarrow> TransactionId \<Rightarrow> Schema \<Rightarrow> string \<Rightarrow> IntentLoop
     \<Rightarrow> IntentKeyValueForCDC list \<Rightarrow> Status + IntentLoop" where
  "intent_loop env op_id txn schema tname st [] = Inr st"
| "intent_loop env op_id txn schema tname st (intent # intents) =
     VERIFY_RESULT (intent_step env op_id txn schema tname st intent)
       (\<lambda>st'. intent_loop env op_id txn schema tname st' intents)"

definition IntentLoop_init ::
  "CDCSDKProtoRecordPB list \<Rightarrow> IntraTxnWriteId \<Rightarrow> string \<Rightarrow> IntentLoop" where
  "IntentLoop_init records wid rkey =
     \<lparr>l_prev_key = [], l_proto_record = CDCSDKProtoRecordPB_Clear, l_col_count = 0,
      l_prev_intent = IntentKeyValueForCDC_default, l_prev_intent_phy_time = 0,
      l_new_cdc_record_needed = False, l_records = records, l_write_id = wid,
      l_reverse_index_key = rkey\<rparr>"

text \<open>Lines 345 to 351: the pending UPDATE is emitted after the loop.\<close>

definition final_flush :: "Env \<Rightarrow> OpId \<Rightarrow> string \<Rightarrow> IntentLoop \<Rightarrow> IntentLoop" where
  "final_flush env op_id tname st =
     (if enable_single_record_update (FLAGS env) \<and> IsInitialized (l_proto_record st) \<and>
         IsInitialized (l_row_message st) \<and> op (l_row_message st) = Op_UPDATE
      then MakeNewProtoRecord (l_prev_intent st) op_id
             (set_row_message ((l_row_message st)\<lparr>table := tname\<rparr>) st)
      else st)"

text \<open>
  \<open>PopulateCDCSDKIntentRecord\<close> returns the records of the response and the two
  out-parameters. It is given the records already in the response and the values the
  out-parameters have on entry.
\<close>

definition PopulateCDCSDKIntentRecord ::
  "Env \<Rightarrow> OpId \<Rightarrow> TransactionId \<Rightarrow> IntentKeyValueForCDC list \<Rightarrow> CDCSDKProtoRecordPB list
     \<Rightarrow> IntraTxnWriteId \<Rightarrow> string \<Rightarrow> Schema
     \<Rightarrow> Status + (CDCSDKProtoRecordPB list \<times> IntraTxnWriteId \<times> string)" where
  "PopulateCDCSDKIntentRecord env op_id txn intents records wid rkey schema =
     VERIFY_RESULT (ext (shared_tablet_safe env)) (\<lambda>tablet.
     VERIFY_RESULT
       (intent_loop env op_id txn schema (table_name tablet) (IntentLoop_init records wid rkey)
          intents)
       (\<lambda>st. let st' = final_flush env op_id (table_name tablet) st
             in Inr (l_records st', l_write_id st', l_reverse_index_key st')))"

subsection \<open>ProcessIntents\<close>

definition SetTermIndex :: "int \<Rightarrow> int \<Rightarrow> CDCSDKCheckpointPB \<Rightarrow> CDCSDKCheckpointPB" where
  "SetTermIndex term index checkpoint = checkpoint\<lparr>cp_term := term, cp_index := index\<rparr>"

definition SetKeyWriteId :: "string \<Rightarrow> 32 word \<Rightarrow> CDCSDKCheckpointPB \<Rightarrow> CDCSDKCheckpointPB" where
  "SetKeyWriteId key wid checkpoint = checkpoint\<lparr>cp_key := key, cp_write_id := wid\<rparr>"

definition begin_record :: "TransactionId \<Rightarrow> string \<Rightarrow> CDCSDKProtoRecordPB" where
  "begin_record txn tname =
     CDCSDKProtoRecordPB_Clear\<lparr>row_message :=
       RowMessage_Clear\<lparr>op := Op_BEGIN, transaction_id := txn, table := tname\<rparr>\<rparr>"

definition commit_record :: "OpId \<Rightarrow> TransactionId \<Rightarrow> string \<Rightarrow> CDCSDKProtoRecordPB" where
  "commit_record op_id txn tname =
     \<lparr>row_message = RowMessage_Clear\<lparr>op := Op_COMMIT, transaction_id := txn, table := tname\<rparr>,
      cdc_sdk_op_id = SetCDCSDKOpId (opid_term op_id) (opid_index op_id) 0 []\<rparr>"

definition gced_intents_status :: "TransactionId \<Rightarrow> Status" where
  "gced_intents_status txn =
     STATUS InternalError (''CDCSDK Trying to fetch already GCed intents for transaction '' @ txn)"

text \<open>
  The schema variables of \<open>ProcessIntents\<close>: the local \<open>current_schema\<close> and the
  caller's \<open>cached_schema\<close> and \<open>cached_schema_version\<close>.
\<close>

record SchemaVars =
  current_schema :: Schema
  cached_schema :: Schema
  cached_schema_version :: SchemaVersion

text \<open>Lines 566 to 600: one iteration of the loop that resolves the schema and checks the values.\<close>

definition check_intent ::
  "Env \<Rightarrow> Tablet \<Rightarrow> SchemaVars \<Rightarrow> IntentKeyValueForCDC \<Rightarrow> Status + SchemaVars" where
  "check_intent env tablet sv keyValue =
     (case FullyDecodeFrom env (key_buf keyValue) of
        Inl e \<Rightarrow> Inl (Aborted ''CHECK_OK'')
      | Inr sub_doc_key \<Rightarrow>
          (let sv1 =
             (if \<not> initialized (cached_schema sv) then
                (case GetTableSchemaFromSysCatalog env (table_id tablet) (intent_ht keyValue) of
                   Inl e \<Rightarrow> sv\<lparr>current_schema := schema_of_tablet tablet,
                                cached_schema_version := metadata_schema_version tablet\<rparr>
                 | Inr result \<Rightarrow> sv\<lparr>current_schema := fst result,
                                     cached_schema_version := snd result,
                                     cached_schema := fst result\<rparr>)
              else sv)
           in VERIFY_RESULT (ext (ValueControlFields_Decode env (value_buf keyValue)))
                (\<lambda>value_slice.
                   if DecodeValueEntryType env value_slice \<noteq> kPackedRow
                   then VERIFY_RESULT (ext (Decode env (value_buf keyValue))) (\<lambda>v. Inr sv1)
                   else Inr sv1)))"

fun check_intents ::
  "Env \<Rightarrow> Tablet \<Rightarrow> SchemaVars \<Rightarrow> IntentKeyValueForCDC list \<Rightarrow> Status + SchemaVars" where
  "check_intents env tablet sv [] = Inr sv"
| "check_intents env tablet sv (keyValue # rest) =
     VERIFY_RESULT (check_intent env tablet sv keyValue)
       (\<lambda>sv'. check_intents env tablet sv' rest)"

record ProcessIntentsOut =
  pi_records :: "CDCSDKProtoRecordPB list"
  pi_checkpoint :: CDCSDKCheckpointPB
  pi_stream_state :: ApplyTransactionState
  pi_cached_schema :: Schema
  pi_cached_schema_version :: SchemaVersion

text \<open>Lines 602 to 628, after the intents were fetched and found not to be garbage-collected.\<close>

definition ProcessIntents_rest ::
  "Env \<Rightarrow> Tablet \<Rightarrow> OpId \<Rightarrow> TransactionId \<Rightarrow> CDCSDKProtoRecordPB list \<Rightarrow> CDCSDKCheckpointPB
     \<Rightarrow> IntentKeyValueForCDC list \<Rightarrow> ApplyTransactionState \<Rightarrow> Schema \<Rightarrow> SchemaVersion
     \<Rightarrow> Status + ProcessIntentsOut" where
  "ProcessIntents_rest env tablet op_id txn records checkpoint keyValueIntents stream_state
       c_schema c_version =
     VERIFY_RESULT
       (check_intents env tablet
          \<lparr>current_schema = c_schema, cached_schema = c_schema, cached_schema_version = c_version\<rparr>
          keyValueIntents) (\<lambda>sv.
     VERIFY_RESULT
       (PopulateCDCSDKIntentRecord env op_id txn keyValueIntents records 0 [] (current_schema sv))
       (\<lambda>(records1, wid, rkey).
          let checkpoint1 = SetTermIndex (opid_term op_id) (opid_index op_id) checkpoint in
          if ats_key stream_state = [] \<and> ats_write_id stream_state = 0 then
            Inr \<lparr>pi_records = records1 @ [commit_record op_id txn (table_name tablet)],
                 pi_checkpoint = SetKeyWriteId [] 0 checkpoint1,
                 pi_stream_state = stream_state,
                 pi_cached_schema = cached_schema sv,
                 pi_cached_schema_version = cached_schema_version sv\<rparr>
          else
            Inr \<lparr>pi_records = records1,
                 pi_checkpoint = SetKeyWriteId rkey wid checkpoint1,
                 pi_stream_state = stream_state,
                 pi_cached_schema = cached_schema sv,
                 pi_cached_schema_version = cached_schema_version sv\<rparr>))"

text \<open>
  \<open>ProcessIntents\<close> is given the records already in the response, the checkpoint, the
  stream state and the cached schema with its version, and returns them updated. Both
  callers pass an empty \<open>keyValueIntents\<close>, which \<open>GetIntents\<close> fills.
\<close>

definition ProcessIntents ::
  "Env \<Rightarrow> OpId \<Rightarrow> TransactionId \<Rightarrow> CDCSDKProtoRecordPB list \<Rightarrow> CDCSDKCheckpointPB
     \<Rightarrow> ApplyTransactionState \<Rightarrow> Schema \<Rightarrow> SchemaVersion \<Rightarrow> Status + ProcessIntentsOut" where
  "ProcessIntents env op_id txn records checkpoint stream_state c_schema c_version =
     VERIFY_RESULT (ext (shared_tablet_safe env)) (\<lambda>tablet.
       let records1 =
             (if ats_key stream_state = [] \<and> ats_write_id stream_state = 0
              then records @ [begin_record txn (table_name tablet)] else records)
       in VERIFY_RESULT (ext (GetIntents env txn stream_state)) (\<lambda>(keyValueIntents, stream_state1).
            if length keyValueIntents = 0 \<and> OpId_le op_id (GetLatestCheckPoint env)
            then Inl (gced_intents_status txn)
            else ProcessIntents_rest env tablet op_id txn records1 checkpoint keyValueIntents
                   stream_state1 c_schema c_version))"

subsection \<open>PopulateCDCSDKWriteRecord\<close>

text \<open>
  \<open>w_current\<close> is the record \<open>proto_record\<close> points to (none before the first row): the
  last record added to the response, which the loop keeps writing to. \<open>w_records\<close> are the
  records before it.
\<close>

record WriteLoop =
  w_records :: "CDCSDKProtoRecordPB list"
  w_current :: "CDCSDKProtoRecordPB option"
  w_prev_key :: string

definition WriteLoop_records :: "WriteLoop \<Rightarrow> CDCSDKProtoRecordPB list" where
  "WriteLoop_records st =
     w_records st @ (case w_current st of None \<Rightarrow> [] | Some r \<Rightarrow> [r])"

text \<open>Lines 383 to 418: a write pair of another row starts a new record.\<close>

definition write_new_record ::
  "Env \<Rightarrow> Tablet \<Rightarrow> ReplicateMsg \<Rightarrow> Schema \<Rightarrow> string \<Rightarrow> nat \<Rightarrow> Value \<Rightarrow> Status + CDCSDKProtoRecordPB"
  where
  "write_new_record env tablet msg schema key key_size decoded_value =
     (let rm0 = RowMessage_Clear\<lparr>pgschema_name := SchemaName schema, table := table_name tablet\<rparr>;
          opid = SetCDCSDKOpId (opid_term (msg_id msg)) (opid_index (msg_id msg)) 0 []
      in VERIFY_RESULT (ext (DecodeFrom env key)) (\<lambda>decoded_key.
         VERIFY_RESULT
           (if value_type decoded_value = kTombstone \<and> num_subkeys decoded_key = 0
            then Inr (SetOperation rm0 Op_DELETE schema)
            else VERIFY_RESULT (ext (DecodeKey env (drop key_size key))) (\<lambda>cid.
                   if ke_type cid = kSystemColumnId \<and> value_type decoded_value = kNullLow
                   then Inr (SetOperation rm0 Op_INSERT schema)
                   else Inr (SetOperation rm0 Op_UPDATE schema)))
           (\<lambda>rm1. VERIFY_RESULT (AddPrimaryKey env decoded_key schema rm1)
              (\<lambda>rm2. Inr \<lparr>row_message = rm2\<lparr>commit_time := hybrid_time msg\<rparr>,
                          cdc_sdk_op_id = opid\<rparr>))))"

text \<open>Lines 422 to 437: the column of the write pair goes into the current record.\<close>

definition write_column ::
  "Env \<Rightarrow> Schema \<Rightarrow> string \<Rightarrow> nat \<Rightarrow> Value \<Rightarrow> RowMessage \<Rightarrow> Status + RowMessage" where
  "write_column env schema key key_size decoded_value rm =
     (if IsInsertOrUpdate rm then
        VERIFY_RESULT (ext (DecodeKey env (drop key_size key))) (\<lambda>cid.
          if ke_type cid = kColumnId then
            VERIFY_RESULT (ext (column_by_id schema (GetColumnId cid))) (\<lambda>col.
            VERIFY_RESULT
              (AddColumnToMap env col (primitive_value decoded_value) DatumMessagePB_default)
              (\<lambda>dm. Inr (rm\<lparr>new_tuple := new_tuple rm @ [dm],
                             old_tuple := old_tuple rm @ [DatumMessagePB_default]\<rparr>)))
          else Inr rm)
      else Inr rm)"

text \<open>
  One write pair (lines 371 to 438). When no record was started (the first pair's document
  key is empty, as \<open>prev_key\<close> is at the start), \<^verbatim>\<open>DCHECK(proto_record)\<close> fails.
\<close>

definition write_pair_step ::
  "Env \<Rightarrow> Tablet \<Rightarrow> ReplicateMsg \<Rightarrow> Schema \<Rightarrow> WriteLoop \<Rightarrow> string \<times> string \<Rightarrow> Status + WriteLoop"
  where
  "write_pair_step env tablet msg schema st write_pair =
     (let key = fst write_pair; val = snd write_pair in
      VERIFY_RESULT (ext (EncodedSize env key)) (\<lambda>key_size.
      VERIFY_RESULT (ext (Decode env val)) (\<lambda>decoded_value.
      let primary_key = take key_size key in
      VERIFY_RESULT
        (if w_prev_key st \<noteq> primary_key
         then VERIFY_RESULT (write_new_record env tablet msg schema key key_size decoded_value)
                (\<lambda>r. Inr (st\<lparr>w_records := WriteLoop_records st, w_current := Some r\<rparr>))
         else Inr st) (\<lambda>st1.
      case w_current st1 of
        None \<Rightarrow> Inl (Aborted ''DCHECK(proto_record)'')
      | Some r \<Rightarrow>
          VERIFY_RESULT (write_column env schema key key_size decoded_value (row_message r))
            (\<lambda>rm. Inr (st1\<lparr>w_current := Some (r\<lparr>row_message := rm\<rparr>),
                            w_prev_key := primary_key\<rparr>))))))"

fun write_pair_loop ::
  "Env \<Rightarrow> Tablet \<Rightarrow> ReplicateMsg \<Rightarrow> Schema \<Rightarrow> WriteLoop \<Rightarrow> (string \<times> string) list
     \<Rightarrow> Status + WriteLoop" where
  "write_pair_loop env tablet msg schema st [] = Inr st"
| "write_pair_loop env tablet msg schema st (write_pair # rest) =
     VERIFY_RESULT (write_pair_step env tablet msg schema st write_pair)
       (\<lambda>st'. write_pair_loop env tablet msg schema st' rest)"

definition PopulateCDCSDKWriteRecord ::
  "Env \<Rightarrow> ReplicateMsg \<Rightarrow> CDCSDKProtoRecordPB list \<Rightarrow> Schema
     \<Rightarrow> Status + CDCSDKProtoRecordPB list" where
  "PopulateCDCSDKWriteRecord env msg records schema =
     VERIFY_RESULT (ext (shared_tablet_safe env)) (\<lambda>tablet_ptr.
     VERIFY_RESULT
       (write_pair_loop env tablet_ptr msg schema
          \<lparr>w_records = records, w_current = None, w_prev_key = []\<rparr>
          (write_pairs (write_batch msg)))
       (\<lambda>st. Inr (WriteLoop_records st)))"

subsection \<open>DDL, truncate and snapshot records\<close>

definition SetTableProperties :: "TablePropertiesPB \<Rightarrow> TablePropertiesPB" where
  "SetTableProperties table_properties =
     \<lparr>default_time_to_live = default_time_to_live table_properties,
      num_tablets = num_tablets table_properties,
      is_ysql_catalog_table = is_ysql_catalog_table table_properties\<rparr>"

definition SetColumnInfo :: "ColumnSchemaPB \<Rightarrow> CDCSDKColumnInfoPB" where
  "SetColumnInfo c =
     \<lparr>ci_name = pb_name c, ci_type = pb_type c, ci_is_key = pb_is_key c,
      ci_is_hash_key = pb_is_hash_key c, ci_is_nullable = pb_is_nullable c,
      ci_oid = pb_pg_type_oid c\<rparr>"

text \<open>
  The three functions below fill a record that the caller has just added to the response
  (the argument \<^verbatim>\<open>resp->add_cdc_sdk_proto_records()\<close>); they return it filled.
\<close>

definition PopulateCDCSDKDDLRecord ::
  "ReplicateMsg \<Rightarrow> string \<Rightarrow> Schema \<Rightarrow> Status + CDCSDKProtoRecordPB" where
  "PopulateCDCSDKDDLRecord msg tname schema =
     (if \<not> has_change_metadata_request msg
      then Inl (STATUS InvalidArgument
                  (''Change metadata (DDL) message requires metadata information: '' @
                   ShortDebugString msg))
      else Inr
        \<lparr>row_message = RowMessage_Clear
           \<lparr>op := Op_DDL, table := tname,
            rm_schema :=
              \<lparr>column_info = map SetColumnInfo (pb_columns (cmr_schema (change_metadata_request msg))),
               tab_info = SetTableProperties
                 (pb_table_properties (cmr_schema (change_metadata_request msg)))\<rparr>,
            schema_version := cmr_schema_version (change_metadata_request msg),
            new_table_name := cmr_new_table_name (change_metadata_request msg),
            pgschema_name := SchemaName schema\<rparr>,
         cdc_sdk_op_id = SetCDCSDKOpId (opid_term (msg_id msg)) (opid_index (msg_id msg)) 0 []\<rparr>)"

definition PopulateCDCSDKTruncateRecord :: "ReplicateMsg \<Rightarrow> Schema \<Rightarrow> Status + CDCSDKProtoRecordPB"
  where
  "PopulateCDCSDKTruncateRecord msg schema =
     (if \<not> has_truncate msg
      then Inl (STATUS InvalidArgument
                  (''Truncate message requires truncate request information: '' @
                   ShortDebugString msg))
      else Inr
        \<lparr>row_message = RowMessage_Clear\<lparr>op := Op_TRUNCATE, pgschema_name := SchemaName schema\<rparr>,
         cdc_sdk_op_id = SetCDCSDKOpId (opid_term (msg_id msg)) (opid_index (msg_id msg)) 0 []\<rparr>)"

text \<open>Lines 652 to 669: the loop over the columns of the schema, by column index.\<close>

fun snapshot_columns ::
  "Env \<Rightarrow> QLTableRow \<Rightarrow> Schema \<Rightarrow> nat list \<Rightarrow> RowMessage \<Rightarrow> Status + RowMessage" where
  "snapshot_columns env row schema [] rm = Inr rm"
| "snapshot_columns env row schema (col_idx # rest) rm =
     (let col_id = column_id schema col_idx; v = row col_id in
      VERIFY_RESULT (ext (column_by_id schema col_id)) (\<lambda>col_schema.
        let dm = DatumMessagePB_default\<lparr>column_name := col_name col_schema\<rparr> in
        VERIFY_RESULT
          (case v of
             Some (Some x) \<Rightarrow>
               if pg_type_oid col_schema \<noteq> 0
               then ext (SetValueFromQLBinaryWrapper env (Some x) (pg_type_oid col_schema) dm)
               else Inr (dm\<lparr>column_type := pg_type_oid col_schema\<rparr>)
           | _ \<Rightarrow> Inr (dm\<lparr>column_type := pg_type_oid col_schema\<rparr>))
          (\<lambda>dm'. snapshot_columns env row schema rest
                    (rm\<lparr>new_tuple := new_tuple rm @ [dm'],
                        old_tuple := old_tuple rm @ [DatumMessagePB_default]\<rparr>))))"

definition PopulateCDCSDKSnapshotRecord ::
  "Env \<Rightarrow> CDCSDKProtoRecordPB list \<Rightarrow> QLTableRow \<Rightarrow> Schema \<Rightarrow> HybridTime
     \<Rightarrow> Status + CDCSDKProtoRecordPB list" where
  "PopulateCDCSDKSnapshotRecord env records row schema time =
     VERIFY_RESULT (ext (shared_tablet_safe env)) (\<lambda>tablet.
       let rm = RowMessage_Clear\<lparr>table := table_name tablet, op := Op_READ,
                  pgschema_name := SchemaName schema, commit_time := time\<rparr>
       in VERIFY_RESULT (snapshot_columns env row schema [0 ..< num_columns schema] rm)
            (\<lambda>rm'. Inr (records @ [CDCSDKProtoRecordPB_Clear\<lparr>row_message := rm'\<rparr>])))"

text \<open>\<open>FillDDLInfo\<close> adds one DDL record per colocated table; it skips the tables for which the tablet cannot be had.\<close>

definition ddl_info_record :: "Env \<Rightarrow> Tablet \<Rightarrow> Schema \<Rightarrow> SchemaVersion \<Rightarrow> TableId \<Rightarrow> CDCSDKProtoRecordPB"
  where
  "ddl_info_record env tablet c_schema c_version tid =
     (let schema_pb = SchemaToPB env c_schema in
      CDCSDKProtoRecordPB_Clear\<lparr>row_message := RowMessage_Clear
        \<lparr>op := Op_DDL, table := table_name_of tablet tid,
         rm_schema := \<lparr>column_info = map SetColumnInfo (pb_columns schema_pb),
                       tab_info = SetTableProperties (pb_table_properties schema_pb)\<rparr>,
         schema_version := c_version,
         pgschema_name := pb_pgschema_name schema_pb\<rparr>\<rparr>)"

definition FillDDLInfo ::
  "Env \<Rightarrow> Schema \<Rightarrow> SchemaVersion \<Rightarrow> CDCSDKProtoRecordPB list \<Rightarrow> CDCSDKProtoRecordPB list" where
  "FillDDLInfo env c_schema c_version records =
     (case shared_tablet_safe env of
        Inl e \<Rightarrow> records
      | Inr tablet \<Rightarrow>
          records @ map (ddl_info_record env tablet c_schema c_version) (GetAllColocatedTables env))"

text \<open>The counter of children is a 32-bit \<^verbatim>\<open>uint\<close>.\<close>

definition VerifyTabletSplitOnParentTablet :: "Env \<Rightarrow> TableId \<Rightarrow> TabletId \<Rightarrow> bool" where
  "VerifyTabletSplitOnParentTablet env tid tablet_id =
     (case GetTablets env tid of
        Inl e \<Rightarrow> False
      | Inr tablets \<Rightarrow>
          length (filter (\<lambda>t. split_parent_tablet_id t = Some tablet_id) tablets) mod 2 ^ 32 = 2)"

text \<open>
  \<open>SetCheckpoint\<close> writes the checkpoint and, when the pointer \<open>last_streamed_op_id\<close> is not
  null, the OpId it points to. The pointer is an option here.
\<close>

definition SetCheckpoint ::
  "int \<Rightarrow> int \<Rightarrow> 32 word \<Rightarrow> string \<Rightarrow> nat \<Rightarrow> CDCSDKCheckpointPB \<Rightarrow> OpId option
     \<Rightarrow> CDCSDKCheckpointPB \<times> OpId option" where
  "SetCheckpoint term index wid key time cdc_sdk_checkpoint_pb last_streamed =
     (\<lparr>cp_term = term, cp_index = index, cp_write_id = wid, cp_key = key,
       cp_snapshot_time = time\<rparr>,
      case last_streamed of None \<Rightarrow> None
      | Some l \<Rightarrow> Some \<lparr>opid_term = term, opid_index = index\<rparr>)"

subsection \<open>GetChangesForCDCSDK\<close>

text \<open>
  The locals of \<open>GetChangesForCDCSDK\<close> and what its in-out parameters point to.
  \<open>v_current_schema\<close>, \<open>v_pending_intents\<close> and \<open>v_schema_streamed\<close> are declared inside the
  body of the \<^verbatim>\<open>do\<close> loop, so they start afresh with every batch of messages.
\<close>

record Locals =
  v_records :: "CDCSDKProtoRecordPB list"
  v_checkpoint :: CDCSDKCheckpointPB
  v_checkpoint_updated :: bool
  v_split_op_id :: OpId
  v_snapshot_operation :: bool
  v_op_id :: OpId
  v_last_seen_op_id :: OpId
  v_last_seen_default_message_op_id :: OpId
  v_current_schema :: Schema
  v_pending_intents :: bool
  v_schema_streamed :: bool
  v_cached_schema :: Schema
  v_cached_schema_version :: SchemaVersion
  v_last_streamed_op_id :: OpId
  v_commit_timestamp :: string
  v_last_readable_opid_index :: "int option"
  v_effects :: "Effect list"

text \<open>\<open>SetCheckpoint\<close> called with the pointer \<open>last_streamed_op_id\<close> of the caller.\<close>

definition SetCheckpoint_streamed :: "OpId \<Rightarrow> Locals \<Rightarrow> Locals" where
  "SetCheckpoint_streamed oid st =
     (case SetCheckpoint (opid_term oid) (opid_index oid) 0 [] 0 (v_checkpoint st)
             (Some (v_last_streamed_op_id st)) of
        (cp, ls) \<Rightarrow>
          st\<lparr>v_checkpoint := cp,
             v_last_streamed_op_id := (case ls of None \<Rightarrow> v_last_streamed_op_id st | Some l \<Rightarrow> l)\<rparr>)"

text \<open>Lines 840 to 845: the scan of the snapshot, at most \<open>limit\<close> rows.\<close>

function snapshot_rows ::
  "Env \<Rightarrow> Schema \<Rightarrow> HybridTime \<Rightarrow> int \<Rightarrow> int \<Rightarrow> SnapshotIterator \<Rightarrow> QLTableRow
     \<Rightarrow> CDCSDKProtoRecordPB list \<Rightarrow> Status + (CDCSDKProtoRecordPB list \<times> SnapshotIterator)" where
  "snapshot_rows env schema time limit fetched iter row records =
     (case HasNext env iter of
        Inl e \<Rightarrow> Inl (Propagated e)
      | Inr h \<Rightarrow>
          if h \<and> fetched < limit then
            (case NextRow env iter row of
               Inl e \<Rightarrow> Inl (Propagated e)
             | Inr (row', iter') \<Rightarrow>
                 (case PopulateCDCSDKSnapshotRecord env records row' schema time of
                    Inl e \<Rightarrow> Inl e
                  | Inr records' \<Rightarrow>
                      snapshot_rows env schema time limit (fetched + 1) iter' row' records'))
          else Inr (records, iter))"
  by pat_completeness auto
termination
  by (relation "measure (\<lambda>(env, schema, time, limit, fetched, iter, row, records).
        nat (limit - fetched))") auto

text \<open>Lines 761 to 796: the first call of a snapshot.\<close>

definition snapshot_first_call :: "Env \<Rightarrow> Tablet \<Rightarrow> Locals \<Rightarrow> Status + Locals" where
  "snapshot_first_call env tablet_ptr st =
     (if (case transaction_participant tablet_ptr of None \<Rightarrow> True | Some p \<Rightarrow> \<not> has_context p)
      then Inl (STATUS Corruption
                  ''Cannot read data as the transaction participant context is null'')
      else
        VERIFY_RESULT (ext (GetLastReplicatedData env 0)) (\<lambda>data.
          let st1 = st\<lparr>v_effects := v_effects st @
                        [UpdateCDCConsumerOpId (rid_op_id data),
                         SetIntentRetainOpIdAndTime (rid_op_id data)
                           (cdc_intent_retention_ms (FLAGS env))]\<rparr>
          in VERIFY_RESULT (ext (GetLastReplicatedData env 1)) (\<lambda>data2.
               Inr (st1\<lparr>v_checkpoint :=
                          fst (SetCheckpoint (opid_term (rid_op_id data2))
                                 (opid_index (rid_op_id data2)) (- 1) [] (rid_log_ht data2)
                                 (v_checkpoint st1) None),
                        v_checkpoint_updated := True\<rparr>))))"

text \<open>Lines 797 to 866: a later call of a snapshot.\<close>

definition snapshot_next_call ::
  "Env \<Rightarrow> TabletId \<Rightarrow> Tablet \<Rightarrow> CDCSDKCheckpointPB \<Rightarrow> Locals \<Rightarrow> Status + Locals" where
  "snapshot_next_call env tablet_id tablet_ptr from_op_id st =
     (let time = cp_snapshot_time from_op_id; nextKey = cp_key from_op_id in
      if TEST_cdc_snapshot_failure (FLAGS env)
      then Inl (STATUS ServiceUnavailable
                  (''CDC snapshot is failed for tablet: '' @ tablet_id @ '' ''))
      else
        (let (schema, version, st1) =
               (if \<not> initialized (v_cached_schema st) then
                  (case GetTableSchemaFromSysCatalog env (table_id tablet_ptr) (2 ^ 64 - 1) of
                     Inl e \<Rightarrow> (schema_of_tablet tablet_ptr, metadata_schema_version tablet_ptr, st)
                   | Inr result \<Rightarrow>
                       (fst result, snd result,
                        st\<lparr>v_cached_schema := fst result, v_cached_schema_version := snd result\<rparr>))
                else (v_cached_schema st, v_cached_schema_version st, st));
             records1 = FillDDLInfo env schema version (v_records st1)
         in VERIFY_RESULT
              (ext (CreateCDCSnapshotIterator env (CopyWithoutColumnIds env schema) time nextKey))
              (\<lambda>iter.
            VERIFY_RESULT
              (snapshot_rows env schema time (cdc_snapshot_batch_size (FLAGS env)) 0 iter
                 (QLTableRow_default env) records1) (\<lambda>(records2, iter2).
            VERIFY_RESULT (ext (GetNextReadSubDocKey env iter2)) (\<lambda>sub_doc_key.
              if DocKey_empty env (doc_key sub_doc_key) then
                Inr (st1\<lparr>v_records := records2,
                         v_checkpoint :=
                           fst (SetCheckpoint (cp_term from_op_id) (cp_index from_op_id) 0 [] 0
                                  (v_checkpoint st1) None),
                         v_checkpoint_updated := True\<rparr>)
              else
                Inr (st1\<lparr>v_records := records2,
                         v_checkpoint :=
                           fst (SetCheckpoint (cp_term from_op_id) (cp_index from_op_id) (- 1)
                                  (SubDocKey_Encode env sub_doc_key) time
                                  ((v_checkpoint st1)\<lparr>cp_write_id := - 1\<rparr>) None),
                         v_checkpoint_updated := True\<rparr>))))))"

text \<open>Lines 867 to 887: the rest of a transaction that an earlier call left unfinished.\<close>

definition resume_transaction ::
  "Env \<Rightarrow> CDCSDKCheckpointPB \<Rightarrow> Locals \<Rightarrow> Status + Locals" where
  "resume_transaction env from_op_id st =
     (let stream_state = \<lparr>ats_key = cp_key from_op_id, ats_write_id = cp_write_id from_op_id\<rparr> in
      VERIFY_RESULT (ext (consume_byte_kTransactionId env (cp_key from_op_id))) (\<lambda>slice.
      VERIFY_RESULT (ext (DecodeTransactionId env slice)) (\<lambda>txn.
      VERIFY_RESULT
        (ProcessIntents env (v_op_id st) txn (v_records st) (v_checkpoint st) stream_state
           (v_cached_schema st) (v_cached_schema_version st)) (\<lambda>out.
        let st1 = st\<lparr>v_records := pi_records out, v_checkpoint := pi_checkpoint out,
                     v_cached_schema := pi_cached_schema out,
                     v_cached_schema_version := pi_cached_schema_version out\<rparr>;
            st2 = (if cp_write_id (v_checkpoint st1) = 0 \<and> cp_key (v_checkpoint st1) = []
                   then st1\<lparr>v_last_streamed_op_id :=
                               \<lparr>opid_term = cp_term (v_checkpoint st1),
                                opid_index = cp_index (v_checkpoint st1)\<rparr>\<rparr>
                   else st1)
        in Inr (st2\<lparr>v_checkpoint_updated := True\<rparr>)))))"

text \<open>
  Lines 926 to 950: the schema for a message. When the cached schema is not initialised,
  the schema is asked of the catalog once per batch, moved into the cache, and announced
  by \<open>FillDDLInfo\<close>, which reads \<open>current_schema\<close> after it was moved from.
\<close>

definition message_schema :: "Env \<Rightarrow> Tablet \<Rightarrow> ReplicateMsg \<Rightarrow> Locals \<Rightarrow> Locals" where
  "message_schema env tablet_ptr msg st =
     (if \<not> v_schema_streamed st \<and> \<not> initialized (v_cached_schema st) then
        (let (cur, ver) =
               (case GetTableSchemaFromSysCatalog env (table_id tablet_ptr) (hybrid_time msg) of
                  Inl e \<Rightarrow> (schema_of_tablet tablet_ptr, metadata_schema_version tablet_ptr)
                | Inr result \<Rightarrow> (fst result, snd result))
         in st\<lparr>v_cached_schema_version := ver, v_schema_streamed := True,
               v_cached_schema := cur, v_current_schema := Schema_moved_from env cur,
               v_records := FillDDLInfo env (Schema_moved_from env cur) ver (v_records st)\<rparr>)
      else st\<lparr>v_current_schema := v_cached_schema st\<rparr>)"

text \<open>
  Lines 953 to 981: \<^verbatim>\<open>case UPDATE_TRANSACTION_OP\<close>. \<open>commit_timestamp\<close> points to a
  \<^verbatim>\<open>std::string\<close>; assigning the 64-bit commit hybrid time to it converts the
  number to one \<^verbatim>\<open>char\<close>, so the string becomes the single character of the time's
  lowest byte (line 963).
\<close>

definition update_transaction_op :: "Env \<Rightarrow> ReplicateMsg \<Rightarrow> Locals \<Rightarrow> Status + Locals" where
  "update_transaction_op env msg st =
     VERIFY_RESULT
       (if ts_status (transaction_state msg) = APPLYING then
          VERIFY_RESULT
            (ext (FullyDecodeTransactionId env (ts_transaction_id (transaction_state msg))))
            (\<lambda>txn_id.
             let st1 = st\<lparr>v_commit_timestamp :=
                            [char_of (ts_commit_hybrid_time (transaction_state msg))],
                          v_op_id := msg_id msg\<rparr>
             in VERIFY_RESULT
                  (ProcessIntents env (v_op_id st1) txn_id (v_records st1) (v_checkpoint st1)
                     \<lparr>ats_key = [], ats_write_id = 0\<rparr> (v_cached_schema st1)
                     (v_cached_schema_version st1)) (\<lambda>out.
                  let st2 = st1\<lparr>v_records := pi_records out, v_checkpoint := pi_checkpoint out,
                               v_cached_schema := pi_cached_schema out,
                               v_cached_schema_version := pi_cached_schema_version out\<rparr>
                  in if ats_write_id (pi_stream_state out) \<noteq> 0 \<and>
                        ats_key (pi_stream_state out) \<noteq> []
                     then Inr (st2\<lparr>v_pending_intents := True\<rparr>)
                     else Inr (st2\<lparr>v_last_streamed_op_id := msg_id msg\<rparr>)))
        else Inr st)
       (\<lambda>st3. Inr (st3\<lparr>v_checkpoint_updated := True\<rparr>))"

text \<open>Lines 983 to 995: \<^verbatim>\<open>case WRITE_OP\<close>.\<close>

definition write_op :: "Env \<Rightarrow> ReplicateMsg \<Rightarrow> Locals \<Rightarrow> Status + Locals" where
  "write_op env msg st =
     (if \<not> has_transaction (write_batch msg) then
        VERIFY_RESULT (PopulateCDCSDKWriteRecord env msg (v_records st) (v_current_schema st))
          (\<lambda>records.
             Inr ((SetCheckpoint_streamed (msg_id msg) (st\<lparr>v_records := records\<rparr>))
                    \<lparr>v_checkpoint_updated := True\<rparr>))
      else Inr st)"

text \<open>Lines 997 to 1036: \<^verbatim>\<open>case CHANGE_METADATA_OP\<close>.\<close>

definition resolve_metadata_schema :: "Env \<Rightarrow> Tablet \<Rightarrow> ReplicateMsg \<Rightarrow> Locals \<Rightarrow> Status + Locals"
  where
  "resolve_metadata_schema env tablet_ptr msg st =
     VERIFY_RESULT (ext (SchemaFromPB env (cmr_schema (change_metadata_request msg)))) (\<lambda>cur.
       let st1 = st\<lparr>v_cached_schema := cur, v_current_schema := Schema_moved_from env cur,
                    v_cached_schema_version := cmr_schema_version (change_metadata_request msg)\<rparr>
       in case GetTableSchemaFromSysCatalog env (table_id tablet_ptr) (hybrid_time msg) of
            Inl e \<Rightarrow> Inr st1
          | Inr result \<Rightarrow>
              if v_cached_schema_version st1 \<noteq> snd result
              then Inr (st1\<lparr>v_current_schema := fst result, v_cached_schema := fst result,
                            v_cached_schema_version := snd result\<rparr>)
              else Inr st1)"

definition change_metadata_op :: "Env \<Rightarrow> Tablet \<Rightarrow> ReplicateMsg \<Rightarrow> Locals \<Rightarrow> Status + Locals"
  where
  "change_metadata_op env tablet_ptr msg st =
     VERIFY_RESULT (resolve_metadata_schema env tablet_ptr msg st) (\<lambda>st1.
     VERIFY_RESULT
       (if length (v_records st1) > 0 \<and> op (row_message (last (v_records st1))) = Op_DDL then
          (if schema_version (row_message (last (v_records st1))) \<noteq> v_cached_schema_version st1
           then VERIFY_RESULT
                  (PopulateCDCSDKDDLRecord msg (table_name tablet_ptr) (v_current_schema st1))
                  (\<lambda>r. Inr (st1\<lparr>v_records := v_records st1 @ [r]\<rparr>))
           else Inr st1)
        else VERIFY_RESULT
               (PopulateCDCSDKDDLRecord msg (table_name tablet_ptr) (v_current_schema st1))
               (\<lambda>r. Inr (st1\<lparr>v_records := v_records st1 @ [r]\<rparr>)))
       (\<lambda>st2. Inr ((SetCheckpoint_streamed (msg_id msg) st2)\<lparr>v_checkpoint_updated := True\<rparr>)))"

text \<open>Lines 1038 to 1047: \<^verbatim>\<open>case TRUNCATE_OP\<close>.\<close>

definition truncate_op :: "Env \<Rightarrow> ReplicateMsg \<Rightarrow> Locals \<Rightarrow> Status + Locals" where
  "truncate_op env msg st =
     (if stream_truncate_record (FLAGS env) then
        VERIFY_RESULT (PopulateCDCSDKTruncateRecord msg (v_current_schema st)) (\<lambda>r.
          Inr ((SetCheckpoint_streamed (msg_id msg) (st\<lparr>v_records := v_records st @ [r]\<rparr>))
                 \<lparr>v_checkpoint_updated := True\<rparr>))
      else Inr st)"

text \<open>Lines 1049 to 1089: \<^verbatim>\<open>case SPLIT_OP\<close>.\<close>

definition split_op :: "Env \<Rightarrow> TabletId \<Rightarrow> Tablet \<Rightarrow> ReplicateMsg \<Rightarrow> Locals \<Rightarrow> Locals" where
  "split_op env tablet_id tablet_ptr msg st =
     (if \<not> VerifyTabletSplitOnParentTablet env (table_id tablet_ptr) tablet_id then st
      else if v_checkpoint_updated st then st
      else (SetCheckpoint_streamed (msg_id msg) st)
             \<lparr>v_checkpoint_updated := True, v_split_op_id := msg_id msg\<rparr>)"

text \<open>One message of the batch (lines 923 to 1098), up to the test of \<open>pending_intents\<close>.\<close>

definition wal_message ::
  "Env \<Rightarrow> TabletId \<Rightarrow> Tablet \<Rightarrow> Locals \<Rightarrow> ReplicateMsg \<Rightarrow> Status + Locals" where
  "wal_message env tablet_id tablet_ptr st msg =
     (let st1 = message_schema env tablet_ptr msg (st\<lparr>v_last_seen_op_id := msg_id msg\<rparr>) in
      case op_type msg of
        UPDATE_TRANSACTION_OP \<Rightarrow> update_transaction_op env msg st1
      | WRITE_OP \<Rightarrow> write_op env msg st1
      | CHANGE_METADATA_OP \<Rightarrow> change_metadata_op env tablet_ptr msg st1
      | TRUNCATE_OP \<Rightarrow> truncate_op env msg st1
      | SPLIT_OP \<Rightarrow> Inr (split_op env tablet_id tablet_ptr msg st1)
      | _ \<Rightarrow> Inr (st1\<lparr>v_last_seen_default_message_op_id := msg_id msg\<rparr>))"

text \<open>The loop over the messages of a batch; it breaks when \<open>pending_intents\<close> is set.\<close>

fun wal_messages ::
  "Env \<Rightarrow> TabletId \<Rightarrow> Tablet \<Rightarrow> Locals \<Rightarrow> ReplicateMsg list \<Rightarrow> Status + Locals" where
  "wal_messages env tablet_id tablet_ptr st [] = Inr st"
| "wal_messages env tablet_id tablet_ptr st (msg # rest) =
     VERIFY_RESULT (wal_message env tablet_id tablet_ptr st msg)
       (\<lambda>st'. if v_pending_intents st' then Inr st'
             else wal_messages env tablet_id tablet_ptr st' rest)"

text \<open>
  The body of the \<^verbatim>\<open>do\<close> loop after the read (lines 903 to 1112). The second component
  tells whether the body left the loop by \<^verbatim>\<open>break\<close>, on an empty batch.
\<close>

definition wal_batch ::
  "Env \<Rightarrow> TabletId \<Rightarrow> Tablet \<Rightarrow> Locals \<Rightarrow> ReplicateMsg list \<Rightarrow> Status + (Locals \<times> bool)" where
  "wal_batch env tablet_id tablet_ptr st msgs =
     VERIFY_RESULT
       (case transaction_participant tablet_ptr of None \<Rightarrow> Inr ()
        | Some p \<Rightarrow> ext (RequestScope_Create env)) (\<lambda>u.
       let st1 = st\<lparr>v_current_schema := Schema_default env, v_pending_intents := False,
                    v_schema_streamed := False\<rparr>
       in if msgs = [] then Inr (st1, True)
          else VERIFY_RESULT (wal_messages env tablet_id tablet_ptr st1 msgs)
                 (\<lambda>st2. Inr (st2, False)))"

text \<open>
  The \<^verbatim>\<open>do\<close> loop (lines 899 to 1115). It reads batches until one updates the checkpoint,
  comes empty, or the last readable index is reached; nothing in the file bounds the
  number of rounds, so the loop is a partial function: \<open>None\<close> is a loop that never ends.
\<close>

partial_function (option) wal_loop ::
  "Env \<Rightarrow> TabletId \<Rightarrow> Tablet \<Rightarrow> Locals \<Rightarrow> (Status + Locals) option" where
  "wal_loop env tablet_id tablet_ptr st =
     (case ReadReplicatedMessagesForCDC env (v_last_seen_op_id st) (v_last_readable_opid_index st) of
        Inl e \<Rightarrow> Some (Inl (Propagated e))
      | Inr (msgs, readable) \<Rightarrow>
          (case wal_batch env tablet_id tablet_ptr
                  (st\<lparr>v_last_readable_opid_index :=
                        (case v_last_readable_opid_index st of None \<Rightarrow> None
                         | Some r \<Rightarrow> Some readable)\<rparr>) msgs of
             Inl e \<Rightarrow> Some (Inl e)
           | Inr (st', stop) \<Rightarrow>
               if \<not> stop \<and> \<not> v_checkpoint_updated st' \<and>
                  (case v_last_readable_opid_index st' of None \<Rightarrow> False
                   | Some r \<Rightarrow> opid_index (v_last_seen_op_id st') < r)
               then wal_loop env tablet_id tablet_ptr st'
               else Some (Inr st')))"

text \<open>Lines 1117 to 1128: no message updated the checkpoint, but a non-actionable one was seen.\<close>

definition default_message_checkpoint :: "Env \<Rightarrow> Locals \<Rightarrow> Locals" where
  "default_message_checkpoint env st =
     (if \<not> v_checkpoint_updated st \<and> v_last_seen_default_message_op_id st \<noteq> OpId_Invalid env
      then (SetCheckpoint_streamed (v_last_seen_default_message_op_id st) st)
             \<lparr>v_checkpoint_updated := True\<rparr>
      else st)"

text \<open>
  What a call leaves behind when it reaches line 1131: the status it returns (\<open>None\<close> is
  \<^verbatim>\<open>Status::OK()\<close>), the response, and the values of its in-out parameters.
\<close>

record GetChangesOut =
  g_status :: "Status option"
  g_records :: "CDCSDKProtoRecordPB list"
  g_cdc_sdk_checkpoint :: CDCSDKCheckpointPB
  g_checkpoint_op_id :: "OpId option"
  g_last_streamed_op_id :: OpId
  g_cached_schema :: Schema
  g_cached_schema_version :: SchemaVersion
  g_commit_timestamp :: string
  g_last_readable_opid_index :: "int option"
  g_effects :: "Effect list"

text \<open>Lines 1131 to 1163.\<close>

definition finish :: "TabletId \<Rightarrow> CDCSDKCheckpointPB \<Rightarrow> OpId option \<Rightarrow> Locals \<Rightarrow> GetChangesOut" where
  "finish tablet_id from_op_id resp_checkpoint st =
     (let report_tablet_split =
            (\<not> v_snapshot_operation st \<and> opid_term (v_split_op_id st) = cp_term (v_checkpoint st) \<and>
             opid_index (v_split_op_id st) = cp_index (v_checkpoint st))
      in \<lparr>g_status =
             (if report_tablet_split
              then Some (STATUS TabletSplit
                     (''Tablet Split on tablet: '' @ tablet_id @ '', no more records to stream''))
              else None),
           g_records = v_records st,
           g_cdc_sdk_checkpoint = (if v_checkpoint_updated st then v_checkpoint st else from_op_id),
           g_checkpoint_op_id =
             (if opid_index (v_last_streamed_op_id st) > 0 then Some (v_last_streamed_op_id st)
              else resp_checkpoint),
           g_last_streamed_op_id = v_last_streamed_op_id st,
           g_cached_schema = v_cached_schema st,
           g_cached_schema_version = v_cached_schema_version st,
           g_commit_timestamp = v_commit_timestamp st,
           g_last_readable_opid_index = v_last_readable_opid_index st,
           g_effects = v_effects st\<rparr>)"

text \<open>
  What the caller passes: the cursor \<open>from_op_id\<close>, the response (its records and its
  \<open>checkpoint.op_id\<close>, if set) and what the in-out parameters point to.
\<close>

record GetChangesIn =
  i_tablet_id :: TabletId
  i_from_op_id :: CDCSDKCheckpointPB
  i_records :: "CDCSDKProtoRecordPB list"
  i_resp_checkpoint :: "OpId option"
  i_commit_timestamp :: string
  i_cached_schema :: Schema
  i_cached_schema_version :: SchemaVersion
  i_last_streamed_op_id :: OpId
  i_last_readable_opid_index :: "int option"

definition Locals_init :: "Env \<Rightarrow> GetChangesIn \<Rightarrow> Locals" where
  "Locals_init env a =
     (let op_id = \<lparr>opid_term = cp_term (i_from_op_id a), opid_index = cp_index (i_from_op_id a)\<rparr>
      in \<lparr>v_records = i_records a, v_checkpoint = CDCSDKCheckpointPB_default,
           v_checkpoint_updated = False, v_split_op_id = OpId_Invalid env,
           v_snapshot_operation = False, v_op_id = op_id, v_last_seen_op_id = op_id,
           v_last_seen_default_message_op_id = OpId_Invalid env,
           v_current_schema = Schema_default env, v_pending_intents = False,
           v_schema_streamed = False, v_cached_schema = i_cached_schema a,
           v_cached_schema_version = i_cached_schema_version a,
           v_last_streamed_op_id = i_last_streamed_op_id a,
           v_commit_timestamp = i_commit_timestamp a,
           v_last_readable_opid_index = i_last_readable_opid_index a, v_effects = []\<rparr>)"

text \<open>
  \<open>GetChangesForCDCSDK\<close>. \<open>None\<close>: the call does not return. \<open>Some (Inl e)\<close>: it returns
  the status \<open>e\<close> before line 1131. \<open>Some (Inr out)\<close>: it reaches line 1131 and returns
  \<open>g_status out\<close>, having written \<open>out\<close>.
\<close>

definition GetChangesForCDCSDK :: "Env \<Rightarrow> GetChangesIn \<Rightarrow> (Status + GetChangesOut) option" where
  "GetChangesForCDCSDK env a =
     (case shared_tablet_safe env of
        Inl e \<Rightarrow> Some (Inl (Propagated e))
      | Inr tablet_ptr \<Rightarrow>
          (let st = Locals_init env a; from_op_id = i_from_op_id a;
               done = (\<lambda>r. case r of Inl e \<Rightarrow> Inl e
                            | Inr st' \<Rightarrow> Inr (finish (i_tablet_id a) from_op_id
                                                 (i_resp_checkpoint a) st'))
           in if cp_write_id from_op_id = - 1 then
                (if cp_key from_op_id = [] \<and> cp_snapshot_time from_op_id = 0
                 then Some (done (snapshot_first_call env tablet_ptr
                                    (st\<lparr>v_snapshot_operation := True\<rparr>)))
                 else Some (done (snapshot_next_call env (i_tablet_id a) tablet_ptr from_op_id
                                    (st\<lparr>v_snapshot_operation := True\<rparr>))))
              else if cp_key from_op_id \<noteq> [] \<and> cp_write_id from_op_id \<noteq> 0 then
                Some (done (resume_transaction env from_op_id st))
              else
                (case wal_loop env (i_tablet_id a) tablet_ptr st of
                   None \<Rightarrow> None
                 | Some r \<Rightarrow>
                     Some (done (case r of Inl e \<Rightarrow> Inl e
                                 | Inr st' \<Rightarrow> Inr (default_message_checkpoint env st'))))))"

subsection \<open>A small tablet to run the functions on\<close>

text \<open>
  The examples below run the functions on a table with one key column and two value
  columns. Its keys are written as strings: the first character is the encoded document
  key of the row, and what follows it names the column (\<open>L\<close> the liveness system column,
  \<open>0\<close> the key column, \<open>1\<close> and \<open>2\<close> the value columns). The value \<open>X\<close> is a tombstone
  and \<open>N\<close> is null-low.
\<close>

definition ex_schema :: Schema where
  "ex_schema =
     \<lparr>initialized = True, SchemaName = ''public'', num_columns = 3, num_key_columns = 1,
      column = (\<lambda>i. \<lparr>col_name = ''c'', col_type = 0, pg_type_oid = 0\<rparr>),
      column_id = (\<lambda>i. int i),
      column_by_id = (\<lambda>c. Inr \<lparr>col_name = ''c'', col_type = 0, pg_type_oid = 0\<rparr>),
      is_key_column = (\<lambda>c. c = 0)\<rparr>"

definition ex_tablet :: Tablet where
  "ex_tablet =
     \<lparr>table_type = PGSQL_TABLE_TYPE, table_name = ''t'', table_id = ''tid'',
      schema_of_tablet = ex_schema, metadata_schema_version = 1,
      transaction_participant = Some \<lparr>has_context = True\<rparr>,
      table_name_of = (\<lambda>t. ''t'')\<rparr>"

definition ex_key_entry :: "string \<Rightarrow> KeyEntryValue" where
  "ex_key_entry s =
     \<lparr>ke_type = (if s = ''L'' then kSystemColumnId else kColumnId),
      GetColumnId = (if s = ''0'' then 0 else if s = ''1'' then 1 else 2), ke_bytes = s\<rparr>"

definition ex_sub_doc_key :: "string \<Rightarrow> SubDocKey" where
  "ex_sub_doc_key k =
     \<lparr>doc_key = \<lparr>hashed_group = [ex_key_entry (take 1 k)], range_group = []\<rparr>,
      subkeys = (if length k > 1 then [ex_key_entry (drop 1 k)] else [])\<rparr>"

definition ex_value :: "string \<Rightarrow> Value" where
  "ex_value v =
     \<lparr>value_type = (if v = ''X'' then kTombstone else if v = ''N'' then kNullLow
                     else kOtherValueEntryType),
      primitive_value = ex_key_entry v\<rparr>"

definition ex_flags :: "bool \<Rightarrow> Flags" where
  "ex_flags single =
     \<lparr>cdc_snapshot_batch_size = 250, stream_truncate_record = False,
      enable_single_record_update = single, TEST_cdc_snapshot_failure = False,
      cdc_intent_retention_ms = 1000\<rparr>"

definition ex_intent :: "string \<Rightarrow> string \<Rightarrow> nat \<Rightarrow> HybridTime \<Rightarrow> IntentKeyValueForCDC" where
  "ex_intent k v w t =
     \<lparr>key_buf = k, value_buf = v, reverse_index_key = ''r'' @ k, write_id = of_nat w,
      intent_ht = t\<rparr>"

text \<open>
  \<open>ex_env single intents stream_state\<close> is the tablet with the flag
  \<open>enable_single_record_update\<close> set to \<open>single\<close>, whose intent store answers every fetch
  with \<open>intents\<close> and leaves the stream state at \<open>stream_state\<close>. Its retention checkpoint
  is the OpId (1, 5).
\<close>

definition ex_env :: "bool \<Rightarrow> IntentKeyValueForCDC list \<Rightarrow> ApplyTransactionState \<Rightarrow> Env" where
  "ex_env single intents stream_state =
     \<lparr>FLAGS = ex_flags single,
      shared_tablet_safe = Inr ex_tablet,
      ToQLValuePB = (\<lambda>v t. Some (ke_bytes v)),
      SetValueFromQLBinaryWrapper = (\<lambda>v oid d. Inr (d\<lparr>column_type := oid, datum := v\<rparr>)),
      EncodedSize = (\<lambda>k. Inr 1),
      DecodeKey = (\<lambda>k. Inr (ex_key_entry k)),
      DecodeFrom = (\<lambda>k. Inr (ex_sub_doc_key k)),
      Decode = (\<lambda>v. Inr (ex_value v)),
      GetPhysicalValueMicros = (\<lambda>t. t div 4096),
      FullyDecodeFrom = (\<lambda>k. Inr (ex_sub_doc_key k)),
      ValueControlFields_Decode = (\<lambda>v. Inr v),
      DecodeValueEntryType = (\<lambda>v. value_type (ex_value v)),
      GetIntents = (\<lambda>txn st. Inr (intents, stream_state)),
      GetLatestCheckPoint = \<lparr>opid_term = 1, opid_index = 5\<rparr>,
      GetTableSchemaFromSysCatalog = (\<lambda>t h. Inr (ex_schema, 1)),
      GetAllColocatedTables = [],
      SchemaToPB = (\<lambda>s. \<lparr>pb_columns = [],
        pb_table_properties =
          \<lparr>default_time_to_live = 0, num_tablets = 1, is_ysql_catalog_table = False\<rparr>,
        pb_pgschema_name = SchemaName s\<rparr>),
      SchemaFromPB = (\<lambda>pb. Inr ex_schema),
      Schema_default = ex_schema\<lparr>initialized := False\<rparr>,
      Schema_moved_from = (\<lambda>s. s),
      CopyWithoutColumnIds = (\<lambda>s. s),
      OpId_Invalid = \<lparr>opid_term = - 1, opid_index = - 1\<rparr>,
      GetLastReplicatedData = (\<lambda>n. Inr \<lparr>rid_op_id = \<lparr>opid_term = 1, opid_index = 9\<rparr>,
                                            rid_log_ht = 5000\<rparr>),
      CreateCDCSnapshotIterator = (\<lambda>s t k. Inr 0),
      HasNext = (\<lambda>it. Inr False),
      NextRow = (\<lambda>it row. Inr (row, Suc it)),
      GetNextReadSubDocKey =
        (\<lambda>it. Inr \<lparr>doc_key = \<lparr>hashed_group = [], range_group = []\<rparr>, subkeys = []\<rparr>),
      DocKey_empty = (\<lambda>k. hashed_group k = [] \<and> range_group k = []),
      SubDocKey_Encode = (\<lambda>k. concat (map ke_bytes (hashed_group (doc_key k)))),
      QLTableRow_default = (\<lambda>c. None),
      consume_byte_kTransactionId = (\<lambda>k. Inr (drop 1 k)),
      DecodeTransactionId = (\<lambda>k. Inr ''tx''),
      FullyDecodeTransactionId = (\<lambda>k. Inr k),
      ReadReplicatedMessagesForCDC = (\<lambda>last_seen upto. Inr ([], 0)),
      RequestScope_Create = Inr (),
      GetTablets = (\<lambda>t. Inr [])\<rparr>"

subsection \<open>Predicates used to state the properties\<close>

text \<open>Every intent of the list decodes and is an intent of a key column (lines 226 to 231).\<close>

definition all_key_column_intents :: "Env \<Rightarrow> Schema \<Rightarrow> IntentKeyValueForCDC list \<Rightarrow> bool" where
  "all_key_column_intents env schema ks =
     list_all (\<lambda>k. case decode_intent env k of Inl e \<Rightarrow> False
                   | Inr d \<Rightarrow> is_key_column_intent schema d) ks"

text \<open>The record as \<open>MakeNewProtoRecord\<close> stamps it with the OpId and the intent's write id and key.\<close>

definition stamped :: "OpId \<Rightarrow> IntentKeyValueForCDC \<Rightarrow> CDCSDKProtoRecordPB \<Rightarrow> CDCSDKProtoRecordPB" where
  "stamped op_id intent pr =
     pr\<lparr>cdc_sdk_op_id := SetCDCSDKOpId (opid_term op_id) (opid_index op_id) (write_id intent)
                            (reverse_index_key intent)\<rparr>"

text \<open>A status that was handed up from a callee or ended the process, not one created in the file.\<close>
fun propagated :: "Status \<Rightarrow> bool" where
  "propagated (STATUS c m) = False"
| "propagated (Propagated e) = True"
| "propagated (Aborted m) = True"

text \<open>A record of a row change: an INSERT, an UPDATE or a DELETE.\<close>
definition is_row_record :: "CDCSDKProtoRecordPB \<Rightarrow> bool" where
  "is_row_record r =
     (op (row_message r) = Op_INSERT \<or> op (row_message r) = Op_UPDATE \<or>
      op (row_message r) = Op_DELETE)"

text \<open>The write-id key and write id stamped on the last record of a list; the empty key and 0 when the list is empty.\<close>
definition last_stamp :: "CDCSDKProtoRecordPB list \<Rightarrow> string \<times> IntraTxnWriteId" where
  "last_stamp rs =
     (if rs = [] then ([], 0)
      else (write_id_key (cdc_sdk_op_id (last rs)), rec_write_id (cdc_sdk_op_id (last rs))))"

text \<open>No intent of the list decodes to an intent of a key column.\<close>
definition no_key_column_intents :: "Env \<Rightarrow> Schema \<Rightarrow> IntentKeyValueForCDC list \<Rightarrow> bool" where
  "no_key_column_intents env schema intents =
     list_all (\<lambda>k. case decode_intent env k of Inl e \<Rightarrow> True
                   | Inr d \<Rightarrow> \<not> is_key_column_intent schema d) intents"

text \<open>The stream state of a transaction that is not under way: empty key and write id 0.\<close>
definition fresh :: "ApplyTransactionState \<Rightarrow> bool" where
  "fresh s = (ats_key s = [] \<and> ats_write_id s = 0)"

text \<open>The operation that lines 266 to 286 give to the record opened for an intent.\<close>
definition opened_op :: "DecodedIntent \<Rightarrow> Op" where
  "opened_op d =
     (if is_root_tombstone d then Op_DELETE
      else if (case d_column_id_opt d of None \<Rightarrow> False
               | Some c \<Rightarrow> ke_type c = kSystemColumnId) \<and>
              value_type (d_decoded_value d) = kNullLow then Op_INSERT
      else Op_UPDATE)"

text \<open>
  The row message of a record that lines 262 to 289 have just opened for an intent: cleared,
  then given its operation, the name of the schema and the transaction id. The primary key
  is not yet added.
\<close>
definition opened_row :: "TransactionId \<Rightarrow> Schema \<Rightarrow> DecodedIntent \<Rightarrow> RowMessage" where
  "opened_row txn schema d =
     RowMessage_Clear\<lparr>op := opened_op d, pgschema_name := SchemaName schema,
                      transaction_id := txn\<rparr>"

text \<open>The column count that lines 252 to 285 leave when a record is opened for an intent.\<close>
definition opened_col_count :: "Env \<Rightarrow> Schema \<Rightarrow> DecodedIntent \<Rightarrow> nat" where
  "opened_col_count env schema d =
     (if opened_op d = Op_INSERT then size_t_dec (num_key_columns schema)
      else if enable_single_record_update (FLAGS env) then 0 else num_columns schema)"

text \<open>
  What lines 305 to 314 add to the new tuple for an intent: the datum of its column, or
  nothing when the intent is not an intent of a column.
\<close>
definition column_datums ::
  "Env \<Rightarrow> Schema \<Rightarrow> IntentKeyValueForCDC \<Rightarrow> DecodedIntent \<Rightarrow> Status + DatumMessagePB list" where
  "column_datums env schema intent d =
     VERIFY_RESULT (ext (Decode env (value_buf intent))) (\<lambda>decoded_value.
       case d_column_id_opt d of
         None \<Rightarrow> Inr []
       | Some c \<Rightarrow>
           if ke_type c = kColumnId then
             VERIFY_RESULT (ext (column_by_id schema (GetColumnId c))) (\<lambda>col.
             VERIFY_RESULT
               (AddColumnToMap env col (primitive_value decoded_value) DatumMessagePB_default)
               (\<lambda>dm. Inr [dm]))
           else Inr [])"

text \<open>\<open>n\<close> entries that \<^verbatim>\<open>add_old_tuple()\<close> or \<^verbatim>\<open>add_new_tuple()\<close> left as they were created.\<close>
definition placeholders :: "nat \<Rightarrow> DatumMessagePB list" where
  "placeholders n = replicate n DatumMessagePB_default"

text \<open>The row message with the datums \<open>cols\<close> added to its new tuple, and as many entries to its old tuple.\<close>
definition add_columns :: "DatumMessagePB list \<Rightarrow> RowMessage \<Rightarrow> RowMessage" where
  "add_columns cols rm =
     rm\<lparr>new_tuple := new_tuple rm @ cols,
        old_tuple := old_tuple rm @ placeholders (length cols)\<rparr>"

text \<open>Lines 324 to 342: whether the record under construction is added to the response.\<close>
definition emit_condition :: "Env \<Rightarrow> Schema \<Rightarrow> Op \<Rightarrow> nat \<Rightarrow> bool" where
  "emit_condition env schema o1 col_count =
     (if enable_single_record_update (FLAGS env)
      then (o1 = Op_INSERT \<and> col_count = num_columns schema) \<or> o1 = Op_DELETE
      else (o1 = Op_INSERT \<and> col_count = num_columns schema) \<or>
           (o1 = Op_UPDATE \<or> o1 = Op_DELETE))"

text \<open>The record that \<open>MakeNewProtoRecord\<close> adds to the response for a row message, stamped with an intent.\<close>
definition record_of :: "OpId \<Rightarrow> IntentKeyValueForCDC \<Rightarrow> RowMessage \<Rightarrow> CDCSDKProtoRecordPB" where
  "record_of op_id intent rm =
     \<lparr>row_message = rm,
      cdc_sdk_op_id = SetCDCSDKOpId (opid_term op_id) (opid_index op_id) (write_id intent)
                        (reverse_index_key intent)\<rparr>"

text \<open>The column count after lines 296 to 303, for a row message of operation \<open>o1\<close>.\<close>
definition counted :: "Env \<Rightarrow> Op \<Rightarrow> nat \<Rightarrow> nat" where
  "counted env o1 c =
     (if o1 = Op_INSERT \<or> (o1 = Op_UPDATE \<and> enable_single_record_update (FLAGS env))
      then size_t_inc c else c)"

text \<open>
  \<open>folded_into env op_id txn schema tname st0 done j rm\<close>: the intent \<open>j\<close>, which is not an
  intent of a key column, is folded into a record right after the intents \<open>done\<close>, when the
  loop is started in \<open>st0\<close>; \<open>rm\<close> is the row message of that record as the iteration for
  \<open>j\<close> leaves it.
\<close>
definition folded_into ::
  "Env \<Rightarrow> OpId \<Rightarrow> TransactionId \<Rightarrow> Schema \<Rightarrow> string \<Rightarrow> IntentLoop \<Rightarrow> IntentKeyValueForCDC list
     \<Rightarrow> IntentKeyValueForCDC \<Rightarrow> RowMessage \<Rightarrow> bool" where
  "folded_into env op_id txn schema tname st0 done j rm =
     (case decode_intent env j of
        Inl e \<Rightarrow> False
      | Inr dj \<Rightarrow>
          \<not> is_key_column_intent schema dj \<and>
          (case intent_loop env op_id txn schema tname st0 (done @ [j]) of
             Inl e \<Rightarrow> False
           | Inr s \<Rightarrow> rm = l_row_message s))"

text \<open>
  \<open>last_folded env op_id txn schema tname st0 xs r g key wid\<close>: of the intents \<open>xs\<close> that
  the loop, started in \<open>st0\<close>, has gone through, \<open>j\<close> is the last one folded into the
  record \<open>r\<close>: \<open>r\<close> is the record as the iteration for \<open>j\<close> left it, stamped with \<open>j\<close>.
  When \<open>g\<close> holds and no intent of a key column comes after \<open>j\<close>, the cursor
  (\<open>key\<close>, \<open>wid\<close>) is that of \<open>j\<close>.
\<close>
definition last_folded ::
  "Env \<Rightarrow> OpId \<Rightarrow> TransactionId \<Rightarrow> Schema \<Rightarrow> string \<Rightarrow> IntentLoop \<Rightarrow> IntentKeyValueForCDC list
     \<Rightarrow> CDCSDKProtoRecordPB \<Rightarrow> bool \<Rightarrow> string \<Rightarrow> IntraTxnWriteId \<Rightarrow> bool" where
  "last_folded env op_id txn schema tname st0 xs r g key wid =
     (\<exists>ys j zs. xs = ys @ j # zs \<and> r = record_of op_id j (row_message r) \<and>
        folded_into env op_id txn schema tname st0 ys j (row_message r) \<and>
        (g \<and> no_key_column_intents env schema zs \<longrightarrow>
           key = reverse_index_key j \<and> wid = write_id j))"

text \<open>
  The invariants of the loop over the intents, after the intents \<open>xs\<close>. \<open>pending_inv\<close>: an
  UPDATE held back in the packed mode has, as its previous intent, the last intent folded
  into it, and only intents of key columns came after that one. \<open>emitted_inv\<close>: the
  records added to the response are row records, and the last of them is described by
  \<open>last_folded\<close>, the cursor being that of the out-parameters unless an UPDATE is held back.
\<close>
definition pending_inv ::
  "Env \<Rightarrow> OpId \<Rightarrow> TransactionId \<Rightarrow> Schema \<Rightarrow> string \<Rightarrow> IntentLoop \<Rightarrow> IntentKeyValueForCDC list
     \<Rightarrow> IntentLoop \<Rightarrow> bool" where
  "pending_inv env op_id txn schema tname st0 xs st =
     (enable_single_record_update (FLAGS env) \<and> op (l_row_message st) = Op_UPDATE \<longrightarrow>
       (\<exists>ys j ks. xs = ys @ j # ks \<and> all_key_column_intents env schema ks \<and>
          l_prev_intent st = j \<and>
          folded_into env op_id txn schema tname st0 ys j (l_row_message st)))"

definition emitted_inv ::
  "Env \<Rightarrow> OpId \<Rightarrow> TransactionId \<Rightarrow> Schema \<Rightarrow> string \<Rightarrow> IntentLoop \<Rightarrow> IntentKeyValueForCDC list
     \<Rightarrow> IntentLoop \<Rightarrow> bool" where
  "emitted_inv env op_id txn schema tname st0 xs st =
     (\<exists>em. l_records st = l_records st0 @ em \<and> list_all is_row_record em \<and>
        (em \<noteq> [] \<longrightarrow>
           last_folded env op_id txn schema tname st0 xs (last em)
             (\<not> (enable_single_record_update (FLAGS env) \<and> op (l_row_message st) = Op_UPDATE))
             (l_reverse_index_key st) (l_write_id st)))"

text \<open>
  The number of components of the document key of a row, and the datums that
  \<open>AddPrimaryKey\<close> builds from them: component \<open>j\<close> goes through \<open>AddColumnToMap\<close> with
  the schema's column \<open>j\<close>.
\<close>
definition key_count :: "SubDocKey \<Rightarrow> nat" where
  "key_count k = length (hashed_group (doc_key k)) + length (range_group (doc_key k))"

definition key_datum :: "Env \<Rightarrow> Schema \<Rightarrow> DatumMessagePB \<Rightarrow> KeyEntryValue \<times> nat \<Rightarrow> bool" where
  "key_datum env schema d cj =
     (AddColumnToMap env (column schema (snd cj)) (fst cj) DatumMessagePB_default = Inr d)"

definition key_datums :: "Env \<Rightarrow> Schema \<Rightarrow> SubDocKey \<Rightarrow> DatumMessagePB list \<Rightarrow> bool" where
  "key_datums env schema k ds =
     list_all2 (key_datum env schema) ds
       (zip (hashed_group (doc_key k) @ range_group (doc_key k)) [0 ..< key_count k])"

text \<open>
  The two tuples of a row message have the same length, and the new tuple of a DELETE holds
  only entries that were left as \<^verbatim>\<open>add_new_tuple()\<close> created them.
\<close>
definition row_parity :: "RowMessage \<Rightarrow> bool" where
  "row_parity rm =
     (length (old_tuple rm) = length (new_tuple rm) \<and>
      (op rm \<noteq> Op_DELETE \<or> list_all (\<lambda>d. d = DatumMessagePB_default) (new_tuple rm)))"

text \<open>The records that the loop over the write pairs has added to \<open>R\<close> satisfy \<open>row_parity\<close>.\<close>
definition write_inv :: "CDCSDKProtoRecordPB list \<Rightarrow> WriteLoop \<Rightarrow> bool" where
  "write_inv R st =
     ((\<exists>em. w_records st = R @ em \<and> list_all (\<lambda>r. row_parity (row_message r)) em) \<and>
      (case w_current st of None \<Rightarrow> True | Some r \<Rightarrow> row_parity (row_message r)))"

text \<open>
  A message of the log of the small tablet: term 1 and the given index and type, with the
  APPLYING state of transaction \<open>tx\<close>, a write batch that sets column 1 of row \<open>a\<close>, a
  change of metadata to version 1 and a truncate request.
\<close>
definition ex_msg :: "int \<Rightarrow> OperationType \<Rightarrow> ReplicateMsg" where
  "ex_msg index t =
     \<lparr>msg_id = \<lparr>opid_term = 1, opid_index = index\<rparr>, hybrid_time = 4096, op_type = t,
      transaction_state =
        \<lparr>ts_status = APPLYING, ts_transaction_id = ''tx'', ts_commit_hybrid_time = 4096\<rparr>,
      write_batch = \<lparr>has_transaction = False, write_pairs = [(''a1'', ''v'')]\<rparr>,
      change_metadata_request_opt =
        Some \<lparr>cmr_schema = \<lparr>pb_columns = [],
                pb_table_properties =
                  \<lparr>default_time_to_live = 0, num_tablets = 1, is_ysql_catalog_table = False\<rparr>,
                pb_pgschema_name = ''public''\<rparr>,
              cmr_schema_version = 1, cmr_new_table_name = ''t''\<rparr>,
      has_truncate = True, ShortDebugString = ''msg''\<rparr>"

text \<open>An intent of a column: its key ends in a column id (line 308).\<close>
definition is_column_intent :: "DecodedIntent \<Rightarrow> bool" where
  "is_column_intent d =
     (case d_column_id_opt d of None \<Rightarrow> False | Some c \<Rightarrow> ke_type c = kColumnId)"

text \<open>
  The shape of a DELETE that the loop over \<open>intents\<close> builds: the old tuple holds the datums
  of the document key of one of the intents, and the new tuple as many entries left as
  they were created.
\<close>
definition delete_shape ::
  "Env \<Rightarrow> Schema \<Rightarrow> IntentKeyValueForCDC list \<Rightarrow> RowMessage \<Rightarrow> bool" where
  "delete_shape env schema intents rm =
     (list_ex (\<lambda>i. case decode_intent env i of
                     Inl e \<Rightarrow> False
                   | Inr d \<Rightarrow> key_datums env schema (d_decoded_key d) (old_tuple rm)) intents \<and>
      new_tuple rm = placeholders (length (old_tuple rm)))"

text \<open>
  The intents that go into INSERT records are as the claim takes them to be, when the loop
  is run from the state \<open>st\<close>: an intent that opens an INSERT has a document key of
  \<open>num_key_columns\<close> components, and an intent folded into an INSERT that is already open
  is an intent of a column.
\<close>
fun insert_inputs_ok ::
  "Env \<Rightarrow> OpId \<Rightarrow> TransactionId \<Rightarrow> Schema \<Rightarrow> string \<Rightarrow> IntentLoop \<Rightarrow> IntentKeyValueForCDC list
     \<Rightarrow> bool" where
  "insert_inputs_ok env op_id txn schema tname st [] = True"
| "insert_inputs_ok env op_id txn schema tname st (i # rest) =
     (case decode_intent env i of
        Inl e \<Rightarrow> True
      | Inr d \<Rightarrow>
          (is_key_column_intent schema d \<or>
           (if compute_new_cdc_record_needed env schema st i d
            then opened_op d = Op_INSERT \<longrightarrow>
                   key_count (d_decoded_key d) = num_key_columns schema
            else op (l_row_message st) = Op_INSERT \<longrightarrow> is_column_intent d)) \<and>
          (case intent_step env op_id txn schema tname st i of
             Inl e \<Rightarrow> True
           | Inr st' \<Rightarrow> insert_inputs_ok env op_id txn schema tname st' rest))"

text \<open>The column count of an INSERT under construction is the length of its new tuple.\<close>
definition insert_count_inv :: "IntentLoop \<Rightarrow> bool" where
  "insert_count_inv st =
     (op (l_row_message st) = Op_INSERT \<longrightarrow>
        length (new_tuple (l_row_message st)) = l_col_count st)"

text \<open>The cursor that starts a snapshot: write id -1, empty key, snapshot time 0.\<close>
definition snapshot_handshake_cursor :: "CDCSDKCheckpointPB \<Rightarrow> bool" where
  "snapshot_handshake_cursor c = (cp_write_id c = - 1 \<and> cp_key c = [] \<and> cp_snapshot_time c = 0)"

text \<open>The transaction participant of the tablet and its context are there (lines 769 and 781).\<close>
definition has_participant_context :: "Tablet \<Rightarrow> bool" where
  "has_participant_context tablet =
     (case transaction_participant tablet of None \<Rightarrow> False | Some p \<Rightarrow> has_context p)"

text \<open>
  The small tablet, with a log that grows between the two reads of the last replicated
  entry: the first read gives the OpId (1, 9) at time 5000, the second (1, 10) at 5001.
\<close>
definition ex_env_growing :: Env where
  "ex_env_growing =
     (ex_env True [] \<lparr>ats_key = [], ats_write_id = 0\<rparr>)
       \<lparr>GetLastReplicatedData :=
          (\<lambda>n. Inr \<lparr>rid_op_id = \<lparr>opid_term = 1, opid_index = 9 + int n\<rparr>,
                     rid_log_ht = 5000 + n\<rparr>)\<rparr>"

text \<open>A request on the small tablet with the cursor \<open>c\<close>, an empty response and nothing cached.\<close>
definition ex_request :: "CDCSDKCheckpointPB \<Rightarrow> GetChangesIn" where
  "ex_request c =
     \<lparr>i_tablet_id = ''tablet'', i_from_op_id = c, i_records = [], i_resp_checkpoint = None,
      i_commit_timestamp = [], i_cached_schema = ex_schema, i_cached_schema_version = 1,
      i_last_streamed_op_id = \<lparr>opid_term = 0, opid_index = 0\<rparr>,
      i_last_readable_opid_index = Some 0\<rparr>"

text \<open>
  The schema version resolved for a CHANGE\_METADATA entry (lines 1006 to 1017): the
  catalog's version at the hybrid time of the entry, or the version of the entry when the
  catalog cannot be read.
\<close>
definition resolved_schema_version :: "Env \<Rightarrow> Tablet \<Rightarrow> ReplicateMsg \<Rightarrow> SchemaVersion" where
  "resolved_schema_version env tablet msg =
     (case GetTableSchemaFromSysCatalog env (table_id tablet) (hybrid_time msg) of
        Inl e \<Rightarrow> cmr_schema_version (change_metadata_request msg)
      | Inr result \<Rightarrow> snd result)"

text \<open>The last record of the response is a DDL record of the schema version \<open>v\<close>.\<close>
definition last_is_ddl :: "CDCSDKProtoRecordPB list \<Rightarrow> SchemaVersion \<Rightarrow> bool" where
  "last_is_ddl records v =
     (records \<noteq> [] \<and> op (row_message (last records)) = Op_DDL \<and>
      schema_version (row_message (last records)) = v)"

text \<open>The small tablet, with a catalog that has the table at schema version 2.\<close>
definition ex_env_catalog2 :: Env where
  "ex_env_catalog2 =
     (ex_env True [] \<lparr>ats_key = [], ats_write_id = 0\<rparr>)
       \<lparr>GetTableSchemaFromSysCatalog := (\<lambda>t h. Inr (ex_schema, 2))\<rparr>"

text \<open>
  An environment whose log holds the messages \<open>msgs\<close>: a read gives the messages after the
  OpId it is asked from, and the index of the last message as the last readable index.
\<close>
definition ex_env_log :: "Env \<Rightarrow> ReplicateMsg list \<Rightarrow> Env" where
  "ex_env_log env msgs =
     env\<lparr>ReadReplicatedMessagesForCDC :=
           (\<lambda>seen upto.
              Inr (filter (\<lambda>m. opid_index seen < opid_index (msg_id m)) msgs,
                   if msgs = [] then opid_index seen else opid_index (msg_id (last msgs))))\<rparr>"

section \<open>Properties\<close>

subsection \<open>Basic facts\<close>

lemma VERIFY_RESULT_Inr [simp]: "VERIFY_RESULT (Inr x) f = f x"
  by (simp add: VERIFY_RESULT_def)

lemma VERIFY_RESULT_Inl [simp]: "VERIFY_RESULT (Inl e) f = Inl e"
  by (simp add: VERIFY_RESULT_def)

lemma VERIFY_RESULT_eq_Inr:
  "VERIFY_RESULT r f = Inr y \<longleftrightarrow> (\<exists>x. r = Inr x \<and> f x = Inr y)"
  by (cases r) simp_all

lemma ext_Inr [simp]: "ext (Inr x) = Inr x"
  by (simp add: ext_def)

lemma ext_Inl [simp]: "ext (Inl e) = Inl (Propagated e)"
  by (simp add: ext_def)

lemma ext_eq_Inr: "ext r = Inr y \<longleftrightarrow> r = Inr y"
  by (cases r) simp_all

lemma MakeNewProtoRecord_fields [simp]:
  "l_prev_key (MakeNewProtoRecord i op_id st) = l_prev_key st"
  "l_prev_intent_phy_time (MakeNewProtoRecord i op_id st) = l_prev_intent_phy_time st"
  "l_new_cdc_record_needed (MakeNewProtoRecord i op_id st) = l_new_cdc_record_needed st"
  "l_col_count (MakeNewProtoRecord i op_id st) = l_col_count st"
  "l_prev_intent (MakeNewProtoRecord i op_id st) = l_prev_intent st"
  "l_write_id (MakeNewProtoRecord i op_id st) = write_id i"
  "l_reverse_index_key (MakeNewProtoRecord i op_id st) = reverse_index_key i"
  "l_row_message (MakeNewProtoRecord i op_id st) = l_row_message st"
  by (simp_all add: MakeNewProtoRecord_def Let_def l_row_message_def)

lemma set_row_message_fields [simp]:
  "l_prev_key (set_row_message rm st) = l_prev_key st"
  "l_prev_intent_phy_time (set_row_message rm st) = l_prev_intent_phy_time st"
  "l_new_cdc_record_needed (set_row_message rm st) = l_new_cdc_record_needed st"
  "l_col_count (set_row_message rm st) = l_col_count st"
  "l_prev_intent (set_row_message rm st) = l_prev_intent st"
  "l_write_id (set_row_message rm st) = l_write_id st"
  "l_reverse_index_key (set_row_message rm st) = l_reverse_index_key st"
  "l_records (set_row_message rm st) = l_records st"
  "l_row_message (set_row_message rm st) = rm"
  by (simp_all add: set_row_message_def l_row_message_def)

lemma l_row_message_update [simp]:
  "l_row_message (st\<lparr>l_col_count := c\<rparr>) = l_row_message st"
  "l_row_message (st\<lparr>l_write_id := w\<rparr>) = l_row_message st"
  "l_row_message (st\<lparr>l_reverse_index_key := k\<rparr>) = l_row_message st"
  "l_row_message (st\<lparr>l_prev_intent := i\<rparr>) = l_row_message st"
  "l_row_message (st\<lparr>l_prev_key := pk\<rparr>) = l_row_message st"
  "l_row_message (st\<lparr>l_prev_intent_phy_time := t\<rparr>) = l_row_message st"
  "l_row_message (st\<lparr>l_new_cdc_record_needed := b\<rparr>) = l_row_message st"
  "l_row_message (st\<lparr>l_records := rs\<rparr>) = l_row_message st"
  "l_row_message (st\<lparr>l_proto_record := pr\<rparr>) = row_message pr"
  by (simp_all add: l_row_message_def)

lemma open_new_record_keeps:
  assumes "open_new_record env op_id txn schema st i d = Inr st'"
  shows "l_prev_key st' = l_prev_key st"
    and "l_prev_intent_phy_time st' = l_prev_intent_phy_time st"
    and "l_new_cdc_record_needed st' = l_new_cdc_record_needed st"
  using assms
  by (auto simp: open_new_record_def Let_def VERIFY_RESULT_eq_Inr split: if_splits)

lemma add_column_value_keeps:
  assumes "add_column_value env schema st i d = Inr st'"
  shows "l_prev_key st' = l_prev_key st"
    and "l_prev_intent_phy_time st' = l_prev_intent_phy_time st"
    and "l_new_cdc_record_needed st' = l_new_cdc_record_needed st"
    and "l_records st' = l_records st"
    and "l_write_id st' = l_write_id st"
    and "l_reverse_index_key st' = l_reverse_index_key st"
    and "l_prev_intent st' = l_prev_intent st"
  using assms
  by (auto simp: add_column_value_def Let_def VERIFY_RESULT_eq_Inr ext_eq_Inr
      split: if_splits option.splits)

lemma emit_or_hold_keeps [simp]:
  "l_prev_key (emit_or_hold env op_id schema tname st i) = l_prev_key st"
  "l_prev_intent_phy_time (emit_or_hold env op_id schema tname st i) = l_prev_intent_phy_time st"
  "l_new_cdc_record_needed (emit_or_hold env op_id schema tname st i) = l_new_cdc_record_needed st"
  by (simp_all add: emit_or_hold_def Let_def)


lemma intent_step_key_column:
  assumes "decode_intent env i = Inr d" and "is_key_column_intent schema d"
  shows "intent_step env op_id txn schema tname st i =
           Inr (st\<lparr>l_write_id := write_id i, l_reverse_index_key := reverse_index_key i\<rparr>)"
  using assms by (simp add: intent_step_def)

lemma intent_step_unfold:
  assumes "decode_intent env i = Inr d" and "\<not> is_key_column_intent schema d"
  shows "intent_step env op_id txn schema tname st i =
     VERIFY_RESULT
       (if compute_new_cdc_record_needed env schema st i d
        then open_new_record env op_id txn schema
               (st\<lparr>l_new_cdc_record_needed := compute_new_cdc_record_needed env schema st i d\<rparr>)
               i d
        else Inr (st\<lparr>l_new_cdc_record_needed :=
                        compute_new_cdc_record_needed env schema st i d\<rparr>))
       (\<lambda>st2. VERIFY_RESULT
          (if IsInsertOrUpdate (l_row_message st2)
           then add_column_value env schema
                  (st2\<lparr>l_prev_key := d_primary_key d,
                       l_prev_intent_phy_time := GetPhysicalValueMicros env (intent_ht i)\<rparr>) i d
           else Inr (st2\<lparr>l_prev_key := d_primary_key d,
                       l_prev_intent_phy_time := GetPhysicalValueMicros env (intent_ht i)\<rparr>))
          (\<lambda>st4. Inr (emit_or_hold env op_id schema tname st4 i)))"
  unfolding intent_step_def Let_def using assms by simp

lemma intent_step_other:
  assumes d: "decode_intent env i = Inr d" and nk: "\<not> is_key_column_intent schema d"
    and step: "intent_step env op_id txn schema tname st i = Inr st'"
  shows "l_prev_key st' = d_primary_key d"
    and "l_prev_intent_phy_time st' = GetPhysicalValueMicros env (intent_ht i)"
    and "l_new_cdc_record_needed st' = compute_new_cdc_record_needed env schema st i d"
proof -
  from step [unfolded intent_step_unfold [OF d nk] VERIFY_RESULT_eq_Inr] obtain st2 st4 where
    st2: "(if compute_new_cdc_record_needed env schema st i d
        then open_new_record env op_id txn schema
               (st\<lparr>l_new_cdc_record_needed := compute_new_cdc_record_needed env schema st i d\<rparr>)
               i d
        else Inr (st\<lparr>l_new_cdc_record_needed :=
                        compute_new_cdc_record_needed env schema st i d\<rparr>)) = Inr st2"
    and st4: "(if IsInsertOrUpdate (l_row_message st2)
               then add_column_value env schema
                      (st2\<lparr>l_prev_key := d_primary_key d,
                           l_prev_intent_phy_time := GetPhysicalValueMicros env (intent_ht i)\<rparr>) i d
               else Inr (st2\<lparr>l_prev_key := d_primary_key d,
                           l_prev_intent_phy_time := GetPhysicalValueMicros env (intent_ht i)\<rparr>))
              = Inr st4"
    and st': "Inr (emit_or_hold env op_id schema tname st4 i) = (Inr st' :: Status + IntentLoop)"
    by blast
  have n2: "l_new_cdc_record_needed st2 = compute_new_cdc_record_needed env schema st i d"
  proof (cases "compute_new_cdc_record_needed env schema st i d")
    case True
    with st2 open_new_record_keeps(3) show ?thesis by fastforce
  next
    case False
    with st2 show ?thesis by auto
  qed
  have "l_prev_key st4 = d_primary_key d \<and>
      l_prev_intent_phy_time st4 = GetPhysicalValueMicros env (intent_ht i) \<and>
      l_new_cdc_record_needed st4 = l_new_cdc_record_needed st2"
  proof (cases "IsInsertOrUpdate (l_row_message st2)")
    case True
    with st4 add_column_value_keeps(1,2,3) show ?thesis by fastforce
  next
    case False
    with st4 show ?thesis by auto
  qed
  with n2 st' show "l_prev_key st' = d_primary_key d"
    and "l_prev_intent_phy_time st' = GetPhysicalValueMicros env (intent_ht i)"
    and "l_new_cdc_record_needed st' = compute_new_cdc_record_needed env schema st i d"
    by auto
qed

lemma intent_loop_key_columns:
  assumes "all_key_column_intents env schema ks"
    and "intent_loop env op_id txn schema tname st ks = Inr st'"
  shows "l_prev_key st' = l_prev_key st \<and>
         l_prev_intent_phy_time st' = l_prev_intent_phy_time st \<and>
         l_col_count st' = l_col_count st \<and> l_proto_record st' = l_proto_record st \<and>
         l_records st' = l_records st \<and> l_prev_intent st' = l_prev_intent st"
  using assms
proof (induction ks arbitrary: st)
  case Nil
  then show ?case by simp
next
  case (Cons k ks)
  from Cons.prems(1) obtain d where d: "decode_intent env k = Inr d"
    "is_key_column_intent schema d" and ks: "all_key_column_intents env schema ks"
    by (auto simp: all_key_column_intents_def split: sum.splits)
  from Cons.prems(2) d
  have "intent_loop env op_id txn schema tname
          (st\<lparr>l_write_id := write_id k, l_reverse_index_key := reverse_index_key k\<rparr>) ks = Inr st'"
    by (simp add: intent_step_key_column)
  from Cons.IH [OF ks this] show ?case by simp
qed

lemma intent_loop_append:
  "intent_loop env op_id txn schema tname st (xs @ ys) =
     VERIFY_RESULT (intent_loop env op_id txn schema tname st xs)
       (\<lambda>st'. intent_loop env op_id txn schema tname st' ys)"
  by (induction xs arbitrary: st) (simp_all add: VERIFY_RESULT_def split: sum.splits)

lemma MakeNewProtoRecord_records [simp]:
  "l_records (MakeNewProtoRecord i op_id st) = l_records st @ [stamped op_id i (l_proto_record st)]"
  by (simp add: MakeNewProtoRecord_def Let_def stamped_def)

lemma open_new_record_records:
  assumes "open_new_record env op_id txn schema st i d = Inr st'"
  shows "l_records st' =
           (if enable_single_record_update (FLAGS env) \<and> op (l_row_message st) = Op_UPDATE
            then l_records st @ [stamped op_id (l_prev_intent st) (l_proto_record st)]
            else l_records st)"
  using assms
  by (auto simp: open_new_record_def Let_def VERIFY_RESULT_eq_Inr IsInitialized_def
      split: if_splits)

lemma emit_or_hold_records:
  "\<exists>xs. l_records (emit_or_hold env op_id schema tname st i) = l_records st @ xs"
  by (simp add: emit_or_hold_def Let_def)

subsection \<open>Evaluating the functions on the small tablet\<close>

lemmas intent_defs =
  intent_step_def decode_intent_def is_key_column_intent_def is_root_tombstone_def
  compute_new_cdc_record_needed_def open_new_record_def add_column_value_def emit_or_hold_def
  MakeNewProtoRecord_def set_row_message_def l_row_message_def IntentLoop_init_def
  final_flush_def PopulateCDCSDKIntentRecord_def AddPrimaryKey_def AddTuple_def slot_value_def
  fill_slot_def AddColumnToMap_def SetCDCSDKOpId_def IsInsertOperation_def IsInitialized_def
  IsInsertOrUpdate_def size_t_dec_def size_t_inc_def num_subkeys_def IsNull_def
  CDCSDKProtoRecordPB_Clear_def RowMessage_Clear_def DatumMessagePB_default_def
  IntentKeyValueForCDC_default_def

lemmas ex_defs =
  ex_env_def ex_flags_def ex_tablet_def ex_schema_def ex_key_entry_def ex_sub_doc_key_def
  ex_value_def ex_intent_def

subsection \<open>Which statuses the functions return\<close>

lemma VERIFY_RESULT_eq_Inl:
  "VERIFY_RESULT r f = Inl e \<longleftrightarrow> r = Inl e \<or> (\<exists>x. r = Inr x \<and> f x = Inl e)"
  by (cases r) simp_all

lemma ext_eq_Inl: "ext r = Inl e \<Longrightarrow> propagated e"
  by (cases r) auto

lemma AddColumnToMap_propagated: "AddColumnToMap env cs c d = Inl e \<Longrightarrow> propagated e"
  by (auto simp: AddColumnToMap_def VERIFY_RESULT_eq_Inl Let_def dest: ext_eq_Inl split: if_splits)

lemma AddPrimaryKey_loop_propagated:
  "AddPrimaryKey_loop env schema cols i rm = Inl e \<Longrightarrow> propagated e"
  by (induction cols arbitrary: i rm)
    (auto simp: VERIFY_RESULT_eq_Inl dest: AddColumnToMap_propagated split: prod.splits)

lemma AddPrimaryKey_propagated: "AddPrimaryKey env k schema rm = Inl e \<Longrightarrow> propagated e"
  by (auto simp: AddPrimaryKey_def VERIFY_RESULT_eq_Inl dest: AddPrimaryKey_loop_propagated)

lemma decode_intent_propagated: "decode_intent env i = Inl e \<Longrightarrow> propagated e"
  by (auto simp: decode_intent_def VERIFY_RESULT_eq_Inl Let_def dest: ext_eq_Inl split: if_splits)

lemma open_new_record_propagated:
  "open_new_record env op_id txn schema st i d = Inl e \<Longrightarrow> propagated e"
  unfolding open_new_record_def Let_def VERIFY_RESULT_eq_Inl
  by (blast dest: AddPrimaryKey_propagated)

lemma add_column_value_propagated:
  "add_column_value env schema st i d = Inl e \<Longrightarrow> propagated e"
  by (auto simp: add_column_value_def VERIFY_RESULT_eq_Inl Let_def
      dest: ext_eq_Inl AddColumnToMap_propagated split: if_splits option.splits)

lemma intent_step_propagated:
  assumes "intent_step env op_id txn schema tname st i = Inl e"
  shows "propagated e"
proof (cases "decode_intent env i")
  case (Inl e')
  with assms show ?thesis by (auto simp: intent_step_def dest: decode_intent_propagated)
next
  case (Inr d)
  show ?thesis
  proof (cases "is_key_column_intent schema d")
    case True
    with assms Inr show ?thesis by (simp add: intent_step_def)
  next
    case False
    from assms [unfolded intent_step_unfold [OF Inr False] VERIFY_RESULT_eq_Inl]
    show ?thesis
      by (auto dest: open_new_record_propagated add_column_value_propagated split: if_splits)
  qed
qed

lemma intent_loop_propagated:
  "intent_loop env op_id txn schema tname st is = Inl e \<Longrightarrow> propagated e"
  by (induction "is" arbitrary: st)
    (auto simp: VERIFY_RESULT_eq_Inl dest: intent_step_propagated)

lemma PopulateCDCSDKIntentRecord_propagated:
  "PopulateCDCSDKIntentRecord env op_id txn is records w k schema = Inl e \<Longrightarrow> propagated e"
  by (auto simp: PopulateCDCSDKIntentRecord_def VERIFY_RESULT_eq_Inl Let_def
      dest: ext_eq_Inl intent_loop_propagated)

lemma check_intent_propagated: "check_intent env tablet sv i = Inl e \<Longrightarrow> propagated e"
  by (auto simp: check_intent_def VERIFY_RESULT_eq_Inl Let_def
      dest: ext_eq_Inl split: sum.splits if_splits)

lemma check_intents_propagated: "check_intents env tablet sv is = Inl e \<Longrightarrow> propagated e"
  by (induction "is" arbitrary: sv)
    (auto simp: VERIFY_RESULT_eq_Inl dest: check_intent_propagated)

lemma ProcessIntents_rest_propagated:
  "ProcessIntents_rest env tablet op_id txn records cp is st cs cv = Inl e \<Longrightarrow> propagated e"
  by (auto simp: ProcessIntents_rest_def VERIFY_RESULT_eq_Inl Let_def
      dest: check_intents_propagated PopulateCDCSDKIntentRecord_propagated split: if_splits prod.splits)

subsection \<open>C5: the failure on garbage-collected intents\<close>

text \<open>
  C5, as the code has it. \<open>ProcessIntents\<close> returns the status of line 560 exactly when
  the tablet is there, the fetch of the intents succeeds with no intent, and the OpId of
  the apply record is at or below the latest checkpoint of the tablet peer; in every other
  case it does not return that status. The status is of the kind \<open>InternalError\<close>, with
  the message \<^verbatim>\<open>CDCSDK Trying to fetch already GCed intents for transaction\<close> and the
  transaction id; the file has no status kind named after the garbage collection.
\<close>
theorem gced_intents_failure:
  "(ProcessIntents env op_id txn records checkpoint stream_state c_schema c_version
      = Inl (gced_intents_status txn) \<longleftrightarrow>
    (\<exists>tablet stream_state1.
       shared_tablet_safe env = Inr tablet \<and>
       GetIntents env txn stream_state = Inr ([], stream_state1) \<and>
       OpId_le op_id (GetLatestCheckPoint env)))
   \<and> status_code (gced_intents_status txn) = Some InternalError"
proof -
  have np: "\<not> propagated (gced_intents_status txn)"
    by (simp add: gced_intents_status_def)
  have sc: "status_code (gced_intents_status txn) = Some InternalError"
    by (simp add: gced_intents_status_def)
  show ?thesis
  proof (cases "shared_tablet_safe env")
    case (Inl e)
    with np show ?thesis
      by (auto simp: ProcessIntents_def gced_intents_status_def)
  next
    case tablet: (Inr tablet)
    show ?thesis
    proof (cases "GetIntents env txn stream_state")
      case (Inl e)
      with tablet show ?thesis
        by (auto simp: ProcessIntents_def gced_intents_status_def)
    next
      case (Inr p)
      obtain intents st1 where p: "p = (intents, st1)" by (cases p)
      show ?thesis
      proof (cases "intents = [] \<and> OpId_le op_id (GetLatestCheckPoint env)")
        case True
        with tablet Inr p show ?thesis
          by (simp add: ProcessIntents_def gced_intents_status_def)
      next
        case False
        with tablet Inr p np sc show ?thesis
          by (auto simp: ProcessIntents_def Let_def dest: ProcessIntents_rest_propagated)
      qed
    qed
  qed
qed

subsection \<open>The records and the cursor that the loop over the intents leaves\<close>

lemma fill_slot_fields [simp]:
  "op (fill_slot rm s d) = op rm"
  "length (new_tuple (fill_slot rm s d)) = length (new_tuple rm)"
  "length (old_tuple (fill_slot rm s d)) = length (old_tuple rm)"
  by (simp_all add: fill_slot_def split: TupleSlot.splits)

lemma AddTuple_fields:
  "AddTuple rm = (rm1, s) \<Longrightarrow>
     op rm1 = op rm \<and> length (new_tuple rm1) = Suc (length (new_tuple rm)) \<and>
     length (old_tuple rm1) = Suc (length (old_tuple rm))"
  by (auto simp: AddTuple_def split: if_splits)

lemma AddPrimaryKey_loop_fields:
  "AddPrimaryKey_loop env schema cols i rm = Inr rm' \<Longrightarrow>
     op rm' = op rm \<and> length (new_tuple rm') = length (new_tuple rm) + length cols \<and>
     length (old_tuple rm') = length (old_tuple rm) + length cols"
proof (induction cols arbitrary: i rm)
  case Nil
  then show ?case by simp
next
  case (Cons c cols)
  obtain rm1 s where a: "AddTuple rm = (rm1, s)" by (cases "AddTuple rm")
  with Cons.prems obtain d where
    "AddPrimaryKey_loop env schema cols (i + 1) (fill_slot rm1 s d) = Inr rm'"
    by (auto simp: VERIFY_RESULT_eq_Inr)
  from Cons.IH [OF this] AddTuple_fields [OF a] show ?case by simp
qed

lemma AddPrimaryKey_fields:
  assumes "AddPrimaryKey env k schema rm = Inr rm'"
  shows "op rm' = op rm"
    and "length (new_tuple rm') =
           length (new_tuple rm) + length (hashed_group (doc_key k)) + length (range_group (doc_key k))"
    and "length (old_tuple rm') =
           length (old_tuple rm) + length (hashed_group (doc_key k)) + length (range_group (doc_key k))"
  using assms
  by (auto simp: AddPrimaryKey_def VERIFY_RESULT_eq_Inr dest!: AddPrimaryKey_loop_fields)

lemma stamped_fields [simp]:
  "row_message (stamped op_id i pr) = row_message pr"
  "write_id_key (cdc_sdk_op_id (stamped op_id i pr)) = reverse_index_key i"
  "rec_write_id (cdc_sdk_op_id (stamped op_id i pr)) = write_id i"
  by (simp_all add: stamped_def SetCDCSDKOpId_def)

lemma last_stamp_snoc [simp]:
  "last_stamp (em @ [stamped op_id i pr]) = (reverse_index_key i, write_id i)"
  by (simp add: last_stamp_def)

lemmas process_defs =
  ProcessIntents_def ProcessIntents_rest_def check_intent_def SetTermIndex_def SetKeyWriteId_def
  begin_record_def commit_record_def gced_intents_status_def OpId_le_def

text \<open>
  The claim names the status kind \<open>IntentsGCed\<close>. With no intent fetched and the apply
  record at the retention checkpoint (1, 5), the status returned is an \<open>InternalError\<close>.
\<close>
theorem gced_intents_counterexample:
  "ProcessIntents (ex_env True [] \<lparr>ats_key = [], ats_write_id = 0\<rparr>)
     \<lparr>opid_term = 1, opid_index = 5\<rparr> ''tx'' [] CDCSDKCheckpointPB_default
     \<lparr>ats_key = [], ats_write_id = 0\<rparr> ex_schema 1
   = Inl (STATUS InternalError ''CDCSDK Trying to fetch already GCed intents for transaction tx'')"
  by (simp add: process_defs ex_defs)

theorem gced_intents_failure_witness:
  "ProcessIntents (ex_env True [] \<lparr>ats_key = [], ats_write_id = 0\<rparr>)
     \<lparr>opid_term = 1, opid_index = 5\<rparr> ''tx'' [] CDCSDKCheckpointPB_default
     \<lparr>ats_key = [], ats_write_id = 0\<rparr> ex_schema 1 = Inl (gced_intents_status ''tx'') \<and>
   ProcessIntents (ex_env True [] \<lparr>ats_key = [], ats_write_id = 0\<rparr>)
     \<lparr>opid_term = 1, opid_index = 6\<rparr> ''tx'' [] CDCSDKCheckpointPB_default
     \<lparr>ats_key = [], ats_write_id = 0\<rparr> ex_schema 1 \<noteq> Inl (gced_intents_status ''tx'')"
  using gced_intents_failure [of "ex_env True [] \<lparr>ats_key = [], ats_write_id = 0\<rparr>"
      "\<lparr>opid_term = 1, opid_index = 5\<rparr>" "''tx''" "[]" CDCSDKCheckpointPB_default
      "\<lparr>ats_key = [], ats_write_id = 0\<rparr>" ex_schema 1]
    gced_intents_failure [of "ex_env True [] \<lparr>ats_key = [], ats_write_id = 0\<rparr>"
      "\<lparr>opid_term = 1, opid_index = 6\<rparr>" "''tx''" "[]" CDCSDKCheckpointPB_default
      "\<lparr>ats_key = [], ats_write_id = 0\<rparr>" ex_schema 1]
  by (simp add: ex_env_def OpId_le_def)

lemma begin_commit_not_rows [simp]:
  "\<not> is_row_record (begin_record txn tname)" "\<not> is_row_record (commit_record op_id txn tname)"
  "begin_record txn tname \<noteq> commit_record op_id txn tname"
  "commit_record op_id txn tname \<noteq> begin_record txn tname"
  by (auto simp: is_row_record_def begin_record_def commit_record_def
      CDCSDKProtoRecordPB_Clear_def RowMessage_Clear_def)

lemma not_in_rows: "list_all is_row_record em \<Longrightarrow> \<not> is_row_record r \<Longrightarrow> r \<notin> set em"
  by (auto simp: list_all_iff)


subsection \<open>What one iteration of the loop over the intents does\<close>

lemma placeholders_simps [simp]:
  "placeholders 0 = []" "length (placeholders n) = n"
  by (simp_all add: placeholders_def)

lemma add_columns_fields [simp]:
  "op (add_columns cols rm) = op rm"
  "table (add_columns cols rm) = table rm"
  "transaction_id (add_columns cols rm) = transaction_id rm"
  "new_tuple (add_columns cols rm) = new_tuple rm @ cols"
  "old_tuple (add_columns cols rm) = old_tuple rm @ placeholders (length cols)"
  "add_columns [] rm = rm"
  by (simp_all add: add_columns_def)

lemma opened_op_cases:
  "opened_op d = Op_DELETE \<or> opened_op d = Op_INSERT \<or> opened_op d = Op_UPDATE"
  by (simp add: opened_op_def)

lemma open_new_record_effect:
  assumes "open_new_record env op_id txn schema st i d = Inr st'"
  shows "\<exists>rm. AddPrimaryKey env (d_decoded_key d) schema (opened_row txn schema d) = Inr rm \<and>
              l_proto_record st' = CDCSDKProtoRecordPB_Clear\<lparr>row_message := rm\<rparr>"
    and "l_records st' =
           l_records st @
           (if enable_single_record_update (FLAGS env) \<and> op (l_row_message st) = Op_UPDATE
            then [stamped op_id (l_prev_intent st) (l_proto_record st)] else [])"
    and "l_prev_intent st' = l_prev_intent st"
    and "l_reverse_index_key st' =
           (if enable_single_record_update (FLAGS env) \<and> op (l_row_message st) = Op_UPDATE
            then reverse_index_key (l_prev_intent st) else l_reverse_index_key st)"
    and "l_write_id st' =
           (if opened_op d \<noteq> Op_INSERT then write_id i
            else if enable_single_record_update (FLAGS env) \<and> op (l_row_message st) = Op_UPDATE
            then write_id (l_prev_intent st) else l_write_id st)"
    and "l_col_count st' = opened_col_count env schema d"
proof -
  show "\<exists>rm. AddPrimaryKey env (d_decoded_key d) schema (opened_row txn schema d) = Inr rm \<and>
              l_proto_record st' = CDCSDKProtoRecordPB_Clear\<lparr>row_message := rm\<rparr>"
    using assms
    by (auto simp: open_new_record_def Let_def VERIFY_RESULT_eq_Inr opened_row_def opened_op_def
        set_row_message_def l_row_message_def CDCSDKProtoRecordPB_Clear_def split: if_splits)
  show "l_records st' =
           l_records st @
           (if enable_single_record_update (FLAGS env) \<and> op (l_row_message st) = Op_UPDATE
            then [stamped op_id (l_prev_intent st) (l_proto_record st)] else [])"
    using open_new_record_records [OF assms] by simp
  show "l_prev_intent st' = l_prev_intent st"
    using assms
    by (auto simp: open_new_record_def Let_def VERIFY_RESULT_eq_Inr split: if_splits)
  show "l_reverse_index_key st' =
           (if enable_single_record_update (FLAGS env) \<and> op (l_row_message st) = Op_UPDATE
            then reverse_index_key (l_prev_intent st) else l_reverse_index_key st)"
    using assms
    by (auto simp: open_new_record_def Let_def VERIFY_RESULT_eq_Inr IsInitialized_def
        split: if_splits)
  show "l_write_id st' =
           (if opened_op d \<noteq> Op_INSERT then write_id i
            else if enable_single_record_update (FLAGS env) \<and> op (l_row_message st) = Op_UPDATE
            then write_id (l_prev_intent st) else l_write_id st)"
    using assms
    by (auto simp: open_new_record_def Let_def VERIFY_RESULT_eq_Inr IsInitialized_def
        opened_op_def split: if_splits)
  show "l_col_count st' = opened_col_count env schema d"
    using assms
    by (auto simp: open_new_record_def Let_def VERIFY_RESULT_eq_Inr opened_col_count_def
        opened_op_def split: if_splits)
qed

lemma add_column_value_effect:
  assumes "add_column_value env schema st i d = Inr st'"
  shows "\<exists>cols. column_datums env schema i d = Inr cols \<and>
           l_proto_record st' =
             (l_proto_record st)\<lparr>row_message := add_columns cols (l_row_message st)\<rparr>"
    and "l_col_count st' =
           (if enable_single_record_update (FLAGS env) \<or> op (l_row_message st) = Op_INSERT
            then size_t_inc (l_col_count st) else l_col_count st)"
proof -
  let ?st1 = "(if enable_single_record_update (FLAGS env)
                 then st\<lparr>l_col_count := size_t_inc (l_col_count st)\<rparr>
                 else if IsInsertOperation (l_row_message st)
                      then st\<lparr>l_col_count := size_t_inc (l_col_count st)\<rparr> else st)"
  have p1: "l_proto_record ?st1 = l_proto_record st" by simp
  have c1: "l_col_count ?st1 =
           (if enable_single_record_update (FLAGS env) \<or> op (l_row_message st) = Op_INSERT
            then size_t_inc (l_col_count st) else l_col_count st)"
    by (simp add: IsInsertOperation_def)
  from assms [unfolded add_column_value_def Let_def VERIFY_RESULT_eq_Inr ext_eq_Inr]
  obtain dv :: Value where dv: "Decode env (value_buf i) = Inr dv"
    and r: "(case d_column_id_opt d of
             None \<Rightarrow> Inr ?st1
           | Some c \<Rightarrow>
               if ke_type c = kColumnId then
                 VERIFY_RESULT (ext (column_by_id schema (GetColumnId c))) (\<lambda>col.
                 VERIFY_RESULT
                   (AddColumnToMap env col (primitive_value dv) DatumMessagePB_default)
                   (\<lambda>dm. Inr (set_row_message
                             ((l_row_message ?st1)\<lparr>new_tuple := new_tuple (l_row_message ?st1) @ [dm],
                                 old_tuple := old_tuple (l_row_message ?st1) @ [DatumMessagePB_default]\<rparr>) ?st1)))
               else Inr ?st1) = Inr st'"
    by blast
  have rm1: "l_row_message ?st1 = l_row_message st" by simp
  have same: "(l_proto_record st)\<lparr>row_message := add_columns [] (l_row_message st)\<rparr> = l_proto_record st"
    by (simp add: l_row_message_def)
  have "(\<exists>cols. column_datums env schema i d = Inr cols \<and>
           l_proto_record st' =
             (l_proto_record st)\<lparr>row_message := add_columns cols (l_row_message st)\<rparr>) \<and>
        l_col_count st' = l_col_count ?st1"
  proof (cases "d_column_id_opt d")
    case None
    with r have "st' = ?st1" by simp
    moreover have "column_datums env schema i d = Inr []"
      using None dv by (simp add: column_datums_def)
    ultimately show ?thesis using same p1 by (intro conjI exI [of _ "[]"]) simp_all
  next
    case (Some c)
    show ?thesis
    proof (cases "ke_type c = kColumnId")
      case False
      with r Some have "st' = ?st1" by simp
      moreover have "column_datums env schema i d = Inr []"
        using Some False dv by (simp add: column_datums_def)
      ultimately show ?thesis using same p1 by (intro conjI exI [of _ "[]"]) simp_all
    next
      case True
      from r Some True have "VERIFY_RESULT (ext (column_by_id schema (GetColumnId c))) (\<lambda>col.
                 VERIFY_RESULT
                   (AddColumnToMap env col (primitive_value dv) DatumMessagePB_default)
                   (\<lambda>dm. Inr (set_row_message
                             ((l_row_message ?st1)\<lparr>new_tuple := new_tuple (l_row_message ?st1) @ [dm],
                                 old_tuple := old_tuple (l_row_message ?st1) @ [DatumMessagePB_default]\<rparr>) ?st1)))
            = Inr st'" by simp
      from this [unfolded VERIFY_RESULT_eq_Inr ext_eq_Inr] obtain col dm where
        col: "column_by_id schema (GetColumnId c) = Inr col"
        and dm: "AddColumnToMap env col (primitive_value dv) DatumMessagePB_default = Inr dm"
        and s: "Inr (set_row_message
                             ((l_row_message ?st1)\<lparr>new_tuple := new_tuple (l_row_message ?st1) @ [dm],
                                 old_tuple := old_tuple (l_row_message ?st1) @ [DatumMessagePB_default]\<rparr>) ?st1)
                = (Inr st' :: Status + IntentLoop)"
        by blast
      have cd: "column_datums env schema i d = Inr [dm]"
        using Some True dv col dm by (simp add: column_datums_def)
      from s have st': "st' = set_row_message
                             ((l_row_message st)\<lparr>new_tuple := new_tuple (l_row_message st) @ [dm],
                                 old_tuple := old_tuple (l_row_message st) @ [DatumMessagePB_default]\<rparr>) ?st1"
        unfolding rm1 by simp
      have "l_proto_record st' =
             (l_proto_record st)\<lparr>row_message := add_columns [dm] (l_row_message st)\<rparr>"
        unfolding st' by (simp add: set_row_message_def add_columns_def placeholders_def)
      moreover have "l_col_count st' = l_col_count ?st1" unfolding st' by simp
      ultimately show ?thesis using cd by (intro conjI exI [of _ "[dm]"]) simp_all
    qed
  qed
  with c1 show "\<exists>cols. column_datums env schema i d = Inr cols \<and>
           l_proto_record st' =
             (l_proto_record st)\<lparr>row_message := add_columns cols (l_row_message st)\<rparr>"
    and "l_col_count st' =
           (if enable_single_record_update (FLAGS env) \<or> op (l_row_message st) = Op_INSERT
            then size_t_inc (l_col_count st) else l_col_count st)"
    by simp_all
qed

lemma emit_or_hold_effect:
  fixes st :: IntentLoop and tname :: string
  defines "pr \<equiv> (l_proto_record st)\<lparr>row_message := (l_row_message st)\<lparr>table := tname\<rparr>\<rparr>"
  shows "emit_condition env schema (op (l_row_message st)) (l_col_count st) \<Longrightarrow>
           l_records (emit_or_hold env op_id schema tname st i) = l_records st @ [stamped op_id i pr] \<and>
           l_proto_record (emit_or_hold env op_id schema tname st i) = stamped op_id i pr \<and>
           l_reverse_index_key (emit_or_hold env op_id schema tname st i) = reverse_index_key i \<and>
           l_write_id (emit_or_hold env op_id schema tname st i) = write_id i \<and>
           l_prev_intent (emit_or_hold env op_id schema tname st i) = l_prev_intent st"
    and "\<not> emit_condition env schema (op (l_row_message st)) (l_col_count st) \<Longrightarrow>
           l_records (emit_or_hold env op_id schema tname st i) = l_records st \<and>
           l_proto_record (emit_or_hold env op_id schema tname st i) = pr \<and>
           l_reverse_index_key (emit_or_hold env op_id schema tname st i) = l_reverse_index_key st \<and>
           l_write_id (emit_or_hold env op_id schema tname st i) = l_write_id st \<and>
           l_prev_intent (emit_or_hold env op_id schema tname st i) =
             (if enable_single_record_update (FLAGS env) \<and> op (l_row_message st) = Op_UPDATE
              then i else l_prev_intent st)"
  by (auto simp: emit_or_hold_def emit_condition_def Let_def pr_def set_row_message_def
      MakeNewProtoRecord_def stamped_def l_row_message_def split: if_splits)

lemma stamped_record_of: "stamped op_id i pr = record_of op_id i (row_message pr)"
  by (simp add: stamped_def record_of_def)

lemma record_of_fields [simp]:
  "row_message (record_of op_id i rm) = rm"
  "write_id_key (cdc_sdk_op_id (record_of op_id i rm)) = reverse_index_key i"
  "rec_write_id (cdc_sdk_op_id (record_of op_id i rm)) = write_id i"
  by (simp_all add: record_of_def SetCDCSDKOpId_def)

lemma intent_step_effect:
  assumes d: "decode_intent env i = Inr d" and nk: "\<not> is_key_column_intent schema d"
    and step: "intent_step env op_id txn schema tname st i = Inr st'"
  defines "n \<equiv> compute_new_cdc_record_needed env schema st i d"
  defines "flushed \<equiv>
     (if n \<and> enable_single_record_update (FLAGS env) \<and> op (l_row_message st) = Op_UPDATE
      then [record_of op_id (l_prev_intent st) (l_row_message st)] else [])"
  defines "c2 \<equiv> (if n then opened_col_count env schema d else l_col_count st)"
  shows "\<exists>base cols.
    (n \<longrightarrow> AddPrimaryKey env (d_decoded_key d) schema (opened_row txn schema d) = Inr base) \<and>
    (n \<longrightarrow> op base = opened_op d) \<and>
    (\<not> n \<longrightarrow> base = l_row_message st) \<and>
    (op base = Op_INSERT \<or> op base = Op_UPDATE \<longrightarrow> column_datums env schema i d = Inr cols) \<and>
    (op base \<noteq> Op_INSERT \<and> op base \<noteq> Op_UPDATE \<longrightarrow> cols = []) \<and>
    l_row_message st' = (add_columns cols base)\<lparr>table := tname\<rparr> \<and>
    (emit_condition env schema (op base) (counted env (op base) c2) \<longrightarrow>
       l_records st' = l_records st @ flushed @ [record_of op_id i (l_row_message st')] \<and>
       l_reverse_index_key st' = reverse_index_key i \<and> l_write_id st' = write_id i) \<and>
    (\<not> emit_condition env schema (op base) (counted env (op base) c2) \<longrightarrow>
       l_records st' = l_records st @ flushed \<and>
       l_reverse_index_key st' =
         (if flushed = [] then l_reverse_index_key st else reverse_index_key (l_prev_intent st)) \<and>
       l_write_id st' =
         (if n \<and> opened_op d \<noteq> Op_INSERT then write_id i
          else if flushed = [] then l_write_id st else write_id (l_prev_intent st)) \<and>
       (enable_single_record_update (FLAGS env) \<and> op base = Op_UPDATE \<longrightarrow> l_prev_intent st' = i)) \<and>
    l_col_count st' =
       (if emit_condition env schema (op base) (counted env (op base) c2) \<and>
           enable_single_record_update (FLAGS env)
        then num_columns schema else counted env (op base) c2)"
proof -
  let ?st1 = "st\<lparr>l_new_cdc_record_needed := n\<rparr>"
  from step [unfolded intent_step_unfold [OF d nk] VERIFY_RESULT_eq_Inr, folded n_def]
  obtain s2 s4 where
    s2: "(if n then open_new_record env op_id txn schema ?st1 i d else Inr ?st1) = Inr s2"
    and s4: "(if IsInsertOrUpdate (l_row_message s2)
               then add_column_value env schema
                      (s2\<lparr>l_prev_key := d_primary_key d,
                           l_prev_intent_phy_time := GetPhysicalValueMicros env (intent_ht i)\<rparr>) i d
               else Inr (s2\<lparr>l_prev_key := d_primary_key d,
                           l_prev_intent_phy_time := GetPhysicalValueMicros env (intent_ht i)\<rparr>))
              = Inr s4"
    and s': "Inr (emit_or_hold env op_id schema tname s4 i) = (Inr st' :: Status + IntentLoop)"
    by blast
  let ?s3 = "s2\<lparr>l_prev_key := d_primary_key d,
                 l_prev_intent_phy_time := GetPhysicalValueMicros env (intent_ht i)\<rparr>"
  define base where "base = l_row_message s2"
  have b1: "AddPrimaryKey env (d_decoded_key d) schema (opened_row txn schema d) = Inr base"
    "op base = opened_op d" if n
  proof -
    from s2 that have o: "open_new_record env op_id txn schema ?st1 i d = Inr s2" by simp
    from open_new_record_effect(1) [OF o] obtain rm where
      rm: "AddPrimaryKey env (d_decoded_key d) schema (opened_row txn schema d) = Inr rm"
      "l_proto_record s2 = CDCSDKProtoRecordPB_Clear\<lparr>row_message := rm\<rparr>" by blast
    then have "base = rm" by (simp add: base_def l_row_message_def)
    with rm show "AddPrimaryKey env (d_decoded_key d) schema (opened_row txn schema d) = Inr base"
      by simp
    from AddPrimaryKey_fields(1) [OF this] show "op base = opened_op d"
      by (simp add: opened_row_def)
  qed
  have b2: "base = l_row_message st" "s2 = ?st1" if "\<not> n"
    using s2 that by (auto simp: base_def)
  have r2: "l_records s2 = l_records st @ flushed"
  proof (cases n)
    case True
    with s2 have o: "open_new_record env op_id txn schema ?st1 i d = Inr s2" by simp
    from open_new_record_effect(2) [OF o] True show ?thesis
      by (simp add: flushed_def stamped_record_of l_row_message_def)
  next
    case False
    with b2 show ?thesis by (simp add: flushed_def)
  qed
  have k2: "l_reverse_index_key s2 =
         (if flushed = [] then l_reverse_index_key st else reverse_index_key (l_prev_intent st))"
  proof (cases n)
    case True
    with s2 have o: "open_new_record env op_id txn schema ?st1 i d = Inr s2" by simp
    from open_new_record_effect(4) [OF o] True show ?thesis by (simp add: flushed_def)
  next
    case False
    with b2 show ?thesis by (simp add: flushed_def)
  qed
  have w2: "l_write_id s2 =
         (if n \<and> opened_op d \<noteq> Op_INSERT then write_id i
          else if flushed = [] then l_write_id st else write_id (l_prev_intent st))"
  proof (cases n)
    case True
    with s2 have o: "open_new_record env op_id txn schema ?st1 i d = Inr s2" by simp
    from open_new_record_effect(5) [OF o] True show ?thesis by (simp add: flushed_def)
  next
    case False
    with b2 show ?thesis by (simp add: flushed_def)
  qed
  have p2: "l_prev_intent s2 = l_prev_intent st"
  proof (cases n)
    case True
    with s2 have o: "open_new_record env op_id txn schema ?st1 i d = Inr s2" by simp
    from open_new_record_effect(3) [OF o] show ?thesis by simp
  next
    case False
    with b2 show ?thesis by simp
  qed
  have c2: "l_col_count s2 = c2"
  proof (cases n)
    case True
    with s2 have o: "open_new_record env op_id txn schema ?st1 i d = Inr s2" by simp
    from open_new_record_effect(6) [OF o] True show ?thesis by (simp add: c2_def)
  next
    case False
    with b2 show ?thesis by (simp add: c2_def)
  qed
  have iu: "IsInsertOrUpdate (l_row_message s2) \<longleftrightarrow> op base = Op_INSERT \<or> op base = Op_UPDATE"
    by (simp add: IsInsertOrUpdate_def IsInitialized_def base_def)
  have keeps: "l_records s4 = l_records s2 \<and> l_reverse_index_key s4 = l_reverse_index_key s2 \<and>
      l_write_id s4 = l_write_id s2 \<and> l_prev_intent s4 = l_prev_intent s2"
  proof (cases "IsInsertOrUpdate (l_row_message s2)")
    case True
    with s4 have a: "add_column_value env schema ?s3 i d = Inr s4" by simp
    from add_column_value_keeps(4-7) [OF a] show ?thesis by simp
  next
    case False
    with s4 show ?thesis by auto
  qed
  obtain cols where
    cols1: "op base = Op_INSERT \<or> op base = Op_UPDATE \<Longrightarrow> column_datums env schema i d = Inr cols"
    and cols2: "op base \<noteq> Op_INSERT \<Longrightarrow> op base \<noteq> Op_UPDATE \<Longrightarrow> cols = []"
    and r4: "l_row_message s4 = add_columns cols base"
    and c4: "l_col_count s4 = counted env (op base) c2"
  proof (cases "IsInsertOrUpdate (l_row_message s2)")
    case True
    with s4 have a: "add_column_value env schema ?s3 i d = Inr s4" by simp
    from add_column_value_effect(1) [OF a] obtain cols where
      cd: "column_datums env schema i d = Inr cols" and
      pr: "l_proto_record s4 = (l_proto_record ?s3)\<lparr>row_message := add_columns cols (l_row_message ?s3)\<rparr>"
      by blast
    from pr have "l_row_message s4 = add_columns cols base"
      by (simp add: l_row_message_def base_def)
    moreover from add_column_value_effect(2) [OF a] True iu c2
    have "l_col_count s4 = counted env (op base) c2"
      by (auto simp: counted_def base_def)
    ultimately show ?thesis using that [of cols] cd True iu by auto
  next
    case False
    with s4 have "s4 = ?s3" by simp
    then have "l_row_message s4 = add_columns [] base" "l_col_count s4 = counted env (op base) c2"
      using False iu c2 by (auto simp: base_def counted_def)
    then show ?thesis using that [of "[]"] False iu by auto
  qed
  from s' have st': "st' = emit_or_hold env op_id schema tname s4 i" by simp
  have pr4: "(l_proto_record s4)\<lparr>row_message := (l_row_message s4)\<lparr>table := tname\<rparr>\<rparr> =
        (l_proto_record s4)\<lparr>row_message := (add_columns cols base)\<lparr>table := tname\<rparr>\<rparr>"
    by (simp add: r4)
  have rm': "l_row_message st' = (add_columns cols base)\<lparr>table := tname\<rparr>"
    unfolding st' by (simp add: emit_or_hold_def Let_def r4)
  have o4: "op (l_row_message s4) = op base" by (simp add: r4)
  have e1: "l_records st' = l_records st @ flushed @ [record_of op_id i (l_row_message st')] \<and>
       l_reverse_index_key st' = reverse_index_key i \<and> l_write_id st' = write_id i"
    if "emit_condition env schema (op base) (counted env (op base) c2)"
    using emit_or_hold_effect(1) [of env schema s4 op_id tname i] that
    unfolding st' [symmetric] o4 c4 rm' pr4
    by (simp add: keeps r2 stamped_record_of)
  have e2: "l_records st' = l_records st @ flushed \<and>
       l_reverse_index_key st' =
         (if flushed = [] then l_reverse_index_key st else reverse_index_key (l_prev_intent st)) \<and>
       l_write_id st' =
         (if n \<and> opened_op d \<noteq> Op_INSERT then write_id i
          else if flushed = [] then l_write_id st else write_id (l_prev_intent st)) \<and>
       (enable_single_record_update (FLAGS env) \<and> op base = Op_UPDATE \<longrightarrow> l_prev_intent st' = i)"
    if "\<not> emit_condition env schema (op base) (counted env (op base) c2)"
    using emit_or_hold_effect(2) [of env schema s4 op_id tname i] that
    unfolding st' [symmetric] o4 c4
    by (simp add: keeps r2 k2 w2)
  have cc: "l_col_count st' =
       (if emit_condition env schema (op base) (counted env (op base) c2) \<and>
           enable_single_record_update (FLAGS env)
        then num_columns schema else counted env (op base) c2)"
    unfolding st' using c4 o4
    by (auto simp: emit_or_hold_def Let_def emit_condition_def)
  show ?thesis
    by (intro exI [of _ base] exI [of _ cols] conjI)
      (use b1 b2(1) cols1 cols2 rm' e1 e2 cc in \<open>blast+\<close>)
qed

lemma folded_intoI:
  "decode_intent env j = Inr dj \<Longrightarrow> \<not> is_key_column_intent schema dj \<Longrightarrow>
   intent_loop env op_id txn schema tname st0 (done @ [j]) = Inr s \<Longrightarrow>
   folded_into env op_id txn schema tname st0 done j (l_row_message s)"
  by (simp add: folded_into_def)

lemma intent_loop_snoc:
  "intent_loop env op_id txn schema tname st0 (xs @ [i]) = Inr st' \<longleftrightarrow>
   (\<exists>st. intent_loop env op_id txn schema tname st0 xs = Inr st \<and>
         intent_step env op_id txn schema tname st i = Inr st')"
  by (simp add: intent_loop_append VERIFY_RESULT_eq_Inr)

lemma intent_step_decodes:
  "intent_step env op_id txn schema tname st i = Inr st' \<Longrightarrow> \<exists>d. decode_intent env i = Inr d"
  by (auto simp: intent_step_def VERIFY_RESULT_eq_Inr)

lemma folded_into_table:
  assumes "folded_into env op_id txn schema tname st0 done j rm"
  shows "table rm = tname"
proof -
  from assms obtain dj s where dj: "decode_intent env j = Inr dj" "\<not> is_key_column_intent schema dj"
    and s: "intent_loop env op_id txn schema tname st0 (done @ [j]) = Inr s" and rm: "rm = l_row_message s"
    by (auto simp: folded_into_def split: sum.splits)
  from s obtain st where "intent_step env op_id txn schema tname st j = Inr s"
    unfolding intent_loop_snoc by blast
  from intent_step_effect [OF dj this] obtain base cols where
    "l_row_message s = (add_columns cols base)\<lparr>table := tname\<rparr>" by blast
  with rm show ?thesis by simp
qed

lemma emit_condition_single:
  "enable_single_record_update (FLAGS env) \<Longrightarrow>
   emit_condition env schema o1 c \<longleftrightarrow> (o1 = Op_INSERT \<and> c = num_columns schema) \<or> o1 = Op_DELETE"
  by (simp add: emit_condition_def)

lemma emit_condition_not_single:
  "\<not> enable_single_record_update (FLAGS env) \<Longrightarrow>
   emit_condition env schema o1 c \<longleftrightarrow>
     (o1 = Op_INSERT \<and> c = num_columns schema) \<or> o1 = Op_UPDATE \<or> o1 = Op_DELETE"
  by (auto simp add: emit_condition_def)

lemma emit_condition_row:
  "emit_condition env schema o1 c \<Longrightarrow> o1 = Op_INSERT \<or> o1 = Op_UPDATE \<or> o1 = Op_DELETE"
  by (auto simp: emit_condition_def split: if_splits)

text \<open>After an intent that is not one of a key column, a pending UPDATE has it as the previous intent.\<close>
lemma intent_step_prev_intent:
  assumes d: "decode_intent env i = Inr d" and nk: "\<not> is_key_column_intent schema d"
    and step: "intent_step env op_id txn schema tname st i = Inr st'"
    and single: "enable_single_record_update (FLAGS env)"
    and u: "op (l_row_message st') = Op_UPDATE"
  shows "l_prev_intent st' = i"
proof -
  from intent_step_effect [OF d nk step] obtain base cols where
    rm: "l_row_message st' = (add_columns cols base)\<lparr>table := tname\<rparr>"
    and e2: "\<not> emit_condition env schema (op base)
               (counted env (op base) (if compute_new_cdc_record_needed env schema st i d
                then opened_col_count env schema d else l_col_count st)) \<longrightarrow>
       (enable_single_record_update (FLAGS env) \<and> op base = Op_UPDATE \<longrightarrow> l_prev_intent st' = i)"
    by blast
  from rm u have ob: "op base = Op_UPDATE" by simp
  with single have "\<not> emit_condition env schema (op base)
               (counted env (op base) (if compute_new_cdc_record_needed env schema st i d
                then opened_col_count env schema d else l_col_count st))"
    by (simp add: emit_condition_single)
  with e2 single ob show ?thesis by simp
qed

subsection \<open>C3: when the packed mode opens a new record\<close>

lemma flush_condition_needed:
  assumes single: "enable_single_record_update (FLAGS env)"
    and prev: "decode_intent env p = Inr dp" "\<not> is_key_column_intent schema dp"
    and skipped: "all_key_column_intents env schema ks"
    and before: "intent_loop env op_id txn schema tname st0 (pre @ [p] @ ks) = Inr st1"
    and cur: "decode_intent env i = Inr d" "\<not> is_key_column_intent schema d"
    and step: "intent_step env op_id txn schema tname st1 i = Inr st2"
  shows "l_new_cdc_record_needed st2 = compute_new_cdc_record_needed env schema st1 i d"
    and "compute_new_cdc_record_needed env schema st1 i d \<longleftrightarrow>
           (d_primary_key d \<noteq> d_primary_key dp \<or> l_col_count st1 \<ge> num_columns schema \<or>
            is_root_tombstone d \<or>
            GetPhysicalValueMicros env (intent_ht i) \<noteq> GetPhysicalValueMicros env (intent_ht p))"
    and "op (l_row_message st1) = Op_UPDATE \<longrightarrow> l_prev_intent st1 = p"
proof -
  from before obtain sa sb where
    sa: "intent_loop env op_id txn schema tname st0 pre = Inr sa" and
    sb: "intent_step env op_id txn schema tname sa p = Inr sb" and
    sc: "intent_loop env op_id txn schema tname sb ks = Inr st1"
    by (auto simp: intent_loop_append VERIFY_RESULT_eq_Inr)
  from intent_step_other [OF prev sb]
  have "l_prev_key sb = d_primary_key dp"
    "l_prev_intent_phy_time sb = GetPhysicalValueMicros env (intent_ht p)" by simp_all
  with intent_loop_key_columns [OF skipped sc]
  have k: "l_prev_key st1 = d_primary_key dp"
    "l_prev_intent_phy_time st1 = GetPhysicalValueMicros env (intent_ht p)" by simp_all
  show "l_new_cdc_record_needed st2 = compute_new_cdc_record_needed env schema st1 i d"
    by (rule intent_step_other(3) [OF cur step])
  from k single
  show "compute_new_cdc_record_needed env schema st1 i d \<longleftrightarrow>
           (d_primary_key d \<noteq> d_primary_key dp \<or> l_col_count st1 \<ge> num_columns schema \<or>
            is_root_tombstone d \<or>
            GetPhysicalValueMicros env (intent_ht i) \<noteq> GetPhysicalValueMicros env (intent_ht p))"
    by (auto simp: compute_new_cdc_record_needed_def)
  from intent_loop_key_columns [OF skipped sc]
  have same: "l_proto_record st1 = l_proto_record sb" "l_prev_intent st1 = l_prev_intent sb"
    by simp_all
  show "op (l_row_message st1) = Op_UPDATE \<longrightarrow> l_prev_intent st1 = p"
  proof
    assume "op (l_row_message st1) = Op_UPDATE"
    with same have "op (l_row_message sb) = Op_UPDATE" by (simp add: l_row_message_def)
    from intent_step_prev_intent [OF prev sb single this] same show "l_prev_intent st1 = p"
      by simp
  qed
qed

lemma flush_condition_records:
  assumes single: "enable_single_record_update (FLAGS env)"
    and cur: "decode_intent env i = Inr d" "\<not> is_key_column_intent schema d"
    and step: "intent_step env op_id txn schema tname st1 i = Inr st2"
  shows "compute_new_cdc_record_needed env schema st1 i d \<longrightarrow>
           (\<exists>base cols.
              AddPrimaryKey env (d_decoded_key d) schema (opened_row txn schema d) = Inr base \<and>
              (if opened_op d = Op_DELETE then cols = []
               else column_datums env schema i d = Inr cols) \<and>
              l_row_message st2 = (add_columns cols base)\<lparr>table := tname\<rparr> \<and>
              l_records st2 =
                l_records st1 @
                (if op (l_row_message st1) = Op_UPDATE
                 then [record_of op_id (l_prev_intent st1) (l_row_message st1)] else []) @
                (if emit_condition env schema (opened_op d)
                      (counted env (opened_op d) (opened_col_count env schema d))
                 then [record_of op_id i (l_row_message st2)] else []))"
    and "\<not> compute_new_cdc_record_needed env schema st1 i d \<and> op (l_row_message st1) = Op_UPDATE \<longrightarrow>
           (\<exists>cols. column_datums env schema i d = Inr cols \<and>
              l_row_message st2 = (add_columns cols (l_row_message st1))\<lparr>table := tname\<rparr> \<and>
              l_records st2 = l_records st1 \<and> l_prev_intent st2 = i)"
proof -
  let ?n = "compute_new_cdc_record_needed env schema st1 i d"
  let ?fl = "(if ?n \<and> enable_single_record_update (FLAGS env) \<and> op (l_row_message st1) = Op_UPDATE
      then [record_of op_id (l_prev_intent st1) (l_row_message st1)] else [])"
  let ?c2 = "(if ?n then opened_col_count env schema d else l_col_count st1)"
  from intent_step_effect [OF cur step] obtain base cols where
    b1: "?n \<longrightarrow> AddPrimaryKey env (d_decoded_key d) schema (opened_row txn schema d) = Inr base"
    and b2: "?n \<longrightarrow> op base = opened_op d"
    and b3: "\<not> ?n \<longrightarrow> base = l_row_message st1"
    and c1: "op base = Op_INSERT \<or> op base = Op_UPDATE \<longrightarrow> column_datums env schema i d = Inr cols"
    and c2: "op base \<noteq> Op_INSERT \<and> op base \<noteq> Op_UPDATE \<longrightarrow> cols = []"
    and rm: "l_row_message st2 = (add_columns cols base)\<lparr>table := tname\<rparr>"
    and e1: "emit_condition env schema (op base) (counted env (op base) ?c2) \<longrightarrow>
       l_records st2 = l_records st1 @ ?fl @ [record_of op_id i (l_row_message st2)] \<and>
       l_reverse_index_key st2 = reverse_index_key i \<and> l_write_id st2 = write_id i"
    and e2: "\<not> emit_condition env schema (op base) (counted env (op base) ?c2) \<longrightarrow>
       l_records st2 = l_records st1 @ ?fl \<and>
       l_reverse_index_key st2 =
         (if ?fl = [] then l_reverse_index_key st1 else reverse_index_key (l_prev_intent st1)) \<and>
       l_write_id st2 =
         (if ?n \<and> opened_op d \<noteq> Op_INSERT then write_id i
          else if ?fl = [] then l_write_id st1 else write_id (l_prev_intent st1)) \<and>
       (enable_single_record_update (FLAGS env) \<and> op base = Op_UPDATE \<longrightarrow> l_prev_intent st2 = i)"
    by (elim exE conjE) (rule that)
  show "?n \<longrightarrow>
           (\<exists>base cols.
              AddPrimaryKey env (d_decoded_key d) schema (opened_row txn schema d) = Inr base \<and>
              (if opened_op d = Op_DELETE then cols = []
               else column_datums env schema i d = Inr cols) \<and>
              l_row_message st2 = (add_columns cols base)\<lparr>table := tname\<rparr> \<and>
              l_records st2 =
                l_records st1 @
                (if op (l_row_message st1) = Op_UPDATE
                 then [record_of op_id (l_prev_intent st1) (l_row_message st1)] else []) @
                (if emit_condition env schema (opened_op d)
                      (counted env (opened_op d) (opened_col_count env schema d))
                 then [record_of op_id i (l_row_message st2)] else []))"
  proof
    assume n: ?n
    from b2 n have ob: "op base = opened_op d" by simp
    have cols: "(if opened_op d = Op_DELETE then cols = []
               else column_datums env schema i d = Inr cols)"
      using c1 c2 ob opened_op_cases [of d] by auto
    have recs: "l_records st2 =
                l_records st1 @
                (if op (l_row_message st1) = Op_UPDATE
                 then [record_of op_id (l_prev_intent st1) (l_row_message st1)] else []) @
                (if emit_condition env schema (opened_op d)
                      (counted env (opened_op d) (opened_col_count env schema d))
                 then [record_of op_id i (l_row_message st2)] else [])"
    proof (cases "emit_condition env schema (opened_op d)
                      (counted env (opened_op d) (opened_col_count env schema d))")
      case True
      with e1 n ob single show ?thesis by simp
    next
      case False
      with e2 n ob single show ?thesis by simp
    qed
    from b1 n cols rm recs show "\<exists>base cols.
              AddPrimaryKey env (d_decoded_key d) schema (opened_row txn schema d) = Inr base \<and>
              (if opened_op d = Op_DELETE then cols = []
               else column_datums env schema i d = Inr cols) \<and>
              l_row_message st2 = (add_columns cols base)\<lparr>table := tname\<rparr> \<and>
              l_records st2 =
                l_records st1 @
                (if op (l_row_message st1) = Op_UPDATE
                 then [record_of op_id (l_prev_intent st1) (l_row_message st1)] else []) @
                (if emit_condition env schema (opened_op d)
                      (counted env (opened_op d) (opened_col_count env schema d))
                 then [record_of op_id i (l_row_message st2)] else [])"
      by blast
  qed
  show "\<not> ?n \<and> op (l_row_message st1) = Op_UPDATE \<longrightarrow>
           (\<exists>cols. column_datums env schema i d = Inr cols \<and>
              l_row_message st2 = (add_columns cols (l_row_message st1))\<lparr>table := tname\<rparr> \<and>
              l_records st2 = l_records st1 \<and> l_prev_intent st2 = i)"
  proof
    assume a: "\<not> ?n \<and> op (l_row_message st1) = Op_UPDATE"
    then have n: "\<not> ?n" and u: "op (l_row_message st1) = Op_UPDATE" by simp_all
    from b3 n have bs: "base = l_row_message st1" by simp
    with u have ob: "op base = Op_UPDATE" by simp
    with single have ne: "\<not> emit_condition env schema (op base) (counted env (op base) ?c2)"
      by (simp add: emit_condition_single)
    from e2 ne n single ob have "l_records st2 = l_records st1" "l_prev_intent st2 = i"
      by simp_all
    moreover from c1 ob have "column_datums env schema i d = Inr cols" by simp
    ultimately show "\<exists>cols. column_datums env schema i d = Inr cols \<and>
              l_row_message st2 = (add_columns cols (l_row_message st1))\<lparr>table := tname\<rparr> \<and>
              l_records st2 = l_records st1 \<and> l_prev_intent st2 = i"
      using rm bs by blast
  qed
qed

text \<open>
  C3. With \<open>enable_single_record_update\<close> set, let \<open>i\<close> be an intent that is not a
  key-column intent, let \<open>p\<close> be the last intent before it that is not one (key-column
  intents between them are skipped by the loop), and let \<open>st1\<close> be the state of the loop
  before \<open>i\<close>. Then the loop opens a new CDC record for \<open>i\<close> if and only if the whole
  document key of \<open>i\<close> differs from that of \<open>p\<close>, or the column count has reached
  \<open>num_columns\<close>, or the value of \<open>i\<close> is a tombstone on a key with no subkeys, or the
  physical microseconds of the two hybrid times differ.

  Opening a record means: a pending UPDATE is added to the response as it stands, stamped
  with \<open>p\<close>, the last intent folded into it; the record under construction is cleared and
  given the operation of \<open>i\<close>, the transaction id and the primary key of \<open>i\<close>; it then
  holds the column of \<open>i\<close> and no column of an earlier intent. So two updates of a row at
  different physical times end in two records. When no record is opened, a pending UPDATE
  stays pending, gets the column of \<open>i\<close>, and \<open>i\<close> becomes the intent it will be stamped with.
\<close>
theorem packed_update_flush_condition:
  assumes "enable_single_record_update (FLAGS env)"
    and "decode_intent env p = Inr dp" and "\<not> is_key_column_intent schema dp"
    and "all_key_column_intents env schema ks"
    and "intent_loop env op_id txn schema tname st0 (pre @ [p] @ ks) = Inr st1"
    and "decode_intent env i = Inr d" and "\<not> is_key_column_intent schema d"
    and "intent_step env op_id txn schema tname st1 i = Inr st2"
  shows "(l_new_cdc_record_needed st2 \<longleftrightarrow>
           (d_primary_key d \<noteq> d_primary_key dp \<or> l_col_count st1 \<ge> num_columns schema \<or>
            is_root_tombstone d \<or>
            GetPhysicalValueMicros env (intent_ht i) \<noteq> GetPhysicalValueMicros env (intent_ht p)))
       \<and> (l_new_cdc_record_needed st2 \<longrightarrow>
           (\<exists>base cols.
              AddPrimaryKey env (d_decoded_key d) schema (opened_row txn schema d) = Inr base \<and>
              (if opened_op d = Op_DELETE then cols = []
               else column_datums env schema i d = Inr cols) \<and>
              l_row_message st2 = (add_columns cols base)\<lparr>table := tname\<rparr> \<and>
              l_records st2 =
                l_records st1 @
                (if op (l_row_message st1) = Op_UPDATE
                 then [record_of op_id p (l_row_message st1)] else []) @
                (if emit_condition env schema (opened_op d)
                      (counted env (opened_op d) (opened_col_count env schema d))
                 then [record_of op_id i (l_row_message st2)] else [])))
       \<and> (\<not> l_new_cdc_record_needed st2 \<and> op (l_row_message st1) = Op_UPDATE \<longrightarrow>
           (\<exists>cols. column_datums env schema i d = Inr cols \<and>
              l_row_message st2 = (add_columns cols (l_row_message st1))\<lparr>table := tname\<rparr> \<and>
              l_records st2 = l_records st1 \<and> l_prev_intent st2 = i))"
proof -
  note a = flush_condition_needed [OF assms]
  note b = flush_condition_records [OF assms(1,6,7,8)]
  from a(3) have p: "(if op (l_row_message st1) = Op_UPDATE
                 then [record_of op_id (l_prev_intent st1) (l_row_message st1)] else []) =
        (if op (l_row_message st1) = Op_UPDATE
                 then [record_of op_id p (l_row_message st1)] else [])"
    by simp
  from a(1,2) b [unfolded p] show ?thesis by (simp only:)
qed

theorem packed_update_flush_condition_witness:
  "\<exists>st1 st2.
     intent_loop (ex_env True [] \<lparr>ats_key = [], ats_write_id = 0\<rparr>)
       \<lparr>opid_term = 1, opid_index = 7\<rparr> ''tx'' ex_schema ''t'' (IntentLoop_init [] 0 [])
       ([] @ [ex_intent ''a1'' ''v'' 1 4096] @ [ex_intent ''a0'' ''k'' 2 4096]) = Inr st1 \<and>
     intent_step (ex_env True [] \<lparr>ats_key = [], ats_write_id = 0\<rparr>)
       \<lparr>opid_term = 1, opid_index = 7\<rparr> ''tx'' ex_schema ''t'' st1
       (ex_intent ''a2'' ''w'' 3 8192) = Inr st2 \<and>
     l_new_cdc_record_needed st2 \<and> l_col_count st1 < num_columns ex_schema \<and>
     op (l_row_message st1) = Op_UPDATE \<and>
     map (\<lambda>r. (op (row_message r), length (new_tuple (row_message r)),
                rec_write_id (cdc_sdk_op_id r))) (l_records st2) =
       [(Op_UPDATE, 2, 1)] \<and>
     op (l_row_message st2) = Op_UPDATE \<and>
     length (new_tuple (l_row_message st2)) = 2"
proof -
  define env where "env = ex_env True [] \<lparr>ats_key = [], ats_write_id = 0\<rparr>"
  define st1 where "st1 = projr (intent_loop env \<lparr>opid_term = 1, opid_index = 7\<rparr> ''tx''
       ex_schema ''t'' (IntentLoop_init [] 0 [])
       ([] @ [ex_intent ''a1'' ''v'' 1 4096] @ [ex_intent ''a0'' ''k'' 2 4096]))"
  define st2 where "st2 = projr (intent_step env \<lparr>opid_term = 1, opid_index = 7\<rparr> ''tx''
       ex_schema ''t'' st1 (ex_intent ''a2'' ''w'' 3 8192))"
  have l1: "intent_loop env \<lparr>opid_term = 1, opid_index = 7\<rparr> ''tx''
       ex_schema ''t'' (IntentLoop_init [] 0 [])
       ([] @ [ex_intent ''a1'' ''v'' 1 4096] @ [ex_intent ''a0'' ''k'' 2 4096]) = Inr st1"
    by (simp add: st1_def env_def intent_defs ex_defs Let_def)
  have l2: "intent_step env \<lparr>opid_term = 1, opid_index = 7\<rparr> ''tx''
       ex_schema ''t'' st1 (ex_intent ''a2'' ''w'' 3 8192) = Inr st2"
    by (simp add: st2_def st1_def env_def intent_defs ex_defs Let_def)
  have c: "l_col_count st1 < num_columns ex_schema \<and> op (l_row_message st1) = Op_UPDATE"
    by (simp add: st1_def env_def intent_defs ex_defs Let_def)
  have n: "map (\<lambda>r. (op (row_message r), length (new_tuple (row_message r)),
                rec_write_id (cdc_sdk_op_id r))) (l_records st2) =
       [(Op_UPDATE, 2, 1)] \<and>
     op (l_row_message st2) = Op_UPDATE \<and>
     length (new_tuple (l_row_message st2)) = 2"
    by (simp add: st2_def st1_def env_def intent_defs ex_defs Let_def)
  have needed: "l_new_cdc_record_needed st2"
    using packed_update_flush_condition [of env "ex_intent ''a1'' ''v'' 1 4096" _ ex_schema
        "[ex_intent ''a0'' ''k'' 2 4096]" "\<lparr>opid_term = 1, opid_index = 7\<rparr>" "''tx''" "''t''"
        "IntentLoop_init [] 0 []" "[]" st1 "ex_intent ''a2'' ''w'' 3 8192" _ st2, OF _ _ _ _ l1 _ _ l2]
    by (simp add: env_def all_key_column_intents_def intent_defs ex_defs Let_def)
  note f = l1 l2 c n needed
  show ?thesis
    apply (rule exI [of _ st1])
    apply (rule exI [of _ st2])
    using f [unfolded env_def] by simp
qed

subsection \<open>The last intent folded into an emitted record\<close>

lemma last_foldedI:
  assumes "xs = ys @ j # zs" and "row_message r = rm"
    and "r = record_of op_id j rm"
    and "folded_into env op_id txn schema tname st0 ys j rm"
    and "g \<Longrightarrow> no_key_column_intents env schema zs \<Longrightarrow>
           key = reverse_index_key j \<and> wid = write_id j"
  shows "last_folded env op_id txn schema tname st0 xs r g key wid"
  unfolding last_folded_def using assms by blast

lemma no_key_column_intents_snoc:
  "no_key_column_intents env schema (zs @ [i]) \<longleftrightarrow>
     no_key_column_intents env schema zs \<and> no_key_column_intents env schema [i]"
  by (simp add: no_key_column_intents_def)

lemma last_folded_snoc:
  assumes "last_folded env op_id txn schema tname st0 xs r g key wid"
    and "g' \<Longrightarrow> no_key_column_intents env schema [i] \<Longrightarrow> g \<and> key' = key \<and> wid' = wid"
  shows "last_folded env op_id txn schema tname st0 (xs @ [i]) r g' key' wid'"
proof -
  from assms(1) obtain ys j zs where a: "xs = ys @ j # zs" "r = record_of op_id j (row_message r)"
    "folded_into env op_id txn schema tname st0 ys j (row_message r)"
    and c: "g \<and> no_key_column_intents env schema zs \<longrightarrow>
           key = reverse_index_key j \<and> wid = write_id j"
    unfolding last_folded_def by blast
  have "xs @ [i] = ys @ j # (zs @ [i])" using a(1) by simp
  moreover have "g' \<and> no_key_column_intents env schema (zs @ [i]) \<longrightarrow>
           key' = reverse_index_key j \<and> wid' = write_id j"
    using assms(2) c unfolding no_key_column_intents_snoc by blast
  ultimately show ?thesis unfolding last_folded_def using a(2,3) by blast
qed

lemma key_column_not_no_key:
  "decode_intent env i = Inr d \<Longrightarrow> is_key_column_intent schema d \<Longrightarrow>
   \<not> no_key_column_intents env schema [i]"
  by (simp add: no_key_column_intents_def)

lemma invs_key_column_step:
  assumes d: "decode_intent env i = Inr d" and k: "is_key_column_intent schema d"
    and step: "intent_step env op_id txn schema tname st i = Inr st'"
    and p: "pending_inv env op_id txn schema tname st0 xs st"
    and e: "emitted_inv env op_id txn schema tname st0 xs st"
  shows "pending_inv env op_id txn schema tname st0 (xs @ [i]) st'"
    and "emitted_inv env op_id txn schema tname st0 (xs @ [i]) st'"
proof -
  from step have st': "st' = st\<lparr>l_write_id := write_id i, l_reverse_index_key := reverse_index_key i\<rparr>"
    by (simp add: intent_step_key_column [OF d k])
  then have same: "l_row_message st' = l_row_message st" "l_prev_intent st' = l_prev_intent st"
    "l_records st' = l_records st" by simp_all
  have ak: "all_key_column_intents env schema (ks @ [i])"
    if "all_key_column_intents env schema ks" for ks
    using that d k by (simp add: all_key_column_intents_def)
  show "pending_inv env op_id txn schema tname st0 (xs @ [i]) st'"
    unfolding pending_inv_def same
  proof
    assume "enable_single_record_update (FLAGS env) \<and> op (l_row_message st) = Op_UPDATE"
    with p obtain ys j ks where "xs = ys @ j # ks" "all_key_column_intents env schema ks"
      "l_prev_intent st = j" "folded_into env op_id txn schema tname st0 ys j (l_row_message st)"
      unfolding pending_inv_def by blast
    then have "xs @ [i] = ys @ j # (ks @ [i])" "all_key_column_intents env schema (ks @ [i])"
      "l_prev_intent st = j" "folded_into env op_id txn schema tname st0 ys j (l_row_message st)"
      using ak by simp_all
    then show "\<exists>ys j ks. xs @ [i] = ys @ j # ks \<and> all_key_column_intents env schema ks \<and>
          l_prev_intent st = j \<and>
          folded_into env op_id txn schema tname st0 ys j (l_row_message st)"
      by blast
  qed
  from e obtain em where em: "l_records st = l_records st0 @ em" "list_all is_row_record em"
    and l: "em \<noteq> [] \<Longrightarrow> last_folded env op_id txn schema tname st0 xs (last em)
             (\<not> (enable_single_record_update (FLAGS env) \<and> op (l_row_message st) = Op_UPDATE))
             (l_reverse_index_key st) (l_write_id st)"
    unfolding emitted_inv_def by blast
  have "last_folded env op_id txn schema tname st0 (xs @ [i]) (last em)
             (\<not> (enable_single_record_update (FLAGS env) \<and> op (l_row_message st') = Op_UPDATE))
             (l_reverse_index_key st') (l_write_id st')" if "em \<noteq> []"
    using key_column_not_no_key [OF d k] by (intro last_folded_snoc [OF l [OF that]]) simp
  with em show "emitted_inv env op_id txn schema tname st0 (xs @ [i]) st'"
    unfolding emitted_inv_def same by blast
qed

lemma invs_step:
  assumes d: "decode_intent env i = Inr d" and nk: "\<not> is_key_column_intent schema d"
    and loop: "intent_loop env op_id txn schema tname st0 xs = Inr st"
    and step: "intent_step env op_id txn schema tname st i = Inr st'"
    and p: "pending_inv env op_id txn schema tname st0 xs st"
    and e: "emitted_inv env op_id txn schema tname st0 xs st"
  shows "pending_inv env op_id txn schema tname st0 (xs @ [i]) st'"
    and "emitted_inv env op_id txn schema tname st0 (xs @ [i]) st'"
proof -
  let ?single = "enable_single_record_update (FLAGS env)"
  let ?n = "compute_new_cdc_record_needed env schema st i d"
  let ?fl = "(if ?n \<and> ?single \<and> op (l_row_message st) = Op_UPDATE
      then [record_of op_id (l_prev_intent st) (l_row_message st)] else [])"
  let ?c2 = "(if ?n then opened_col_count env schema d else l_col_count st)"
  from intent_step_effect [OF d nk step] obtain base cols where
    b1: "?n \<longrightarrow> AddPrimaryKey env (d_decoded_key d) schema (opened_row txn schema d) = Inr base"
    and b2: "?n \<longrightarrow> op base = opened_op d"
    and b3: "\<not> ?n \<longrightarrow> base = l_row_message st"
    and c1: "op base = Op_INSERT \<or> op base = Op_UPDATE \<longrightarrow> column_datums env schema i d = Inr cols"
    and c2: "op base \<noteq> Op_INSERT \<and> op base \<noteq> Op_UPDATE \<longrightarrow> cols = []"
    and rm: "l_row_message st' = (add_columns cols base)\<lparr>table := tname\<rparr>"
    and e1: "emit_condition env schema (op base) (counted env (op base) ?c2) \<longrightarrow>
       l_records st' = l_records st @ ?fl @ [record_of op_id i (l_row_message st')] \<and>
       l_reverse_index_key st' = reverse_index_key i \<and> l_write_id st' = write_id i"
    and e2: "\<not> emit_condition env schema (op base) (counted env (op base) ?c2) \<longrightarrow>
       l_records st' = l_records st @ ?fl \<and>
       l_reverse_index_key st' =
         (if ?fl = [] then l_reverse_index_key st else reverse_index_key (l_prev_intent st)) \<and>
       l_write_id st' =
         (if ?n \<and> opened_op d \<noteq> Op_INSERT then write_id i
          else if ?fl = [] then l_write_id st else write_id (l_prev_intent st)) \<and>
       (?single \<and> op base = Op_UPDATE \<longrightarrow> l_prev_intent st' = i)"
    by (elim exE conjE) (rule that)
  define E where "E = emit_condition env schema (op base) (counted env (op base) ?c2)"
  define fl where "fl = ?fl"
  note e1 = e1 [folded E_def fl_def] and e2 = e2 [folded E_def fl_def]
  have o': "op (l_row_message st') = op base" using rm by simp
  have loop': "intent_loop env op_id txn schema tname st0 (xs @ [i]) = Inr st'"
    unfolding intent_loop_snoc using loop step by blast
  have F: "folded_into env op_id txn schema tname st0 xs i (l_row_message st')"
    by (rule folded_intoI [OF d nk loop'])
  have E_row: "op base = Op_INSERT \<or> op base = Op_UPDATE \<or> op base = Op_DELETE" if E
    using that unfolding E_def by (rule emit_condition_row)
  have notE: "op base \<noteq> Op_DELETE \<and> (op base = Op_UPDATE \<longrightarrow> ?single)" if "\<not> E"
    using that unfolding E_def by (auto simp: emit_condition_def split: if_splits)
  have E_single: "op base \<noteq> Op_UPDATE" if E ?single
    using that unfolding E_def by (auto simp: emit_condition_single)
  show "pending_inv env op_id txn schema tname st0 (xs @ [i]) st'"
    unfolding pending_inv_def
  proof
    assume a: "?single \<and> op (l_row_message st') = Op_UPDATE"
    with o' have ob: "op base = Op_UPDATE" by simp
    with a E_single have "\<not> E" by blast
    with e2 a ob have "l_prev_intent st' = i" by blast
    moreover have "xs @ [i] = xs @ i # []" by simp
    moreover have "all_key_column_intents env schema []" by (simp add: all_key_column_intents_def)
    ultimately show "\<exists>ys j ks. xs @ [i] = ys @ j # ks \<and> all_key_column_intents env schema ks \<and>
          l_prev_intent st' = j \<and>
          folded_into env op_id txn schema tname st0 ys j (l_row_message st')"
      using F by blast
  qed
  from e obtain em where em: "l_records st = l_records st0 @ em" "list_all is_row_record em"
    and l: "em \<noteq> [] \<Longrightarrow> last_folded env op_id txn schema tname st0 xs (last em)
             (\<not> (?single \<and> op (l_row_message st) = Op_UPDATE))
             (l_reverse_index_key st) (l_write_id st)"
    unfolding emitted_inv_def by blast
  have fl_cases: "fl = [] \<or> (fl = [record_of op_id (l_prev_intent st) (l_row_message st)] \<and>
       ?n \<and> ?single \<and> op (l_row_message st) = Op_UPDATE)"
    by (simp add: fl_def)
  have fl_rows: "list_all is_row_record fl"
    using fl_cases by (auto simp: is_row_record_def)
  let ?g' = "\<not> (?single \<and> op (l_row_message st') = Op_UPDATE)"
  show "emitted_inv env op_id txn schema tname st0 (xs @ [i]) st'"
  proof (cases E)
    case True
    let ?r = "record_of op_id i (l_row_message st')"
    from e1 True have r: "l_records st' = l_records st0 @ (em @ fl @ [?r])"
      and c: "l_reverse_index_key st' = reverse_index_key i \<and> l_write_id st' = write_id i"
      using em(1) by simp_all
    have "is_row_record ?r" using E_row [OF True] o' by (simp add: is_row_record_def)
    with em(2) fl_rows have rows: "list_all is_row_record (em @ fl @ [?r])" by simp
    have "last_folded env op_id txn schema tname st0 (xs @ [i]) ?r ?g'
             (l_reverse_index_key st') (l_write_id st')"
      by (rule last_foldedI [where ys = xs and j = i and zs = "[]" and rm = "l_row_message st'"])
        (use F c in simp_all)
    then have "last_folded env op_id txn schema tname st0 (xs @ [i]) (last (em @ fl @ [?r])) ?g'
             (l_reverse_index_key st') (l_write_id st')" by simp
    with r rows show ?thesis unfolding emitted_inv_def by blast
  next
    case False
    note nE = notE [OF False]
    from e2 False have r: "l_records st' = l_records st0 @ (em @ fl)"
      and k: "l_reverse_index_key st' =
         (if fl = [] then l_reverse_index_key st else reverse_index_key (l_prev_intent st))"
      and w: "l_write_id st' =
         (if ?n \<and> opened_op d \<noteq> Op_INSERT then write_id i
          else if fl = [] then l_write_id st else write_id (l_prev_intent st))"
      using em(1) by simp_all
    from em(2) fl_rows have rows: "list_all is_row_record (em @ fl)" by simp
    \<comment> \<open>a record opened and not added at once, with no UPDATE held back, is an INSERT\<close>
    have ins: "opened_op d = Op_INSERT" if "?g'" ?n
    proof -
      from b2 that have ob: "op base = opened_op d" by simp
      with nE that(1) o' have "opened_op d \<noteq> Op_DELETE" "opened_op d \<noteq> Op_UPDATE" by auto
      with opened_op_cases [of d] show ?thesis by blast
    qed
    have "last_folded env op_id txn schema tname st0 (xs @ [i]) (last (em @ fl)) ?g'
             (l_reverse_index_key st') (l_write_id st')" if ne: "em @ fl \<noteq> []"
    proof (cases "fl = []")
      case True
      with ne have "em \<noteq> []" by simp
      note lf = l [OF this]
      have "\<not> (?single \<and> op (l_row_message st) = Op_UPDATE) \<and>
            l_reverse_index_key st' = l_reverse_index_key st \<and> l_write_id st' = l_write_id st"
        if g: "?g'"
      proof -
        have "\<not> (?single \<and> op (l_row_message st) = Op_UPDATE)"
        proof
          assume a: "?single \<and> op (l_row_message st) = Op_UPDATE"
          with True have "\<not> ?n" by (auto simp: fl_def)
          with b3 a have "op base = Op_UPDATE" by simp
          with o' a g show False by simp
        qed
        moreover have nw: "\<not> (?n \<and> opened_op d \<noteq> Op_INSERT)" using ins [OF g] by blast
        moreover note k [unfolded if_P [OF True]] w [unfolded if_not_P [OF nw] if_P [OF True]]
        ultimately show ?thesis by blast
      qed
      then have "last_folded env op_id txn schema tname st0 (xs @ [i]) (last em) ?g'
             (l_reverse_index_key st') (l_write_id st')"
        by (intro last_folded_snoc [OF lf]) blast
      with True show ?thesis by simp
    next
      case False
      with fl_cases have fl: "fl = [record_of op_id (l_prev_intent st) (l_row_message st)]"
        and n: ?n and u: "?single \<and> op (l_row_message st) = Op_UPDATE" by blast+
      from p u obtain ys j ks where xs: "xs = ys @ j # ks"
        and ks: "all_key_column_intents env schema ks" and j: "l_prev_intent st = j"
        and fj: "folded_into env op_id txn schema tname st0 ys j (l_row_message st)"
        unfolding pending_inv_def by blast
      have c: "l_reverse_index_key st' = reverse_index_key j \<and> l_write_id st' = write_id j"
        if g: "?g'"
      proof -
        have nw: "\<not> (?n \<and> opened_op d \<noteq> Op_INSERT)" using ins [OF g n] by blast
        from k [unfolded if_not_P [OF False]] w [unfolded if_not_P [OF nw] if_not_P [OF False]] j
        show ?thesis by blast
      qed
      have "last_folded env op_id txn schema tname st0 (xs @ [i])
              (record_of op_id j (l_row_message st)) ?g'
              (l_reverse_index_key st') (l_write_id st')"
        by (rule last_foldedI [where ys = ys and j = j and zs = "ks @ [i]"
              and rm = "l_row_message st"])
          (use xs fj c in simp_all)
      with fl j show ?thesis by simp
    qed
    with r rows show ?thesis unfolding emitted_inv_def by blast
  qed
qed

lemma intent_loop_invs:
  assumes "intent_loop env op_id txn schema tname st0 xs = Inr st"
    and "op (l_row_message st0) \<noteq> Op_UPDATE"
  shows "pending_inv env op_id txn schema tname st0 xs st \<and>
         emitted_inv env op_id txn schema tname st0 xs st"
  using assms(1)
proof (induction xs arbitrary: st rule: rev_induct)
  case Nil
  then have "st = st0" by simp
  with assms(2) show ?case by (simp add: pending_inv_def emitted_inv_def)
next
  case (snoc i xs)
  from snoc.prems obtain s where s: "intent_loop env op_id txn schema tname st0 xs = Inr s"
    and step: "intent_step env op_id txn schema tname s i = Inr st"
    unfolding intent_loop_snoc by blast
  from snoc.IH [OF s] have p: "pending_inv env op_id txn schema tname st0 xs s"
    and e: "emitted_inv env op_id txn schema tname st0 xs s" by simp_all
  from intent_step_decodes [OF step] obtain d where d: "decode_intent env i = Inr d" by blast
  show ?case
  proof (cases "is_key_column_intent schema d")
    case True
    from invs_key_column_step [OF d True step p e] show ?thesis by simp
  next
    case False
    from invs_step [OF d False s step p e] show ?thesis by simp
  qed
qed

lemma PopulateCDCSDKIntentRecord_cursor:
  assumes "PopulateCDCSDKIntentRecord env op_id txn intents records w0 k0 schema
             = Inr (records', wid, rkey)"
    and t: "shared_tablet_safe env = Inr tablet"
  shows "\<exists>em. records' = records @ em \<and> list_all is_row_record em \<and>
           (em \<noteq> [] \<longrightarrow>
              last_folded env op_id txn schema (table_name tablet)
                (IntentLoop_init records w0 k0) intents (last em) True rkey wid)"
proof -
  let ?tn = "table_name tablet" and ?st0 = "IntentLoop_init records w0 k0"
  from assms(1) [unfolded PopulateCDCSDKIntentRecord_def t ext_Inr VERIFY_RESULT_Inr
      VERIFY_RESULT_eq_Inr Let_def]
  obtain st where
    l: "intent_loop env op_id txn schema ?tn ?st0 intents = Inr st"
    and f0: "Inr (l_records (final_flush env op_id ?tn st),
                  l_write_id (final_flush env op_id ?tn st),
                  l_reverse_index_key (final_flush env op_id ?tn st)) =
             (Inr (records', wid, rkey) :: Status + _)"
    by blast
  from f0 have f: "records' = l_records (final_flush env op_id ?tn st)"
       "wid = l_write_id (final_flush env op_id ?tn st)"
       "rkey = l_reverse_index_key (final_flush env op_id ?tn st)"
    by simp_all
  have "op (l_row_message ?st0) \<noteq> Op_UPDATE"
    by (simp add: IntentLoop_init_def l_row_message_def CDCSDKProtoRecordPB_Clear_def
        RowMessage_Clear_def)
  from intent_loop_invs [OF l this]
  have p: "pending_inv env op_id txn schema ?tn ?st0 intents st"
    and e: "emitted_inv env op_id txn schema ?tn ?st0 intents st" by simp_all
  have r0: "l_records ?st0 = records" by (simp add: IntentLoop_init_def)
  from e obtain em where em: "l_records st = records @ em" "list_all is_row_record em"
    and lf: "em \<noteq> [] \<Longrightarrow> last_folded env op_id txn schema ?tn ?st0 intents (last em)
             (\<not> (enable_single_record_update (FLAGS env) \<and> op (l_row_message st) = Op_UPDATE))
             (l_reverse_index_key st) (l_write_id st)"
    unfolding emitted_inv_def r0 by blast
  show ?thesis
  proof (cases "enable_single_record_update (FLAGS env) \<and> op (l_row_message st) = Op_UPDATE")
    case True
    with p obtain ys j ks where xs: "intents = ys @ j # ks"
      and j: "l_prev_intent st = j"
      and fj: "folded_into env op_id txn schema ?tn ?st0 ys j (l_row_message st)"
      unfolding pending_inv_def by blast
    from folded_into_table [OF fj]
    have tb: "(l_row_message st)\<lparr>table := ?tn\<rparr> = l_row_message st" by simp
    let ?r = "record_of op_id j (l_row_message st)"
    from True have ff: "final_flush env op_id ?tn st =
        MakeNewProtoRecord j op_id (set_row_message (l_row_message st) st)"
      by (simp add: final_flush_def IsInitialized_def tb j)
    have "records' = records @ (em @ [?r])" "wid = write_id j" "rkey = reverse_index_key j"
      unfolding f ff using em(1) by (simp_all add: stamped_record_of l_row_message_def
          set_row_message_def)
    moreover have "list_all is_row_record (em @ [?r])"
      using em(2) True by (simp add: is_row_record_def)
    moreover have "last_folded env op_id txn schema ?tn ?st0 intents ?r True rkey wid"
      by (rule last_foldedI [where ys = ys and j = j and zs = ks and rm = "l_row_message st"])
        (use xs fj calculation(2,3) in simp_all)
    ultimately show ?thesis by (intro exI [of _ "em @ [?r]"]) simp
  next
    case False
    then have "final_flush env op_id ?tn st = st" by (auto simp: final_flush_def)
    with f em have "records' = records @ em" "wid = l_write_id st" "rkey = l_reverse_index_key st"
      by simp_all
    moreover from lf False have "em \<noteq> [] \<Longrightarrow>
        last_folded env op_id txn schema ?tn ?st0 intents (last em) True
          (l_reverse_index_key st) (l_write_id st)" by simp
    ultimately show ?thesis using em(2) by blast
  qed
qed

subsection \<open>C2: the brackets of a transaction and the cursor to resume it\<close>


lemmas stamp_defs = last_stamp_def fresh_def no_key_column_intents_def is_row_record_def



subsection \<open>The tuples that the functions build\<close>

lemma placeholders_default [simp]:
  "list_all (\<lambda>d. d = DatumMessagePB_default) (placeholders n)"
  by (simp add: placeholders_def list_all_iff)

lemma placeholders_add: "placeholders m @ placeholders n = placeholders (m + n)"
  by (simp add: placeholders_def replicate_add)

lemma placeholders_Suc: "placeholders (Suc n) = DatumMessagePB_default # placeholders n"
  by (simp add: placeholders_def)

lemma placeholders_snoc: "placeholders n @ [DatumMessagePB_default] = placeholders (Suc n)"
  by (simp add: placeholders_def replicate_append_same)

lemma AddPrimaryKey_loop_tuples:
  assumes "AddPrimaryKey_loop env schema cols i rm = Inr rm'"
  shows "\<exists>ds. list_all2 (key_datum env schema) ds (zip cols [i ..< i + length cols]) \<and>
           (if op rm = Op_DELETE
            then old_tuple rm' = old_tuple rm @ ds \<and>
                 new_tuple rm' = new_tuple rm @ placeholders (length cols)
            else new_tuple rm' = new_tuple rm @ ds \<and>
                 old_tuple rm' = old_tuple rm @ placeholders (length cols))"
  using assms
proof (induction cols arbitrary: i rm)
  case Nil
  then show ?case by simp
next
  case (Cons c cols)
  obtain rm1 s where a: "AddTuple rm = (rm1, s)" by (cases "AddTuple rm")
  have sv: "slot_value rm1 s = DatumMessagePB_default"
    using a by (auto simp: AddTuple_def slot_value_def split: if_splits)
  have u: "AddPrimaryKey_loop env schema (c # cols) i rm =
        VERIFY_RESULT (AddColumnToMap env (column schema i) c DatumMessagePB_default)
          (\<lambda>d. AddPrimaryKey_loop env schema cols (i + 1) (fill_slot rm1 s d))"
    by (simp add: a sv)
  from Cons.prems [unfolded u VERIFY_RESULT_eq_Inr] obtain d where
    d: "AddColumnToMap env (column schema i) c DatumMessagePB_default = Inr d" and
    r: "AddPrimaryKey_loop env schema cols (i + 1) (fill_slot rm1 s d) = Inr rm'"
    by blast
  have f: "op (fill_slot rm1 s d) = op rm"
    "op rm = Op_DELETE \<Longrightarrow> old_tuple (fill_slot rm1 s d) = old_tuple rm @ [d] \<and>
        new_tuple (fill_slot rm1 s d) = new_tuple rm @ [DatumMessagePB_default]"
    "op rm \<noteq> Op_DELETE \<Longrightarrow> new_tuple (fill_slot rm1 s d) = new_tuple rm @ [d] \<and>
        old_tuple (fill_slot rm1 s d) = old_tuple rm @ [DatumMessagePB_default]"
    using a by (auto simp: AddTuple_def fill_slot_def split: if_splits)
  have z: "zip (c # cols) [i ..< i + length (c # cols)] =
             (c, i) # zip cols [i + 1 ..< i + 1 + length cols]"
    by (subst upt_rec) simp
  from Cons.IH [OF r] obtain ds where
    ds: "list_all2 (key_datum env schema) ds (zip cols [i + 1 ..< i + 1 + length cols])"
    and t: "op rm = Op_DELETE \<Longrightarrow>
              old_tuple rm' = old_tuple (fill_slot rm1 s d) @ ds \<and>
              new_tuple rm' = new_tuple (fill_slot rm1 s d) @ placeholders (length cols)"
        "op rm \<noteq> Op_DELETE \<Longrightarrow>
              new_tuple rm' = new_tuple (fill_slot rm1 s d) @ ds \<and>
              old_tuple rm' = old_tuple (fill_slot rm1 s d) @ placeholders (length cols)"
    unfolding f(1) by (auto split: if_splits)
  have kd: "list_all2 (key_datum env schema) (d # ds) (zip (c # cols) [i ..< i + length (c # cols)])"
    unfolding z using ds d by (simp add: key_datum_def)
  show ?case
  proof (cases "op rm = Op_DELETE")
    case True
    with t(1) f(2) have "old_tuple rm' = old_tuple rm @ (d # ds) \<and>
                 new_tuple rm' = new_tuple rm @ placeholders (length (c # cols))"
      by (simp add: placeholders_Suc)
    with kd True show ?thesis by (intro exI [of _ "d # ds"]) simp
  next
    case False
    with t(2) f(3) have "new_tuple rm' = new_tuple rm @ (d # ds) \<and>
                 old_tuple rm' = old_tuple rm @ placeholders (length (c # cols))"
      by (simp add: placeholders_Suc)
    with kd False show ?thesis by (intro exI [of _ "d # ds"]) simp
  qed
qed

lemma AddPrimaryKey_tuples:
  assumes "AddPrimaryKey env k schema rm = Inr rm'"
  shows "op rm' = op rm \<and>
         (\<exists>ds. key_datums env schema k ds \<and>
           (if op rm = Op_DELETE
            then old_tuple rm' = old_tuple rm @ ds \<and>
                 new_tuple rm' = new_tuple rm @ placeholders (key_count k)
            else new_tuple rm' = new_tuple rm @ ds \<and>
                 old_tuple rm' = old_tuple rm @ placeholders (key_count k)))"
proof -
  let ?h = "hashed_group (doc_key k)" and ?r = "range_group (doc_key k)"
  from assms obtain rm1 where
    a: "AddPrimaryKey_loop env schema ?h 0 rm = Inr rm1" and
    b: "AddPrimaryKey_loop env schema ?r (length ?h) rm1 = Inr rm'"
    by (auto simp: AddPrimaryKey_def VERIFY_RESULT_eq_Inr)
  from AddPrimaryKey_loop_fields [OF a] AddPrimaryKey_loop_fields [OF b]
  have o: "op rm1 = op rm" "op rm' = op rm" by simp_all
  from AddPrimaryKey_loop_tuples [OF a, simplified] obtain ds1 where
    ds1: "list_all2 (key_datum env schema) ds1 (zip ?h [0 ..< length ?h])"
    and t1: "(if op rm = Op_DELETE
            then old_tuple rm1 = old_tuple rm @ ds1 \<and>
                 new_tuple rm1 = new_tuple rm @ placeholders (length ?h)
            else new_tuple rm1 = new_tuple rm @ ds1 \<and>
                 old_tuple rm1 = old_tuple rm @ placeholders (length ?h))"
    by blast
  from AddPrimaryKey_loop_tuples [OF b, unfolded o] obtain ds2 where
    ds2: "list_all2 (key_datum env schema) ds2 (zip ?r [length ?h ..< length ?h + length ?r])"
    and t2: "(if op rm = Op_DELETE
            then old_tuple rm' = old_tuple rm1 @ ds2 \<and>
                 new_tuple rm' = new_tuple rm1 @ placeholders (length ?r)
            else new_tuple rm' = new_tuple rm1 @ ds2 \<and>
                 old_tuple rm' = old_tuple rm1 @ placeholders (length ?r))"
    by blast
  have z: "zip (?h @ ?r) [0 ..< key_count k] =
           zip ?h [0 ..< length ?h] @ zip ?r [length ?h ..< length ?h + length ?r]"
  proof -
    have "[0 ..< length ?h + length ?r] = [0 ..< length ?h] @ [length ?h ..< length ?h + length ?r]"
      using upt_add_eq_append [of 0 "length ?h" "length ?r"] by simp
    then show ?thesis by (simp add: key_count_def)
  qed
  have "key_datums env schema k (ds1 @ ds2)"
    unfolding key_datums_def z using ds1 ds2 by (rule list_all2_appendI)
  moreover have "(if op rm = Op_DELETE
            then old_tuple rm' = old_tuple rm @ (ds1 @ ds2) \<and>
                 new_tuple rm' = new_tuple rm @ placeholders (key_count k)
            else new_tuple rm' = new_tuple rm @ (ds1 @ ds2) \<and>
                 old_tuple rm' = old_tuple rm @ placeholders (key_count k))"
    using t1 t2 by (simp add: key_count_def placeholders_add)
  ultimately show ?thesis using o by (intro conjI exI [of _ "ds1 @ ds2"]) simp_all
qed

lemma key_datums_length: "key_datums env schema k ds \<Longrightarrow> length ds = key_count k"
  by (auto simp: key_datums_def key_count_def dest!: list_all2_lengthD)

lemma row_parity_table: "row_parity rm \<Longrightarrow> row_parity (rm\<lparr>table := t\<rparr>)"
  by (simp add: row_parity_def)

lemma row_parity_commit_time: "row_parity rm \<Longrightarrow> row_parity (rm\<lparr>commit_time := t\<rparr>)"
  by (simp add: row_parity_def)

lemma row_parity_add_columns:
  "row_parity rm \<Longrightarrow> op rm = Op_DELETE \<longrightarrow> cols = [] \<Longrightarrow> row_parity (add_columns cols rm)"
  by (auto simp: row_parity_def)

lemma row_parity_AddPrimaryKey:
  assumes "AddPrimaryKey env k schema rm = Inr rm'" and "old_tuple rm = []" "new_tuple rm = []"
  shows "row_parity rm'"
proof -
  from AddPrimaryKey_tuples [OF assms(1)] obtain ds where
    ds: "key_datums env schema k ds" and o: "op rm' = op rm"
    and t: "(if op rm = Op_DELETE
          then old_tuple rm' = old_tuple rm @ ds \<and>
               new_tuple rm' = new_tuple rm @ placeholders (key_count k)
          else new_tuple rm' = new_tuple rm @ ds \<and>
               old_tuple rm' = old_tuple rm @ placeholders (key_count k))"
    by blast
  show ?thesis
  proof (cases "op rm = Op_DELETE")
    case True
    with t assms(2,3) have "old_tuple rm' = ds" "new_tuple rm' = placeholders (key_count k)"
      by simp_all
    with key_datums_length [OF ds] show ?thesis by (simp add: row_parity_def)
  next
    case False
    with t assms(2,3) have "new_tuple rm' = ds" "old_tuple rm' = placeholders (key_count k)"
      by simp_all
    with key_datums_length [OF ds] False o show ?thesis by (simp add: row_parity_def)
  qed
qed

lemma opened_row_tuples [simp]:
  "old_tuple (opened_row txn schema d) = []" "new_tuple (opened_row txn schema d) = []"
  "op (opened_row txn schema d) = opened_op d"
  "transaction_id (opened_row txn schema d) = txn"
  by (simp_all add: opened_row_def RowMessage_Clear_def)

lemma intent_step_parity:
  assumes d: "decode_intent env i = Inr d" and nk: "\<not> is_key_column_intent schema d"
    and step: "intent_step env op_id txn schema tname st i = Inr st'"
    and inv: "row_parity (l_row_message st)"
  shows "row_parity (l_row_message st')"
    and "\<exists>em. l_records st' = l_records st @ em \<and> list_all (\<lambda>r. row_parity (row_message r)) em"
proof -
  let ?n = "compute_new_cdc_record_needed env schema st i d"
  let ?fl = "(if ?n \<and> enable_single_record_update (FLAGS env) \<and> op (l_row_message st) = Op_UPDATE
      then [record_of op_id (l_prev_intent st) (l_row_message st)] else [])"
  let ?c2 = "(if ?n then opened_col_count env schema d else l_col_count st)"
  from intent_step_effect [OF d nk step] obtain base cols where
    b1: "?n \<longrightarrow> AddPrimaryKey env (d_decoded_key d) schema (opened_row txn schema d) = Inr base"
    and b2: "?n \<longrightarrow> op base = opened_op d"
    and b3: "\<not> ?n \<longrightarrow> base = l_row_message st"
    and c1: "op base = Op_INSERT \<or> op base = Op_UPDATE \<longrightarrow> column_datums env schema i d = Inr cols"
    and c2: "op base \<noteq> Op_INSERT \<and> op base \<noteq> Op_UPDATE \<longrightarrow> cols = []"
    and rm: "l_row_message st' = (add_columns cols base)\<lparr>table := tname\<rparr>"
    and e1: "emit_condition env schema (op base) (counted env (op base) ?c2) \<longrightarrow>
       l_records st' = l_records st @ ?fl @ [record_of op_id i (l_row_message st')] \<and>
       l_reverse_index_key st' = reverse_index_key i \<and> l_write_id st' = write_id i"
    and e2: "\<not> emit_condition env schema (op base) (counted env (op base) ?c2) \<longrightarrow>
       l_records st' = l_records st @ ?fl \<and>
       l_reverse_index_key st' =
         (if ?fl = [] then l_reverse_index_key st else reverse_index_key (l_prev_intent st)) \<and>
       l_write_id st' =
         (if ?n \<and> opened_op d \<noteq> Op_INSERT then write_id i
          else if ?fl = [] then l_write_id st else write_id (l_prev_intent st)) \<and>
       (enable_single_record_update (FLAGS env) \<and> op base = Op_UPDATE \<longrightarrow> l_prev_intent st' = i)"
    by (elim exE conjE) (rule that)
  have pb: "row_parity base"
  proof (cases ?n)
    case True
    with b1 have "AddPrimaryKey env (d_decoded_key d) schema (opened_row txn schema d) = Inr base"
      by simp
    then show ?thesis by (rule row_parity_AddPrimaryKey) simp_all
  next
    case False
    with b3 inv show ?thesis by simp
  qed
  from c2 have "op base = Op_DELETE \<longrightarrow> cols = []" by simp
  from row_parity_table [OF row_parity_add_columns [OF pb this]] rm
  show p': "row_parity (l_row_message st')" by simp
  have fl: "list_all (\<lambda>r. row_parity (row_message r)) ?fl" using inv by simp
  show "\<exists>em. l_records st' = l_records st @ em \<and> list_all (\<lambda>r. row_parity (row_message r)) em"
  proof (cases "emit_condition env schema (op base) (counted env (op base) ?c2)")
    case True
    with e1 have "l_records st' = l_records st @ (?fl @ [record_of op_id i (l_row_message st')])"
      by simp
    moreover have "list_all (\<lambda>r. row_parity (row_message r))
        (?fl @ [record_of op_id i (l_row_message st')])"
      using fl p' by simp
    ultimately show ?thesis by blast
  next
    case False
    with e2 have "l_records st' = l_records st @ ?fl" by simp
    with fl show ?thesis by blast
  qed
qed

lemma intent_loop_parity:
  assumes "intent_loop env op_id txn schema tname st xs = Inr st'"
    and "row_parity (l_row_message st)"
  shows "row_parity (l_row_message st') \<and>
         (\<exists>em. l_records st' = l_records st @ em \<and> list_all (\<lambda>r. row_parity (row_message r)) em)"
  using assms
proof (induction xs arbitrary: st)
  case Nil
  then show ?case by simp
next
  case (Cons i xs)
  from Cons.prems(1) obtain s where s: "intent_step env op_id txn schema tname st i = Inr s"
    and r: "intent_loop env op_id txn schema tname s xs = Inr st'"
    by (auto simp: VERIFY_RESULT_eq_Inr)
  from intent_step_decodes [OF s] obtain d where d: "decode_intent env i = Inr d" by blast
  have "row_parity (l_row_message s) \<and>
        (\<exists>em. l_records s = l_records st @ em \<and> list_all (\<lambda>r. row_parity (row_message r)) em)"
  proof (cases "is_key_column_intent schema d")
    case True
    from s have "s = st\<lparr>l_write_id := write_id i, l_reverse_index_key := reverse_index_key i\<rparr>"
      by (simp add: intent_step_key_column [OF d True])
    with Cons.prems(2) show ?thesis by simp
  next
    case False
    from intent_step_parity [OF d False s Cons.prems(2)] show ?thesis by simp
  qed
  then obtain em1 where p: "row_parity (l_row_message s)"
    and e1: "l_records s = l_records st @ em1" "list_all (\<lambda>r. row_parity (row_message r)) em1"
    by blast
  from Cons.IH [OF r p] obtain em2 where p': "row_parity (l_row_message st')"
    and e2: "l_records st' = l_records s @ em2" "list_all (\<lambda>r. row_parity (row_message r)) em2"
    by blast
  from e1 e2 have "l_records st' = l_records st @ (em1 @ em2)"
    "list_all (\<lambda>r. row_parity (row_message r)) (em1 @ em2)" by simp_all
  with p' show ?case by blast
qed

lemma PopulateCDCSDKIntentRecord_parity:
  assumes "PopulateCDCSDKIntentRecord env op_id txn intents records w0 k0 schema
             = Inr (records', wid, rkey)"
  shows "\<exists>em. records' = records @ em \<and> list_all (\<lambda>r. row_parity (row_message r)) em"
proof -
  from assms [unfolded PopulateCDCSDKIntentRecord_def VERIFY_RESULT_eq_Inr ext_eq_Inr Let_def]
  obtain tablet :: Tablet and st where
    l: "intent_loop env op_id txn schema (table_name tablet) (IntentLoop_init records w0 k0)
          intents = Inr st"
    and f0: "Inr (l_records (final_flush env op_id (table_name tablet) st),
                  l_write_id (final_flush env op_id (table_name tablet) st),
                  l_reverse_index_key (final_flush env op_id (table_name tablet) st)) =
             (Inr (records', wid, rkey) :: Status + _)"
    by blast
  have "row_parity (l_row_message (IntentLoop_init records w0 k0))"
    by (simp add: IntentLoop_init_def l_row_message_def CDCSDKProtoRecordPB_Clear_def
        RowMessage_Clear_def row_parity_def)
  from intent_loop_parity [OF l this] obtain em where p: "row_parity (l_row_message st)"
    and em: "l_records st = records @ em" "list_all (\<lambda>r. row_parity (row_message r)) em"
    by (auto simp: IntentLoop_init_def)
  from f0 have f: "records' = l_records (final_flush env op_id (table_name tablet) st)" by simp
  show ?thesis
  proof (cases "enable_single_record_update (FLAGS env) \<and> op (l_row_message st) = Op_UPDATE")
    case True
    let ?r = "record_of op_id (l_prev_intent st) ((l_row_message st)\<lparr>table := table_name tablet\<rparr>)"
    from True f em(1) have "records' = records @ (em @ [?r])"
      by (simp add: final_flush_def IsInitialized_def stamped_record_of set_row_message_def
          l_row_message_def)
    moreover have "list_all (\<lambda>r. row_parity (row_message r)) (em @ [?r])"
      using em(2) row_parity_table [OF p] by simp
    ultimately show ?thesis by blast
  next
    case False
    then have "final_flush env op_id (table_name tablet) st = st" by (auto simp: final_flush_def)
    with f em show ?thesis by auto
  qed
qed

lemma write_new_record_unfold:
  assumes "write_new_record env tablet msg schema key key_size v = Inr r"
  shows "\<exists>(k :: SubDocKey) (rm1 :: RowMessage) (rm2 :: RowMessage) t.
           AddPrimaryKey env k schema rm1 = Inr rm2 \<and>
           rm1 = SetOperation (RowMessage_Clear\<lparr>pgschema_name := SchemaName schema,
                    table := table_name tablet\<rparr>) t schema \<and>
           row_message r = rm2\<lparr>commit_time := hybrid_time msg\<rparr>"
proof -
  let ?rm0 = "RowMessage_Clear\<lparr>pgschema_name := SchemaName schema, table := table_name tablet\<rparr>"
  from assms [unfolded write_new_record_def Let_def VERIFY_RESULT_eq_Inr ext_eq_Inr]
  obtain k :: SubDocKey and rm1 rm2 :: RowMessage where
    b: "(if value_type v = kTombstone \<and> num_subkeys k = 0
            then Inr (SetOperation ?rm0 Op_DELETE schema)
            else VERIFY_RESULT (ext (DecodeKey env (drop key_size key))) (\<lambda>cid.
                   if ke_type cid = kSystemColumnId \<and> value_type v = kNullLow
                   then Inr (SetOperation ?rm0 Op_INSERT schema)
                   else Inr (SetOperation ?rm0 Op_UPDATE schema))) = (Inr rm1 :: Status + RowMessage)"
    and a: "AddPrimaryKey env k schema rm1 = Inr rm2"
    and r: "Inr \<lparr>row_message = rm2\<lparr>commit_time := hybrid_time msg\<rparr>,
                cdc_sdk_op_id = SetCDCSDKOpId (opid_term (msg_id msg)) (opid_index (msg_id msg)) 0 []\<rparr>
            = (Inr r :: Status + CDCSDKProtoRecordPB)"
    by blast
  from r have r': "row_message r = rm2\<lparr>commit_time := hybrid_time msg\<rparr>"
    by (metis CDCSDKProtoRecordPB.select_convs(1) sum.inject(2))
  have e: "\<exists>t. rm1 = SetOperation ?rm0 t schema"
  proof (cases "value_type v = kTombstone \<and> num_subkeys k = 0")
    case True
    from b have "Inr (SetOperation ?rm0 Op_DELETE schema) = (Inr rm1 :: Status + RowMessage)"
      by (simp only: if_P [OF True])
    then show ?thesis by blast
  next
    case False
    from b have "VERIFY_RESULT (ext (DecodeKey env (drop key_size key))) (\<lambda>cid.
                   if ke_type cid = kSystemColumnId \<and> value_type v = kNullLow
                   then Inr (SetOperation ?rm0 Op_INSERT schema)
                   else Inr (SetOperation ?rm0 Op_UPDATE schema)) = (Inr rm1 :: Status + RowMessage)"
      by (simp only: if_not_P [OF False])
    from this [unfolded VERIFY_RESULT_eq_Inr] obtain cid :: KeyEntryValue where
      c: "(if ke_type cid = kSystemColumnId \<and> value_type v = kNullLow
                   then Inr (SetOperation ?rm0 Op_INSERT schema)
                   else Inr (SetOperation ?rm0 Op_UPDATE schema)) = (Inr rm1 :: Status + RowMessage)"
      by blast
    show ?thesis
    proof (cases "ke_type cid = kSystemColumnId \<and> value_type v = kNullLow")
      case True
      from c have "Inr (SetOperation ?rm0 Op_INSERT schema) = (Inr rm1 :: Status + RowMessage)"
        by (simp only: if_P [OF True])
      then show ?thesis by blast
    next
      case False
      from c have "Inr (SetOperation ?rm0 Op_UPDATE schema) = (Inr rm1 :: Status + RowMessage)"
        by (simp only: if_not_P [OF False])
      then show ?thesis by blast
    qed
  qed
  from a e r' show ?thesis by blast
qed

lemma write_new_record_parity:
  assumes "write_new_record env tablet msg schema key key_size v = Inr r"
  shows "row_parity (row_message r)"
proof -
  from write_new_record_unfold [OF assms] obtain k rm1 rm2 t where
    a: "AddPrimaryKey env k schema rm1 = Inr rm2"
    and rm1: "rm1 = SetOperation (RowMessage_Clear\<lparr>pgschema_name := SchemaName schema,
                    table := table_name tablet\<rparr>) t schema"
    and r: "row_message r = rm2\<lparr>commit_time := hybrid_time msg\<rparr>"
    by blast
  from rm1 have "old_tuple rm1 = []" "new_tuple rm1 = []" by (simp_all add: RowMessage_Clear_def)
  from row_parity_AddPrimaryKey [OF a this] r show ?thesis
    by (simp add: row_parity_commit_time)
qed

lemma write_column_parity:
  assumes "write_column env schema key key_size v rm = Inr rm'" and "row_parity rm"
  shows "row_parity rm'"
proof (cases "IsInsertOrUpdate rm")
  case False
  with assms show ?thesis by (simp add: write_column_def)
next
  case True
  then have nd: "op rm \<noteq> Op_DELETE" by (auto simp: IsInsertOrUpdate_def)
  from assms(1) True obtain cid :: KeyEntryValue where
    c: "(if ke_type cid = kColumnId then
            VERIFY_RESULT (ext (column_by_id schema (GetColumnId cid))) (\<lambda>col.
            VERIFY_RESULT
              (AddColumnToMap env col (primitive_value v) DatumMessagePB_default)
              (\<lambda>dm. Inr (rm\<lparr>new_tuple := new_tuple rm @ [dm],
                             old_tuple := old_tuple rm @ [DatumMessagePB_default]\<rparr>)))
          else Inr rm) = (Inr rm' :: Status + RowMessage)"
    by (auto simp: write_column_def VERIFY_RESULT_eq_Inr)
  show ?thesis
  proof (cases "ke_type cid = kColumnId")
    case True
    with c obtain dm where "rm' = rm\<lparr>new_tuple := new_tuple rm @ [dm],
                             old_tuple := old_tuple rm @ [DatumMessagePB_default]\<rparr>"
      by (auto simp: VERIFY_RESULT_eq_Inr)
    with assms(2) nd show ?thesis by (simp add: row_parity_def)
  next
    case False
    with c assms(2) show ?thesis by simp
  qed
qed

lemma write_pair_step_parity:
  assumes inv: "write_inv R st"
    and step: "write_pair_step env tablet msg schema st wp = Inr st'"
  shows "write_inv R st'"
proof -
  from step [unfolded write_pair_step_def Let_def VERIFY_RESULT_eq_Inr ext_eq_Inr]
  obtain key_size and v :: Value and st1 :: WriteLoop where
    s1: "(if w_prev_key st \<noteq> take key_size (fst wp)
         then VERIFY_RESULT (write_new_record env tablet msg schema (fst wp) key_size v)
                (\<lambda>r. Inr (st\<lparr>w_records := WriteLoop_records st, w_current := Some r\<rparr>))
         else Inr st) = (Inr st1 :: Status + WriteLoop)"
    and s2: "(case w_current st1 of
        None \<Rightarrow> Inl (Aborted ''DCHECK(proto_record)'')
      | Some r \<Rightarrow>
          VERIFY_RESULT (write_column env schema (fst wp) key_size v (row_message r))
            (\<lambda>rm. Inr (st1\<lparr>w_current := Some (r\<lparr>row_message := rm\<rparr>),
                            w_prev_key := take key_size (fst wp)\<rparr>))) = Inr st'"
    by blast
  have i1: "write_inv R st1"
  proof (cases "w_prev_key st \<noteq> take key_size (fst wp)")
    case True
    with s1 obtain r where r: "write_new_record env tablet msg schema (fst wp) key_size v = Inr r"
      and st1: "st1 = st\<lparr>w_records := WriteLoop_records st, w_current := Some r\<rparr>"
      by (auto simp: VERIFY_RESULT_eq_Inr)
    from inv obtain em where em: "w_records st = R @ em"
      "list_all (\<lambda>r. row_parity (row_message r)) em"
      and cur: "(case w_current st of None \<Rightarrow> True | Some r \<Rightarrow> row_parity (row_message r))"
      unfolding write_inv_def by blast
    let ?em = "em @ (case w_current st of None \<Rightarrow> [] | Some r \<Rightarrow> [r])"
    have "w_records st1 = R @ ?em" using em st1 by (simp add: WriteLoop_records_def)
    moreover have "list_all (\<lambda>r. row_parity (row_message r)) ?em"
      using em cur by (simp split: option.splits)
    moreover have "row_parity (row_message r)" by (rule write_new_record_parity [OF r])
    ultimately show ?thesis unfolding write_inv_def using st1 by auto
  next
    case False
    with s1 inv show ?thesis by simp
  qed
  from s2 obtain r rm where cur: "w_current st1 = Some r"
    and wc: "write_column env schema (fst wp) key_size v (row_message r) = Inr rm"
    and st': "st' = st1\<lparr>w_current := Some (r\<lparr>row_message := rm\<rparr>),
                            w_prev_key := take key_size (fst wp)\<rparr>"
    by (auto simp: VERIFY_RESULT_eq_Inr split: option.splits)
  from i1 cur have "row_parity (row_message r)" by (simp add: write_inv_def)
  from write_column_parity [OF wc this] i1 st' show ?thesis by (simp add: write_inv_def)
qed

lemma write_pair_loop_parity:
  "write_inv R st \<Longrightarrow> write_pair_loop env tablet msg schema st wps = Inr st' \<Longrightarrow> write_inv R st'"
proof (induction wps arbitrary: st)
  case Nil
  then show ?case by simp
next
  case (Cons wp wps)
  from Cons.prems(2) obtain s1 where
    s1: "write_pair_step env tablet msg schema st wp = Inr s1" and
    r: "write_pair_loop env tablet msg schema s1 wps = Inr st'"
    by (auto simp: VERIFY_RESULT_eq_Inr)
  from Cons.IH [OF write_pair_step_parity [OF Cons.prems(1) s1] r] show ?case .
qed

lemma PopulateCDCSDKWriteRecord_parity:
  assumes "PopulateCDCSDKWriteRecord env msg records schema = Inr records'"
  shows "\<exists>em. records' = records @ em \<and> list_all (\<lambda>r. row_parity (row_message r)) em"
proof -
  from assms [unfolded PopulateCDCSDKWriteRecord_def VERIFY_RESULT_eq_Inr ext_eq_Inr]
  obtain tablet :: Tablet and st where
    l: "write_pair_loop env tablet msg schema
          \<lparr>w_records = records, w_current = None, w_prev_key = []\<rparr>
          (write_pairs (write_batch msg)) = Inr st"
    and r: "Inr (WriteLoop_records st) = (Inr records' :: Status + _)"
    by blast
  have "write_inv records \<lparr>w_records = records, w_current = None, w_prev_key = []\<rparr>"
    by (simp add: write_inv_def)
  from write_pair_loop_parity [OF this l] obtain em where
    "w_records st = records @ em" "list_all (\<lambda>r. row_parity (row_message r)) em"
    "(case w_current st of None \<Rightarrow> True | Some r \<Rightarrow> row_parity (row_message r))"
    unfolding write_inv_def by blast
  then have "WriteLoop_records st =
       records @ (em @ (case w_current st of None \<Rightarrow> [] | Some r \<Rightarrow> [r]))"
    "list_all (\<lambda>r. row_parity (row_message r))
       (em @ (case w_current st of None \<Rightarrow> [] | Some r \<Rightarrow> [r]))"
    by (simp_all add: WriteLoop_records_def split: option.splits)
  with r show ?thesis by auto
qed

lemma snapshot_columns_tuples:
  "snapshot_columns env row schema idxs rm = Inr rm' \<Longrightarrow>
   op rm' = op rm \<and> length (new_tuple rm') = length (new_tuple rm) + length idxs \<and>
   old_tuple rm' = old_tuple rm @ placeholders (length idxs)"
proof (induction idxs arbitrary: rm)
  case Nil
  then show ?case by simp
next
  case (Cons j idxs)
  from Cons.prems obtain dm where
    "snapshot_columns env row schema idxs
       (rm\<lparr>new_tuple := new_tuple rm @ [dm],
           old_tuple := old_tuple rm @ [DatumMessagePB_default]\<rparr>) = Inr rm'"
    by (auto simp: Let_def VERIFY_RESULT_eq_Inr)
  from Cons.IH [OF this] show ?case by (simp add: placeholders_Suc placeholders_def)
qed

lemma PopulateCDCSDKSnapshotRecord_parity:
  assumes "PopulateCDCSDKSnapshotRecord env records row schema time = Inr records'"
  shows "\<exists>r. records' = records @ [r] \<and> op (row_message r) = Op_READ \<and>
             length (new_tuple (row_message r)) = num_columns schema \<and>
             old_tuple (row_message r) = placeholders (num_columns schema)"
proof -
  from assms obtain rm0 rm' where
    c: "snapshot_columns env row schema [0 ..< num_columns schema] rm0 = Inr rm'"
    and r0: "op rm0 = Op_READ" "new_tuple rm0 = []" "old_tuple rm0 = []"
    and r: "records' = records @ [CDCSDKProtoRecordPB_Clear\<lparr>row_message := rm'\<rparr>]"
    by (auto simp: PopulateCDCSDKSnapshotRecord_def Let_def VERIFY_RESULT_eq_Inr ext_eq_Inr
        RowMessage_Clear_def)
  from snapshot_columns_tuples [OF c] r0 r show ?thesis by simp
qed

subsection \<open>C10: the two tuples of a record have the same length\<close>


lemmas write_defs =
  PopulateCDCSDKWriteRecord_def write_pair_step_def write_new_record_def write_column_def
  WriteLoop_records_def PopulateCDCSDKSnapshotRecord_def ex_msg_def


subsection \<open>The shape of the INSERT and DELETE records\<close>

lemma size_t_inc_dec: "n < 2 ^ 64 \<Longrightarrow> size_t_inc (size_t_dec n) = n"
proof -
  assume n: "n < 2 ^ 64"
  define M :: nat where "M = 2 ^ 64"
  have M: "0 < M" by (simp add: M_def)
  have "((n + M - 1) mod M + 1) mod M = n"
  proof (cases n)
    case 0
    with M have "(n + M - 1) mod M = M - 1" by simp
    with M show ?thesis using 0 by simp
  next
    case (Suc k)
    then have "n + M - 1 = k + M" by simp
    then have "(n + M - 1) mod M = k" using n Suc by (simp add: M_def)
    with n Suc show ?thesis by (simp add: M_def)
  qed
  then show ?thesis by (simp add: size_t_inc_def size_t_dec_def M_def)
qed

lemma size_t_inc_less: "n < m \<Longrightarrow> m < 2 ^ 64 \<Longrightarrow> size_t_inc n = Suc n"
  by (simp add: size_t_inc_def)

lemma column_datums_length:
  assumes "column_datums env schema i d = Inr cols"
  shows "length cols = (if is_column_intent d then 1 else 0)"
proof -
  from assms [unfolded column_datums_def VERIFY_RESULT_eq_Inr ext_eq_Inr]
  obtain dv :: Value where r: "(case d_column_id_opt d of
         None \<Rightarrow> Inr []
       | Some c \<Rightarrow>
           if ke_type c = kColumnId then
             VERIFY_RESULT (ext (column_by_id schema (GetColumnId c))) (\<lambda>col.
             VERIFY_RESULT
               (AddColumnToMap env col (primitive_value dv) DatumMessagePB_default)
               (\<lambda>dm. Inr [dm]))
           else Inr []) = (Inr cols :: Status + DatumMessagePB list)"
    by blast
  show ?thesis
  proof (cases "d_column_id_opt d")
    case None
    with r show ?thesis by (simp add: is_column_intent_def)
  next
    case (Some c)
    show ?thesis
    proof (cases "ke_type c = kColumnId")
      case True
      with r Some show ?thesis by (auto simp: is_column_intent_def VERIFY_RESULT_eq_Inr)
    next
      case False
      with r Some show ?thesis by (simp add: is_column_intent_def)
    qed
  qed
qed

lemma opened_insert_not_column:
  "opened_op d = Op_INSERT \<Longrightarrow> \<not> is_column_intent d"
  by (auto simp: opened_op_def is_column_intent_def split: if_splits option.splits)

lemma not_needed_count:
  "\<not> compute_new_cdc_record_needed env schema st i d \<Longrightarrow> l_col_count st < num_columns schema"
  by (auto simp: compute_new_cdc_record_needed_def split: if_splits)

lemma delete_shape_table [simp]:
  "delete_shape env schema intents (rm\<lparr>table := t\<rparr>) = delete_shape env schema intents rm"
  by (simp add: delete_shape_def cong: sum.case_cong)

lemma delete_shape_AddPrimaryKey:
  assumes a: "AddPrimaryKey env (d_decoded_key d) schema (opened_row txn schema d) = Inr rm"
    and del: "opened_op d = Op_DELETE"
    and d: "decode_intent env i = Inr d" and i: "i \<in> set intents"
  shows "delete_shape env schema intents rm"
proof -
  from AddPrimaryKey_tuples [OF a] del obtain ds where
    ds: "key_datums env schema (d_decoded_key d) ds"
    and t: "old_tuple rm = ds" "new_tuple rm = placeholders (key_count (d_decoded_key d))"
    by auto
  from key_datums_length [OF ds] t have "new_tuple rm = placeholders (length (old_tuple rm))"
    by simp
  moreover have "list_ex (\<lambda>i. case decode_intent env i of
                     Inl e \<Rightarrow> False
                   | Inr d \<Rightarrow> key_datums env schema (d_decoded_key d) (old_tuple rm)) intents"
    unfolding list_ex_iff using i d ds t(1) by (intro bexI [of _ i]) simp_all
  ultimately show ?thesis by (simp add: delete_shape_def)
qed

text \<open>What one iteration does to the DELETE under construction and to the response.\<close>
lemma intent_step_delete_shape:
  assumes d: "decode_intent env i = Inr d" and nk: "\<not> is_key_column_intent schema d"
    and step: "intent_step env op_id txn schema tname st i = Inr st'"
    and i: "i \<in> set intents"
    and inv: "op (l_row_message st) = Op_DELETE \<longrightarrow> delete_shape env schema intents (l_row_message st)"
  shows "op (l_row_message st') = Op_DELETE \<longrightarrow> delete_shape env schema intents (l_row_message st')"
    and "\<exists>em. l_records st' = l_records st @ em \<and>
           list_all (\<lambda>r. op (row_message r) = Op_DELETE \<longrightarrow>
                          delete_shape env schema intents (row_message r)) em"
proof -
  let ?n = "compute_new_cdc_record_needed env schema st i d"
  let ?fl = "(if ?n \<and> enable_single_record_update (FLAGS env) \<and> op (l_row_message st) = Op_UPDATE
      then [record_of op_id (l_prev_intent st) (l_row_message st)] else [])"
  let ?c2 = "(if ?n then opened_col_count env schema d else l_col_count st)"
  let ?P = "\<lambda>r. op (row_message r) = Op_DELETE \<longrightarrow> delete_shape env schema intents (row_message r)"
  from intent_step_effect [OF d nk step] obtain base cols where
    b1: "?n \<longrightarrow> AddPrimaryKey env (d_decoded_key d) schema (opened_row txn schema d) = Inr base"
    and b2: "?n \<longrightarrow> op base = opened_op d"
    and b3: "\<not> ?n \<longrightarrow> base = l_row_message st"
    and c1: "op base = Op_INSERT \<or> op base = Op_UPDATE \<longrightarrow> column_datums env schema i d = Inr cols"
    and c2: "op base \<noteq> Op_INSERT \<and> op base \<noteq> Op_UPDATE \<longrightarrow> cols = []"
    and rm: "l_row_message st' = (add_columns cols base)\<lparr>table := tname\<rparr>"
    and e1: "emit_condition env schema (op base) (counted env (op base) ?c2) \<longrightarrow>
       l_records st' = l_records st @ ?fl @ [record_of op_id i (l_row_message st')] \<and>
       l_reverse_index_key st' = reverse_index_key i \<and> l_write_id st' = write_id i"
    and e2: "\<not> emit_condition env schema (op base) (counted env (op base) ?c2) \<longrightarrow>
       l_records st' = l_records st @ ?fl \<and>
       l_reverse_index_key st' =
         (if ?fl = [] then l_reverse_index_key st else reverse_index_key (l_prev_intent st)) \<and>
       l_write_id st' =
         (if ?n \<and> opened_op d \<noteq> Op_INSERT then write_id i
          else if ?fl = [] then l_write_id st else write_id (l_prev_intent st)) \<and>
       (enable_single_record_update (FLAGS env) \<and> op base = Op_UPDATE \<longrightarrow> l_prev_intent st' = i)"
    by (elim exE conjE) (rule that)
  show p': "op (l_row_message st') = Op_DELETE \<longrightarrow> delete_shape env schema intents (l_row_message st')"
  proof
    assume "op (l_row_message st') = Op_DELETE"
    with rm have ob: "op base = Op_DELETE" by simp
    with c2 have cols: "cols = []" by simp
    have "delete_shape env schema intents base"
    proof (cases ?n)
      case True
      with b1 b2 ob have "AddPrimaryKey env (d_decoded_key d) schema (opened_row txn schema d) = Inr base"
        "opened_op d = Op_DELETE" by simp_all
      then show ?thesis using d i by (rule delete_shape_AddPrimaryKey)
    next
      case False
      with b3 inv ob show ?thesis by simp
    qed
    with rm cols show "delete_shape env schema intents (l_row_message st')" by simp
  qed
  have fl: "list_all ?P ?fl" by simp
  show "\<exists>em. l_records st' = l_records st @ em \<and> list_all ?P em"
  proof (cases "emit_condition env schema (op base) (counted env (op base) ?c2)")
    case True
    with e1 have "l_records st' = l_records st @ (?fl @ [record_of op_id i (l_row_message st')])"
      by simp
    moreover have "list_all ?P (?fl @ [record_of op_id i (l_row_message st')])"
      using fl p' by simp
    ultimately show ?thesis by blast
  next
    case False
    with e2 have "l_records st' = l_records st @ ?fl" by simp
    with fl show ?thesis by blast
  qed
qed

lemma intent_loop_delete_shape:
  assumes "intent_loop env op_id txn schema tname st xs = Inr st'"
    and "set xs \<subseteq> set intents"
    and "op (l_row_message st) = Op_DELETE \<longrightarrow> delete_shape env schema intents (l_row_message st)"
  shows "\<exists>em. l_records st' = l_records st @ em \<and>
           list_all (\<lambda>r. op (row_message r) = Op_DELETE \<longrightarrow>
                          delete_shape env schema intents (row_message r)) em"
  using assms
proof (induction xs arbitrary: st)
  case Nil
  then show ?case by simp
next
  case (Cons i xs)
  let ?P = "\<lambda>r. op (row_message r) = Op_DELETE \<longrightarrow> delete_shape env schema intents (row_message r)"
  from Cons.prems(1) obtain s where s: "intent_step env op_id txn schema tname st i = Inr s"
    and r: "intent_loop env op_id txn schema tname s xs = Inr st'"
    by (auto simp: VERIFY_RESULT_eq_Inr)
  from Cons.prems(2) have i: "i \<in> set intents" and xs: "set xs \<subseteq> set intents" by simp_all
  from intent_step_decodes [OF s] obtain d where d: "decode_intent env i = Inr d" by blast
  have "(op (l_row_message s) = Op_DELETE \<longrightarrow> delete_shape env schema intents (l_row_message s)) \<and>
        (\<exists>em. l_records s = l_records st @ em \<and> list_all ?P em)"
  proof (cases "is_key_column_intent schema d")
    case True
    from s have "s = st\<lparr>l_write_id := write_id i, l_reverse_index_key := reverse_index_key i\<rparr>"
      by (simp add: intent_step_key_column [OF d True])
    with Cons.prems(3) show ?thesis by simp
  next
    case False
    from intent_step_delete_shape [OF d False s i Cons.prems(3)] show ?thesis by simp
  qed
  then obtain em1 where p: "op (l_row_message s) = Op_DELETE \<longrightarrow>
        delete_shape env schema intents (l_row_message s)"
    and e1: "l_records s = l_records st @ em1" "list_all ?P em1"
    by blast
  from Cons.IH [OF r xs p] obtain em2 where
    e2: "l_records st' = l_records s @ em2" "list_all ?P em2"
    by blast
  from e1 e2 have "l_records st' = l_records st @ (em1 @ em2)" "list_all ?P (em1 @ em2)"
    by simp_all
  then show ?case by blast
qed

text \<open>What one iteration does to the INSERT under construction and to the response.\<close>
lemma intent_step_insert_count:
  assumes d: "decode_intent env i = Inr d" and nk: "\<not> is_key_column_intent schema d"
    and step: "intent_step env op_id txn schema tname st i = Inr st'"
    and ok: "if compute_new_cdc_record_needed env schema st i d
            then opened_op d = Op_INSERT \<longrightarrow>
                   key_count (d_decoded_key d) = num_key_columns schema
            else op (l_row_message st) = Op_INSERT \<longrightarrow> is_column_intent d"
    and sz: "num_columns schema < 2 ^ 64" "num_key_columns schema < 2 ^ 64"
    and inv: "insert_count_inv st"
  shows "insert_count_inv st'"
    and "\<exists>em. l_records st' = l_records st @ em \<and>
           list_all (\<lambda>r. op (row_message r) = Op_INSERT \<longrightarrow>
                          length (new_tuple (row_message r)) = num_columns schema) em"
proof -
  let ?n = "compute_new_cdc_record_needed env schema st i d"
  let ?fl = "(if ?n \<and> enable_single_record_update (FLAGS env) \<and> op (l_row_message st) = Op_UPDATE
      then [record_of op_id (l_prev_intent st) (l_row_message st)] else [])"
  let ?c2 = "(if ?n then opened_col_count env schema d else l_col_count st)"
  let ?P = "\<lambda>r. op (row_message r) = Op_INSERT \<longrightarrow>
                length (new_tuple (row_message r)) = num_columns schema"
  from intent_step_effect [OF d nk step] obtain base cols where
    b1: "?n \<longrightarrow> AddPrimaryKey env (d_decoded_key d) schema (opened_row txn schema d) = Inr base"
    and b2: "?n \<longrightarrow> op base = opened_op d"
    and b3: "\<not> ?n \<longrightarrow> base = l_row_message st"
    and c1: "op base = Op_INSERT \<or> op base = Op_UPDATE \<longrightarrow> column_datums env schema i d = Inr cols"
    and c2: "op base \<noteq> Op_INSERT \<and> op base \<noteq> Op_UPDATE \<longrightarrow> cols = []"
    and rm: "l_row_message st' = (add_columns cols base)\<lparr>table := tname\<rparr>"
    and e1: "emit_condition env schema (op base) (counted env (op base) ?c2) \<longrightarrow>
       l_records st' = l_records st @ ?fl @ [record_of op_id i (l_row_message st')] \<and>
       l_reverse_index_key st' = reverse_index_key i \<and> l_write_id st' = write_id i"
    and e2: "\<not> emit_condition env schema (op base) (counted env (op base) ?c2) \<longrightarrow>
       l_records st' = l_records st @ ?fl \<and>
       l_reverse_index_key st' =
         (if ?fl = [] then l_reverse_index_key st else reverse_index_key (l_prev_intent st)) \<and>
       l_write_id st' =
         (if ?n \<and> opened_op d \<noteq> Op_INSERT then write_id i
          else if ?fl = [] then l_write_id st else write_id (l_prev_intent st)) \<and>
       (enable_single_record_update (FLAGS env) \<and> op base = Op_UPDATE \<longrightarrow> l_prev_intent st' = i)"
    and cc: "l_col_count st' =
       (if emit_condition env schema (op base) (counted env (op base) ?c2) \<and>
           enable_single_record_update (FLAGS env)
        then num_columns schema else counted env (op base) ?c2)"
    by (elim exE conjE) (rule that)
  have cnt: "length (new_tuple (add_columns cols base)) = counted env (op base) ?c2"
    if ob: "op base = Op_INSERT"
  proof (cases ?n)
    case True
    with b1 b2 ob have a: "AddPrimaryKey env (d_decoded_key d) schema (opened_row txn schema d) = Inr base"
      and oi: "opened_op d = Op_INSERT" by simp_all
    from AddPrimaryKey_tuples [OF a] oi obtain ds where
      ds: "key_datums env schema (d_decoded_key d) ds" and t: "new_tuple base = ds" by auto
    from ok True oi have "key_count (d_decoded_key d) = num_key_columns schema" by simp
    with key_datums_length [OF ds] t have l: "length (new_tuple base) = num_key_columns schema"
      by simp
    from c1 ob have "column_datums env schema i d = Inr cols" by simp
    from column_datums_length [OF this] opened_insert_not_column [OF oi] have "cols = []" by simp
    moreover from True oi have "?c2 = size_t_dec (num_key_columns schema)"
      by (simp add: opened_col_count_def)
    ultimately show ?thesis using l ob size_t_inc_dec [OF sz(2)] by (simp add: counted_def)
  next
    case False
    with b3 have bs: "base = l_row_message st" by simp
    with inv ob have l: "length (new_tuple base) = l_col_count st" by (simp add: insert_count_inv_def)
    from ok False bs ob have "is_column_intent d" by simp
    moreover from c1 ob have "column_datums env schema i d = Inr cols" by simp
    ultimately have "length cols = 1" using column_datums_length by simp
    moreover from size_t_inc_less [OF not_needed_count [OF False] sz(1)]
    have "size_t_inc (l_col_count st) = Suc (l_col_count st)" .
    ultimately show ?thesis using l ob False by (simp add: counted_def)
  qed
  have o': "op (l_row_message st') = op base" using rm by simp
  have nt: "new_tuple (l_row_message st') = new_tuple (add_columns cols base)" using rm by simp
  have full: "counted env (op base) ?c2 = num_columns schema"
    if "emit_condition env schema (op base) (counted env (op base) ?c2)" "op base = Op_INSERT"
    using that by (auto simp: emit_condition_def split: if_splits)
  show "insert_count_inv st'"
    unfolding insert_count_inv_def o' nt
  proof
    assume ob: "op base = Op_INSERT"
    from cc full ob have "l_col_count st' = counted env (op base) ?c2" by auto
    with cnt [OF ob] show "length (new_tuple (add_columns cols base)) = l_col_count st'" by simp
  qed
  have fl: "list_all ?P ?fl" by simp
  show "\<exists>em. l_records st' = l_records st @ em \<and> list_all ?P em"
  proof (cases "emit_condition env schema (op base) (counted env (op base) ?c2)")
    case True
    with e1 have "l_records st' = l_records st @ (?fl @ [record_of op_id i (l_row_message st')])"
      by simp
    moreover have "?P (record_of op_id i (l_row_message st'))"
      using cnt full [OF True] o' nt by simp
    with fl have "list_all ?P (?fl @ [record_of op_id i (l_row_message st')])" by simp
    ultimately show ?thesis by blast
  next
    case False
    with e2 have "l_records st' = l_records st @ ?fl" by simp
    with fl show ?thesis by blast
  qed
qed

lemma intent_loop_insert_count:
  assumes "intent_loop env op_id txn schema tname st xs = Inr st'"
    and "insert_inputs_ok env op_id txn schema tname st xs"
    and "num_columns schema < 2 ^ 64" "num_key_columns schema < 2 ^ 64"
    and "insert_count_inv st"
  shows "\<exists>em. l_records st' = l_records st @ em \<and>
           list_all (\<lambda>r. op (row_message r) = Op_INSERT \<longrightarrow>
                          length (new_tuple (row_message r)) = num_columns schema) em"
  using assms(1,2,5)
proof (induction xs arbitrary: st)
  case Nil
  then show ?case by simp
next
  case (Cons i xs)
  let ?P = "\<lambda>r. op (row_message r) = Op_INSERT \<longrightarrow>
                length (new_tuple (row_message r)) = num_columns schema"
  from Cons.prems(1) obtain s where s: "intent_step env op_id txn schema tname st i = Inr s"
    and r: "intent_loop env op_id txn schema tname s xs = Inr st'"
    by (auto simp: VERIFY_RESULT_eq_Inr)
  from intent_step_decodes [OF s] obtain d where d: "decode_intent env i = Inr d" by blast
  from Cons.prems(2) d s have
    ok: "is_key_column_intent schema d \<or>
           (if compute_new_cdc_record_needed env schema st i d
            then opened_op d = Op_INSERT \<longrightarrow>
                   key_count (d_decoded_key d) = num_key_columns schema
            else op (l_row_message st) = Op_INSERT \<longrightarrow> is_column_intent d)"
    and rest: "insert_inputs_ok env op_id txn schema tname s xs"
    by simp_all
  have "insert_count_inv s \<and> (\<exists>em. l_records s = l_records st @ em \<and> list_all ?P em)"
  proof (cases "is_key_column_intent schema d")
    case True
    from s have "s = st\<lparr>l_write_id := write_id i, l_reverse_index_key := reverse_index_key i\<rparr>"
      by (simp add: intent_step_key_column [OF d True])
    with Cons.prems(3) show ?thesis by (simp add: insert_count_inv_def)
  next
    case False
    with ok have "if compute_new_cdc_record_needed env schema st i d
            then opened_op d = Op_INSERT \<longrightarrow>
                   key_count (d_decoded_key d) = num_key_columns schema
            else op (l_row_message st) = Op_INSERT \<longrightarrow> is_column_intent d" by simp
    from intent_step_insert_count [OF d False s this assms(3,4) Cons.prems(3)]
    show ?thesis by simp
  qed
  then obtain em1 where p: "insert_count_inv s"
    and e1: "l_records s = l_records st @ em1" "list_all ?P em1"
    by blast
  from Cons.IH [OF r rest p] obtain em2 where
    e2: "l_records st' = l_records s @ em2" "list_all ?P em2"
    by blast
  from e1 e2 have "l_records st' = l_records st @ (em1 @ em2)" "list_all ?P (em1 @ em2)"
    by simp_all
  then show ?case by blast
qed

subsection \<open>C4: the tuples of INSERT and DELETE records\<close>


lemmas shape_defs =
  delete_shape_def key_datums_def key_datum_def key_count_def is_column_intent_def
  opened_op_def placeholders_def list_ex_iff



subsection \<open>C8: the first call of a snapshot\<close>

lemma snapshot_first_call_result:
  "snapshot_first_call env tablet st = Inr st' \<longleftrightarrow>
     has_participant_context tablet \<and>
     (\<exists>d1 d2. GetLastReplicatedData env 0 = Inr d1 \<and> GetLastReplicatedData env 1 = Inr d2 \<and>
        st' = st\<lparr>v_effects := v_effects st @
                     [UpdateCDCConsumerOpId (rid_op_id d1),
                      SetIntentRetainOpIdAndTime (rid_op_id d1)
                        (cdc_intent_retention_ms (FLAGS env))],
                  v_checkpoint :=
                    \<lparr>cp_term = opid_term (rid_op_id d2), cp_index = opid_index (rid_op_id d2),
                     cp_write_id = - 1, cp_key = [], cp_snapshot_time = rid_log_ht d2\<rparr>,
                  v_checkpoint_updated := True\<rparr>)"
proof (cases "has_participant_context tablet")
  case False
  then show ?thesis
    by (auto simp: snapshot_first_call_def has_participant_context_def split: option.splits)
next
  case True
  then have c: "\<not> (case transaction_participant tablet of None \<Rightarrow> True | Some p \<Rightarrow> \<not> has_context p)"
    by (auto simp: has_participant_context_def split: option.splits)
  show ?thesis
    unfolding snapshot_first_call_def if_not_P [OF c] VERIFY_RESULT_eq_Inr ext_eq_Inr Let_def
      SetCheckpoint_def fst_conv
    using True by auto
qed

text \<open>
  C8, as the code has it. On a cursor with write id -1, empty key and snapshot time 0, the
  call reaches its end exactly when the tablet, its transaction participant with its
  context, and two reads of the last replicated entry are there. It then adds no record to
  the response and returns OK. Before the second read it pins the retention of the intents
  (and the consumer OpId) at the OpId of the first read; the checkpoint it returns has the
  term and index of the OpId of the second read, write id -1, an empty key, and the hybrid
  time of the second read as its snapshot time. The checkpoint is at the OpId where the
  retention was pinned when the two reads give the same entry.
\<close>
theorem snapshot_handshake:
  assumes "snapshot_handshake_cursor (i_from_op_id a)"
  shows "GetChangesForCDCSDK env a = Some (Inr out) \<longleftrightarrow>
     (\<exists>tablet d1 d2.
        shared_tablet_safe env = Inr tablet \<and> has_participant_context tablet \<and>
        GetLastReplicatedData env 0 = Inr d1 \<and> GetLastReplicatedData env 1 = Inr d2 \<and>
        out = finish (i_tablet_id a) (i_from_op_id a) (i_resp_checkpoint a)
                ((Locals_init env a)
                   \<lparr>v_snapshot_operation := True,
                    v_effects :=
                      [UpdateCDCConsumerOpId (rid_op_id d1),
                       SetIntentRetainOpIdAndTime (rid_op_id d1)
                         (cdc_intent_retention_ms (FLAGS env))],
                    v_checkpoint :=
                      \<lparr>cp_term = opid_term (rid_op_id d2), cp_index = opid_index (rid_op_id d2),
                       cp_write_id = - 1, cp_key = [], cp_snapshot_time = rid_log_ht d2\<rparr>,
                    v_checkpoint_updated := True\<rparr>) \<and>
        g_status out = None \<and> g_records out = i_records a \<and>
        g_effects out =
          [UpdateCDCConsumerOpId (rid_op_id d1),
           SetIntentRetainOpIdAndTime (rid_op_id d1) (cdc_intent_retention_ms (FLAGS env))] \<and>
        g_cdc_sdk_checkpoint out =
          \<lparr>cp_term = opid_term (rid_op_id d2), cp_index = opid_index (rid_op_id d2),
           cp_write_id = - 1, cp_key = [], cp_snapshot_time = rid_log_ht d2\<rparr>)"
proof (cases "shared_tablet_safe env")
  case (Inl e)
  then show ?thesis by (simp add: GetChangesForCDCSDK_def)
next
  case (Inr tablet)
  let ?st = "(Locals_init env a)\<lparr>v_snapshot_operation := True\<rparr>"
  from assms have c: "cp_write_id (i_from_op_id a) = - 1"
    "cp_key (i_from_op_id a) = [] \<and> cp_snapshot_time (i_from_op_id a) = 0"
    by (simp_all add: snapshot_handshake_cursor_def)
  have g: "GetChangesForCDCSDK env a =
      Some (case snapshot_first_call env tablet ?st of
              Inl e \<Rightarrow> Inl e
            | Inr st' \<Rightarrow> Inr (finish (i_tablet_id a) (i_from_op_id a) (i_resp_checkpoint a) st'))"
    by (simp add: GetChangesForCDCSDK_def Inr c Let_def)
  have e0: "v_effects ?st = []" "v_records ?st = i_records a"
    by (simp_all add: Locals_init_def Let_def)
  have fin: "g_status (finish t f r st') = None" if "v_snapshot_operation st'" for t f r st'
    using that by (simp add: finish_def)
  have fin2: "g_records (finish t f r st') = v_records st'"
    "g_effects (finish t f r st') = v_effects st'"
    "g_cdc_sdk_checkpoint (finish t f r st') =
       (if v_checkpoint_updated st' then v_checkpoint st' else f)" for t f r st'
    by (simp_all add: finish_def)
  show ?thesis
  proof
    assume "GetChangesForCDCSDK env a = Some (Inr out)"
    with g obtain st' where s: "snapshot_first_call env tablet ?st = Inr st'"
      and o: "out = finish (i_tablet_id a) (i_from_op_id a) (i_resp_checkpoint a) st'"
      by (auto split: sum.splits)
    from s [unfolded snapshot_first_call_result] obtain d1 d2 where
      p: "has_participant_context tablet" and
      d: "GetLastReplicatedData env 0 = Inr d1" "GetLastReplicatedData env 1 = Inr d2" and
      st': "st' = ?st\<lparr>v_effects := v_effects ?st @
                     [UpdateCDCConsumerOpId (rid_op_id d1),
                      SetIntentRetainOpIdAndTime (rid_op_id d1)
                        (cdc_intent_retention_ms (FLAGS env))],
                  v_checkpoint :=
                    \<lparr>cp_term = opid_term (rid_op_id d2), cp_index = opid_index (rid_op_id d2),
                     cp_write_id = - 1, cp_key = [], cp_snapshot_time = rid_log_ht d2\<rparr>,
                  v_checkpoint_updated := True\<rparr>"
      by blast
    show "\<exists>tablet d1 d2.
        shared_tablet_safe env = Inr tablet \<and> has_participant_context tablet \<and>
        GetLastReplicatedData env 0 = Inr d1 \<and> GetLastReplicatedData env 1 = Inr d2 \<and>
        out = finish (i_tablet_id a) (i_from_op_id a) (i_resp_checkpoint a)
                ((Locals_init env a)
                   \<lparr>v_snapshot_operation := True,
                    v_effects :=
                      [UpdateCDCConsumerOpId (rid_op_id d1),
                       SetIntentRetainOpIdAndTime (rid_op_id d1)
                         (cdc_intent_retention_ms (FLAGS env))],
                    v_checkpoint :=
                      \<lparr>cp_term = opid_term (rid_op_id d2), cp_index = opid_index (rid_op_id d2),
                       cp_write_id = - 1, cp_key = [], cp_snapshot_time = rid_log_ht d2\<rparr>,
                    v_checkpoint_updated := True\<rparr>) \<and>
        g_status out = None \<and> g_records out = i_records a \<and>
        g_effects out =
          [UpdateCDCConsumerOpId (rid_op_id d1),
           SetIntentRetainOpIdAndTime (rid_op_id d1) (cdc_intent_retention_ms (FLAGS env))] \<and>
        g_cdc_sdk_checkpoint out =
          \<lparr>cp_term = opid_term (rid_op_id d2), cp_index = opid_index (rid_op_id d2),
           cp_write_id = - 1, cp_key = [], cp_snapshot_time = rid_log_ht d2\<rparr>"
      apply (rule exI [of _ tablet], rule exI [of _ d1], rule exI [of _ d2])
      using Inr p d o st' e0 by (simp add: fin fin2)
  next
    assume "\<exists>tablet d1 d2.
        shared_tablet_safe env = Inr tablet \<and> has_participant_context tablet \<and>
        GetLastReplicatedData env 0 = Inr d1 \<and> GetLastReplicatedData env 1 = Inr d2 \<and>
        out = finish (i_tablet_id a) (i_from_op_id a) (i_resp_checkpoint a)
                ((Locals_init env a)
                   \<lparr>v_snapshot_operation := True,
                    v_effects :=
                      [UpdateCDCConsumerOpId (rid_op_id d1),
                       SetIntentRetainOpIdAndTime (rid_op_id d1)
                         (cdc_intent_retention_ms (FLAGS env))],
                    v_checkpoint :=
                      \<lparr>cp_term = opid_term (rid_op_id d2), cp_index = opid_index (rid_op_id d2),
                       cp_write_id = - 1, cp_key = [], cp_snapshot_time = rid_log_ht d2\<rparr>,
                    v_checkpoint_updated := True\<rparr>) \<and>
        g_status out = None \<and> g_records out = i_records a \<and>
        g_effects out =
          [UpdateCDCConsumerOpId (rid_op_id d1),
           SetIntentRetainOpIdAndTime (rid_op_id d1) (cdc_intent_retention_ms (FLAGS env))] \<and>
        g_cdc_sdk_checkpoint out =
          \<lparr>cp_term = opid_term (rid_op_id d2), cp_index = opid_index (rid_op_id d2),
           cp_write_id = - 1, cp_key = [], cp_snapshot_time = rid_log_ht d2\<rparr>"
    then obtain tablet' d1 d2 where
      t: "shared_tablet_safe env = Inr tablet'" and p: "has_participant_context tablet'" and
      d: "GetLastReplicatedData env 0 = Inr d1" "GetLastReplicatedData env 1 = Inr d2" and
      o: "out = finish (i_tablet_id a) (i_from_op_id a) (i_resp_checkpoint a)
                ((Locals_init env a)
                   \<lparr>v_snapshot_operation := True,
                    v_effects :=
                      [UpdateCDCConsumerOpId (rid_op_id d1),
                       SetIntentRetainOpIdAndTime (rid_op_id d1)
                         (cdc_intent_retention_ms (FLAGS env))],
                    v_checkpoint :=
                      \<lparr>cp_term = opid_term (rid_op_id d2), cp_index = opid_index (rid_op_id d2),
                       cp_write_id = - 1, cp_key = [], cp_snapshot_time = rid_log_ht d2\<rparr>,
                    v_checkpoint_updated := True\<rparr>)"
      by blast
    from t Inr have tt: "tablet' = tablet" by simp
    have "snapshot_first_call env tablet ?st = Inr (?st\<lparr>v_effects := v_effects ?st @
                     [UpdateCDCConsumerOpId (rid_op_id d1),
                      SetIntentRetainOpIdAndTime (rid_op_id d1)
                        (cdc_intent_retention_ms (FLAGS env))],
                  v_checkpoint :=
                    \<lparr>cp_term = opid_term (rid_op_id d2), cp_index = opid_index (rid_op_id d2),
                     cp_write_id = - 1, cp_key = [], cp_snapshot_time = rid_log_ht d2\<rparr>,
                  v_checkpoint_updated := True\<rparr>)"
      unfolding snapshot_first_call_result using p d tt by blast
    with g o e0 show "GetChangesForCDCSDK env a = Some (Inr out)" by simp
  qed
qed

lemmas getchanges_defs =
  GetChangesForCDCSDK_def Locals_init_def finish_def snapshot_first_call_def SetCheckpoint_def
  snapshot_handshake_cursor_def has_participant_context_def ex_request_def ex_env_growing_def

theorem snapshot_handshake_witness:
  "\<exists>out. GetChangesForCDCSDK (ex_env True [] \<lparr>ats_key = [], ats_write_id = 0\<rparr>)
       (ex_request \<lparr>cp_term = 0, cp_index = 0, cp_write_id = - 1, cp_key = [],
                    cp_snapshot_time = 0\<rparr>) = Some (Inr out) \<and>
     g_status out = None \<and> g_records out = [] \<and>
     g_cdc_sdk_checkpoint out =
       \<lparr>cp_term = 1, cp_index = 9, cp_write_id = - 1, cp_key = [], cp_snapshot_time = 5000\<rparr> \<and>
     g_effects out =
       [UpdateCDCConsumerOpId \<lparr>opid_term = 1, opid_index = 9\<rparr>,
        SetIntentRetainOpIdAndTime \<lparr>opid_term = 1, opid_index = 9\<rparr> 1000]"
proof -
  define env where "env = ex_env True [] \<lparr>ats_key = [], ats_write_id = 0\<rparr>"
  define a where "a = ex_request \<lparr>cp_term = 0, cp_index = 0, cp_write_id = - 1, cp_key = [],
                    cp_snapshot_time = 0\<rparr>"
  define d where "d = \<lparr>rid_op_id = \<lparr>opid_term = 1, opid_index = 9\<rparr>, rid_log_ht = 5000\<rparr>"
  define out where "out = finish (i_tablet_id a) (i_from_op_id a) (i_resp_checkpoint a)
                ((Locals_init env a)
                   \<lparr>v_snapshot_operation := True,
                    v_effects :=
                      [UpdateCDCConsumerOpId (rid_op_id d),
                       SetIntentRetainOpIdAndTime (rid_op_id d)
                         (cdc_intent_retention_ms (FLAGS env))],
                    v_checkpoint :=
                      \<lparr>cp_term = opid_term (rid_op_id d), cp_index = opid_index (rid_op_id d),
                       cp_write_id = - 1, cp_key = [], cp_snapshot_time = rid_log_ht d\<rparr>,
                    v_checkpoint_updated := True\<rparr>)"
  have c: "snapshot_handshake_cursor (i_from_op_id a)"
    by (simp add: a_def ex_request_def snapshot_handshake_cursor_def)
  have "GetChangesForCDCSDK env a = Some (Inr out)"
    unfolding snapshot_handshake [OF c]
    apply (rule exI [of _ ex_tablet], rule exI [of _ d], rule exI [of _ d])
    by (simp add: out_def env_def a_def d_def ex_defs getchanges_defs Let_def)
  moreover have "g_status out = None \<and> g_records out = [] \<and>
     g_cdc_sdk_checkpoint out =
       \<lparr>cp_term = 1, cp_index = 9, cp_write_id = - 1, cp_key = [], cp_snapshot_time = 5000\<rparr> \<and>
     g_effects out =
       [UpdateCDCConsumerOpId \<lparr>opid_term = 1, opid_index = 9\<rparr>,
        SetIntentRetainOpIdAndTime \<lparr>opid_term = 1, opid_index = 9\<rparr> 1000]"
    by (simp add: out_def env_def a_def d_def ex_defs getchanges_defs Let_def)
  ultimately show ?thesis unfolding env_def a_def by (intro exI [of _ out]) simp
qed

text \<open>
  The claim has the retention pinned at the OpId of the checkpoint. Here an entry is
  replicated between the two reads: the retention is pinned at (1, 9), the OpId of the
  first read, and the checkpoint returned is at (1, 10), the OpId of the second.
\<close>
theorem snapshot_handshake_counterexample:
  "\<exists>out. GetChangesForCDCSDK ex_env_growing
       (ex_request \<lparr>cp_term = 0, cp_index = 0, cp_write_id = - 1, cp_key = [],
                    cp_snapshot_time = 0\<rparr>) = Some (Inr out) \<and>
     g_cdc_sdk_checkpoint out =
       \<lparr>cp_term = 1, cp_index = 10, cp_write_id = - 1, cp_key = [], cp_snapshot_time = 5001\<rparr> \<and>
     g_effects out =
       [UpdateCDCConsumerOpId \<lparr>opid_term = 1, opid_index = 9\<rparr>,
        SetIntentRetainOpIdAndTime \<lparr>opid_term = 1, opid_index = 9\<rparr> 1000]"
  by (simp add: ex_defs getchanges_defs Let_def)

subsection \<open>C9: a DDL record is not repeated\<close>

lemma resolve_metadata_schema_result:
  assumes "resolve_metadata_schema env tablet msg st = Inr st'"
  shows "v_records st' = v_records st"
    and "v_cached_schema_version st' = resolved_schema_version env tablet msg"
    and "v_last_streamed_op_id st' = v_last_streamed_op_id st"
    and "v_checkpoint st' = v_checkpoint st"
proof -
  from assms [unfolded resolve_metadata_schema_def VERIFY_RESULT_eq_Inr ext_eq_Inr Let_def]
  obtain cur :: Schema where
    r: "(case GetTableSchemaFromSysCatalog env (table_id tablet) (hybrid_time msg) of
            Inl e \<Rightarrow> Inr (st\<lparr>v_cached_schema := cur, v_current_schema := Schema_moved_from env cur,
                    v_cached_schema_version := cmr_schema_version (change_metadata_request msg)\<rparr>)
          | Inr result \<Rightarrow>
              if v_cached_schema_version (st\<lparr>v_cached_schema := cur, v_current_schema := Schema_moved_from env cur,
                    v_cached_schema_version := cmr_schema_version (change_metadata_request msg)\<rparr>) \<noteq> snd result
              then Inr ((st\<lparr>v_cached_schema := cur, v_current_schema := Schema_moved_from env cur,
                    v_cached_schema_version := cmr_schema_version (change_metadata_request msg)\<rparr>)
                          \<lparr>v_current_schema := fst result, v_cached_schema := fst result,
                            v_cached_schema_version := snd result\<rparr>)
              else Inr (st\<lparr>v_cached_schema := cur, v_current_schema := Schema_moved_from env cur,
                    v_cached_schema_version := cmr_schema_version (change_metadata_request msg)\<rparr>))
         = (Inr st' :: Status + Locals)"
    by blast
  show "v_records st' = v_records st"
    and "v_cached_schema_version st' = resolved_schema_version env tablet msg"
    and "v_last_streamed_op_id st' = v_last_streamed_op_id st"
    and "v_checkpoint st' = v_checkpoint st"
    using r by (auto simp: resolved_schema_version_def split: sum.splits if_splits)
qed

lemma PopulateCDCSDKDDLRecord_result:
  "PopulateCDCSDKDDLRecord msg tname schema = Inr r \<Longrightarrow>
   op (row_message r) = Op_DDL \<and>
   schema_version (row_message r) = cmr_schema_version (change_metadata_request msg)"
  by (auto simp: PopulateCDCSDKDDLRecord_def split: if_splits)

lemma SetCheckpoint_streamed_records [simp]:
  "v_records (SetCheckpoint_streamed oid st) = v_records st"
  "v_cached_schema_version (SetCheckpoint_streamed oid st) = v_cached_schema_version st"
  "v_cached_schema (SetCheckpoint_streamed oid st) = v_cached_schema st"
  by (simp_all add: SetCheckpoint_streamed_def SetCheckpoint_def)

lemma change_metadata_op_result:
  assumes "change_metadata_op env tablet msg st = Inr st'"
  shows "v_cached_schema_version st' = resolved_schema_version env tablet msg"
    and "last_is_ddl (v_records st) (resolved_schema_version env tablet msg) \<Longrightarrow>
           v_records st' = v_records st"
    and "\<not> last_is_ddl (v_records st) (resolved_schema_version env tablet msg) \<Longrightarrow>
           \<exists>r. v_records st' = v_records st @ [r] \<and> op (row_message r) = Op_DDL \<and>
               schema_version (row_message r) = cmr_schema_version (change_metadata_request msg)"
proof -
  let ?v = "resolved_schema_version env tablet msg"
  from assms [unfolded change_metadata_op_def VERIFY_RESULT_eq_Inr]
  obtain s1 s2 where s1: "resolve_metadata_schema env tablet msg st = Inr s1"
    and s2: "(if length (v_records s1) > 0 \<and> op (row_message (last (v_records s1))) = Op_DDL then
          (if schema_version (row_message (last (v_records s1))) \<noteq> v_cached_schema_version s1
           then VERIFY_RESULT
                  (PopulateCDCSDKDDLRecord msg (table_name tablet) (v_current_schema s1))
                  (\<lambda>r. Inr (s1\<lparr>v_records := v_records s1 @ [r]\<rparr>))
           else Inr s1)
        else VERIFY_RESULT
               (PopulateCDCSDKDDLRecord msg (table_name tablet) (v_current_schema s1))
               (\<lambda>r. Inr (s1\<lparr>v_records := v_records s1 @ [r]\<rparr>))) = Inr s2"
    and st': "Inr ((SetCheckpoint_streamed (msg_id msg) s2)\<lparr>v_checkpoint_updated := True\<rparr>)
              = (Inr st' :: Status + Locals)"
    by blast
  note r = resolve_metadata_schema_result(1,2) [OF s1]
  from st' have e: "v_records st' = v_records s2"
    "v_cached_schema_version st' = v_cached_schema_version s2" by auto
  have dd: "last_is_ddl (v_records st) ?v \<longleftrightarrow>
        length (v_records s1) > 0 \<and> op (row_message (last (v_records s1))) = Op_DDL \<and>
        \<not> schema_version (row_message (last (v_records s1))) \<noteq> v_cached_schema_version s1"
    by (auto simp: last_is_ddl_def r)
  show "last_is_ddl (v_records st) ?v \<Longrightarrow> v_records st' = v_records st"
    using s2 e r unfolding dd by auto
  have app: "\<exists>r. s2 = s1\<lparr>v_records := v_records s1 @ [r]\<rparr> \<and>
        PopulateCDCSDKDDLRecord msg (table_name tablet) (v_current_schema s1) = Inr r"
    if "\<not> last_is_ddl (v_records st) ?v"
    using s2 that unfolding dd by (auto simp: VERIFY_RESULT_eq_Inr split: if_splits)
  show "\<not> last_is_ddl (v_records st) ?v \<Longrightarrow>
           \<exists>r. v_records st' = v_records st @ [r] \<and> op (row_message r) = Op_DDL \<and>
               schema_version (row_message r) = cmr_schema_version (change_metadata_request msg)"
    using app e r PopulateCDCSDKDDLRecord_result by fastforce
  show "v_cached_schema_version st' = ?v"
  proof (cases "last_is_ddl (v_records st) ?v")
    case True
    with s2 have "s2 = s1" unfolding dd by auto
    with e r show ?thesis by simp
  next
    case False
    from app [OF this] e r show ?thesis by auto
  qed
qed


lemmas wal_defs =
  wal_message_def message_schema_def change_metadata_op_def resolve_metadata_schema_def
  PopulateCDCSDKDDLRecord_def SetCheckpoint_streamed_def has_change_metadata_request_def
  change_metadata_request_def wal_batch_def default_message_checkpoint_def ex_env_log_def
  resolved_schema_version_def last_is_ddl_def ex_env_catalog2_def update_transaction_op_def
  write_op_def truncate_op_def split_op_def VerifyTabletSplitOnParentTablet_def
  PopulateCDCSDKTruncateRecord_def resume_transaction_def



end
